(* ===== verification/Prelude.thy ===== *)
theory Prelude
  imports Main "HOL-Library.AList" "HOL-Library.Multiset"
begin

section \<open>Prelude: errors, the error-state monad, association lists\<close>

text \<open>
  What every component shares.
  \<^item> \<open>error\<close>: one constructor per error site of the Go code, with the values its
    message prints, grouped by component; errors of code outside the repository are
    \<open>ErrExt\<close>.
  \<^item> \<open>io\<close>: a Go method that returns an \<open>error\<close> and changes state is a function
    from the state to the result and the new state. The state is threaded through failing
    calls too, since the Go code keeps every assignment made before an early return.
  \<^item> \<open>hoare\<close>: partial-correctness triples over \<open>io\<close>, with one postcondition for
    a normal return and one for an error return, used for the invariants.
  \<^item> Go maps are association lists read by \<open>map_of\<close>; the order of the list is the
    order in which \<open>range\<close> visits the map, which Go leaves open. Every theorem holds for
    every order of the list.
\<close>

subsection \<open>Errors\<close>

datatype coord_error =
    ClosedClient
  | NoNode
  | NodeExists
  | NotEmpty
  | NotDir
  | NotFile
  | InvalidAuth
  | InvalidCoordinator string
  | NilConn
  | EndlessRecursion

datatype group_error =
    InvalidGroupName string
  | PortsEqual
  | GroupExists string
  | PortConflict string string
  | GroupNotFound string
  | GroupNotEmpty string
  | InvalidServerAddr
  | ServerExists string
  | NoSuchServer string string
  | RemoveMaster string
  | PromotingIndex string int
  | PromoteMaster string
  | ActionStateInvalid string
  | MasterNotAllowed string string
  | GroupPromoting string

datatype sentinel_error =
    InvalidSentinelAddr
  | SentinelExists string
  | SentinelNotFound string
  | RemoveSentinelFailed string
  | NoServerWithRunId string string
  | LostMajority nat nat

datatype gslb_error =
    InvalidGSLBAddr
  | GSLBServerExists string string
  | GSLBNotFound string
  | GSLBServerNotFound string string
  | UnsupportedGSLB string
  | RedisStatsEmpty

datatype error =
    ErrExt string
  | ErrCoord coord_error
  | ErrGroup group_error
  | ErrSentinel sentinel_error
  | ErrGSLB gslb_error
  | ErrClosedTopom
  | ErrClosedPool
  | ErrCtxCanceled
  | ErrCtxDeadline
  | ErrDecode
  | ErrSplitHostPort string
  | ErrInvalidResponse
  | ErrInvalidConfig string
  | ErrTemplateNotFound string
  | ErrDeleteTopom string
  | ErrMapper string string error
  | ErrUpdateSentinel error
  | ErrSyncAction string string string error
  | ErrResyncAll string error
  | ErrCmd string error
  | ErrMulti "error list"

subsection \<open>The error-state monad\<close>

type_synonym ('s, 'a) io = "'s \<Rightarrow> (error + 'a) \<times> 's"

named_theorems io_defs \<open>unfolding of the monad's combinators\<close>
named_theorems hoare_intros \<open>rules of the triples\<close>

definition ret :: "'a \<Rightarrow> ('s, 'a) io" where
  "ret x s = (Inr x, s)"

definition fail :: "error \<Rightarrow> ('s, 'a) io" where
  "fail e s = (Inl e, s)"

definition bindE :: "('s, 'a) io \<Rightarrow> ('a \<Rightarrow> ('s, 'b) io) \<Rightarrow> ('s, 'b) io" where
  "bindE m f s = (case m s of (r, s') \<Rightarrow> (case r of Inl e \<Rightarrow> (Inl e, s') | Inr x \<Rightarrow> f x s'))"

text \<open>\<open>guardE c e\<close> is Go's \<open>if !c { return e }\<close>.\<close>

definition guardE :: "bool \<Rightarrow> error \<Rightarrow> ('s, unit) io" where
  "guardE c e s = (if c then Inr () else Inl e, s)"

text \<open>\<open>attempt m\<close> runs \<open>m\<close> and hands its error to the caller, which goes on.\<close>

definition attempt :: "('s, 'a) io \<Rightarrow> ('s, error + 'a) io" where
  "attempt m s = (case m s of (r, s') \<Rightarrow> (Inr r, s'))"

definition gets :: "('s \<Rightarrow> 'a) \<Rightarrow> ('s, 'a) io" where
  "gets f s = (Inr (f s), s)"

definition modifyE :: "('s \<Rightarrow> 's) \<Rightarrow> ('s, unit) io" where
  "modifyE f s = (Inr (), f s)"

definition lookupE :: "('a \<times> 'b) list \<Rightarrow> 'a \<Rightarrow> error \<Rightarrow> ('s, 'b) io" where
  "lookupE m k e s = (case map_of m k of None \<Rightarrow> (Inl e, s) | Some v \<Rightarrow> (Inr v, s))"

text \<open>\<open>forE xs f\<close> is a Go loop whose body may return an error early.\<close>

fun forE :: "'a list \<Rightarrow> ('a \<Rightarrow> ('s, unit) io) \<Rightarrow> ('s, unit) io" where
  "forE [] f = ret ()"
| "forE (x # xs) f = bindE (f x) (\<lambda>_. forE xs f)"

text \<open>
  \<open>onW m\<close> runs \<open>m\<close> on the outer part of a pair state, \<open>mapErr f m\<close> wraps the error
  of \<open>m\<close>, \<open>liftSum r\<close> returns a result computed without state.
\<close>

definition onW :: "('w, 'a) io \<Rightarrow> ('m \<times> 'w, 'a) io" where
  "onW m s = (case m (snd s) of (r, w) \<Rightarrow> (r, (fst s, w)))"

definition mapErr :: "(error \<Rightarrow> error) \<Rightarrow> ('s, 'a) io \<Rightarrow> ('s, 'a) io" where
  "mapErr f m s = (case m s of (r, s') \<Rightarrow> (case r of Inl e \<Rightarrow> (Inl (f e), s') | Inr x \<Rightarrow> (Inr x, s')))"

definition liftSum :: "error + 'a \<Rightarrow> ('s, 'a) io" where
  "liftSum r s = (r, s)"

lemmas [io_defs] = ret_def fail_def bindE_def guardE_def attempt_def gets_def modifyE_def lookupE_def
  onW_def mapErr_def liftSum_def

lemma bindE_ret [simp]: "bindE (ret x) f = f x"
  by (rule ext) (simp add: io_defs)

lemma bindE_assoc: "bindE (bindE m f) g = bindE m (\<lambda>x. bindE (f x) g)"
  by (rule ext) (simp add: bindE_def split: prod.split sum.split)

lemma bindE_guard_True [simp]: "bindE (guardE True e) f = f ()"
  by (rule ext) (simp add: io_defs)

lemma bindE_guard_False [simp]: "bindE (guardE False e) f = fail e"
  by (rule ext) (simp add: io_defs)

lemma bindE_fail [simp]: "bindE (fail e) f = fail e"
  by (rule ext) (simp add: io_defs)

lemma bindE_gets: "bindE (gets f) g s = g (f s) s"
  by (simp add: io_defs)

lemma bindE_modify: "bindE (modifyE f) g s = g () (f s)"
  by (simp add: io_defs)

lemma bindE_lookup: "bindE (lookupE m k e) g = (case map_of m k of None \<Rightarrow> fail e | Some v \<Rightarrow> g v)"
  by (rule ext) (simp add: io_defs split: option.split)

text \<open>Inversion: an \<open>Inr\<close> result of a sequence comes from two \<open>Inr\<close> results.\<close>

lemma bindE_InrD:
  assumes "bindE m f s = (Inr y, t)"
  obtains x u where "m s = (Inr x, u)" and "f x u = (Inr y, t)"
  using assms by (auto simp: bindE_def split: prod.splits sum.splits)

lemma guardE_InrD: "guardE c e s = (Inr y, t) \<Longrightarrow> c \<and> t = s"
  by (auto simp: guardE_def split: if_splits)

subsection \<open>Triples\<close>

definition hoare :: "('s \<Rightarrow> bool) \<Rightarrow> ('s, 'a) io \<Rightarrow> ('a \<Rightarrow> 's \<Rightarrow> bool) \<Rightarrow> ('s \<Rightarrow> bool) \<Rightarrow> bool" where
  "hoare P m Q R \<longleftrightarrow> (\<forall>s. P s \<longrightarrow> (case m s of (Inr x, s') \<Rightarrow> Q x s' | (Inl _, s') \<Rightarrow> R s'))"

abbreviation keeps :: "('s \<Rightarrow> bool) \<Rightarrow> ('s, 'a) io \<Rightarrow> bool" where
  "keeps I m \<equiv> hoare I m (\<lambda>_. I) I"

lemma hoare_iff:
  "hoare P m Q R \<longleftrightarrow>
     (\<forall>s. P s \<longrightarrow> (case fst (m s) of Inr x \<Rightarrow> Q x (snd (m s)) | Inl _ \<Rightarrow> R (snd (m s))))"
  by (simp add: hoare_def case_prod_beta split: sum.split)

lemma hoareI:
  assumes "\<And>s x s'. P s \<Longrightarrow> m s = (Inr x, s') \<Longrightarrow> Q x s'"
    and "\<And>s e s'. P s \<Longrightarrow> m s = (Inl e, s') \<Longrightarrow> R s'"
  shows "hoare P m Q R"
  using assms by (auto simp: hoare_def split: prod.split sum.split)

lemma hoareD:
  assumes "hoare P m Q R" and "P s"
  shows "m s = (Inr x, s') \<Longrightarrow> Q x s'" and "m s = (Inl e, s') \<Longrightarrow> R s'"
  using assms by (auto simp: hoare_def)

lemma hoare_result:
  "hoare (\<lambda>t. t = s) m Q R \<Longrightarrow> m s = (r, t) \<Longrightarrow> (case r of Inr x \<Rightarrow> Q x t | Inl _ \<Rightarrow> R t)"
  by (auto simp: hoare_def split: sum.splits)

lemma keepsD: "keeps I m \<Longrightarrow> I s \<Longrightarrow> I (snd (m s))"
  by (cases "m s"; cases "fst (m s)") (auto dest: hoareD)

lemma keepsI: "(\<And>s. I s \<Longrightarrow> I (snd (m s))) \<Longrightarrow> keeps I m"
  by (rule hoareI) (metis snd_conv)+

lemma hoare_bind:
  assumes "hoare P m Q R" and "\<And>x. hoare (Q x) (f x) Q' R"
  shows "hoare P (bindE m f) Q' R"
proof (rule hoareI)
  fix s y t
  assume "P s" and "bindE m f s = (Inr y, t)"
  then show "Q' y t"
    by (auto elim!: bindE_InrD dest: hoareD(1) [OF assms(1)] hoareD(1) [OF assms(2)])
next
  fix s e t
  assume P: "P s" and bind: "bindE m f s = (Inl e, t)"
  show "R t"
  proof (cases "m s")
    case (Pair r u)
    show ?thesis
    proof (cases r)
      case (Inl e')
      with bind Pair have "m s = (Inl e, t)" by (simp add: bindE_def)
      with assms(1) P show ?thesis by (rule hoareD(2))
    next
      case (Inr x)
      with Pair assms(1) P have "Q x u" by (auto intro: hoareD(1))
      moreover from bind Pair Inr have "f x u = (Inl e, t)" by (simp add: bindE_def)
      ultimately show ?thesis using assms(2) by (blast dest: hoareD(2))
    qed
  qed
qed

lemma hoare_weaken:
  assumes "hoare P m Q R" and "\<And>s. P' s \<Longrightarrow> P s" and "\<And>x s. Q x s \<Longrightarrow> Q' x s"
    and "\<And>s. R s \<Longrightarrow> R' s"
  shows "hoare P' m Q' R'"
proof (rule hoareI)
  fix s x s'
  assume "P' s" and m: "m s = (Inr x, s')"
  then have "P s" by (rule_tac assms(2))
  from hoareD(1) [OF assms(1) this m] show "Q' x s'" by (rule assms(3))
next
  fix s e s'
  assume "P' s" and m: "m s = (Inl e, s')"
  then have "P s" by (rule_tac assms(2))
  from hoareD(2) [OF assms(1) this m] show "R' s'" by (rule assms(4))
qed

lemma hoare_guard: "hoare P (guardE c e) (\<lambda>_ s. P s \<and> c) P"
  by (simp add: hoare_def guardE_def)

lemma hoare_gets: "hoare P (gets f) (\<lambda>x s. P s \<and> x = f s) R"
  by (simp add: hoare_def gets_def)

lemma hoare_lookup: "hoare P (lookupE m k e) (\<lambda>x s. P s \<and> map_of m k = Some x) P"
  by (simp add: hoare_def lookupE_def split: option.split)

lemma hoare_modify: "(\<And>s. P s \<Longrightarrow> Q () (f s)) \<Longrightarrow> hoare P (modifyE f) Q R"
  by (simp add: hoare_def modifyE_def)

lemma keeps_ret: "keeps I (ret x)"
  by (simp add: hoare_def ret_def)

lemma keeps_fail: "keeps I (fail e)"
  by (simp add: hoare_def fail_def)

lemma keeps_guard: "keeps I (guardE c e)"
  by (simp add: hoare_def guardE_def)

lemma keeps_gets: "keeps I (gets f)"
  by (simp add: hoare_def gets_def)

lemma keeps_lookup: "keeps I (lookupE m k e)"
  by (simp add: hoare_def lookupE_def split: option.split)

lemma keeps_bind: "keeps I m \<Longrightarrow> (\<And>x. keeps I (f x)) \<Longrightarrow> keeps I (bindE m f)"
  by (rule hoare_bind)

lemma keeps_attempt: "keeps I m \<Longrightarrow> keeps I (attempt m)"
  by (auto simp: hoare_def attempt_def split: prod.split sum.split)

lemma keeps_if: "(c \<Longrightarrow> keeps I m) \<Longrightarrow> (\<not> c \<Longrightarrow> keeps I n) \<Longrightarrow> keeps I (if c then m else n)"
  by simp

lemma keeps_modify: "(\<And>s. I s \<Longrightarrow> I (f s)) \<Longrightarrow> keeps I (modifyE f)"
  by (simp add: hoare_def modifyE_def)

lemma keeps_forE: "(\<And>x. x \<in> set xs \<Longrightarrow> keeps I (f x)) \<Longrightarrow> keeps I (forE xs f)"
  by (induction xs) (auto intro: keeps_ret keeps_bind)

lemma keeps_mapErr: "keeps I m \<Longrightarrow> keeps I (mapErr f m)"
  by (auto simp: hoare_def mapErr_def split: prod.split sum.split)

lemma keeps_liftSum: "keeps I (liftSum r)"
  by (simp add: hoare_def liftSum_def split: sum.split)

text \<open>
  Reasoning from one state \<open>s\<close>: the reads and checks at the head of an operation are
  executed, then a rule with a weaker precondition takes over.
\<close>

lemma hoare_at: "(\<And>s. P s \<Longrightarrow> hoare (\<lambda>t. t = s) m Q R) \<Longrightarrow> hoare P m Q R"
  by (simp add: hoare_def)

lemma at_pre: "hoare P m Q R \<Longrightarrow> P s \<Longrightarrow> hoare (\<lambda>t. t = s) m Q R"
  by (simp add: hoare_def)

lemma at_rule:
  "P s \<Longrightarrow> (\<And>x t. Q' x t \<Longrightarrow> Q x t) \<Longrightarrow> hoare P m Q' R \<Longrightarrow> hoare (\<lambda>t. t = s) m Q R"
  by (auto simp: hoare_iff split: sum.splits)

lemma at_gets: "hoare (\<lambda>t. t = s) (g (f s)) Q R \<Longrightarrow> hoare (\<lambda>t. t = s) (bindE (gets f) g) Q R"
  by (simp add: hoare_def bindE_def gets_def)

lemma at_guard:
  "R s \<Longrightarrow> (c \<Longrightarrow> hoare (\<lambda>t. t = s) (g ()) Q R) \<Longrightarrow> hoare (\<lambda>t. t = s) (bindE (guardE c e) g) Q R"
  by (simp add: hoare_def bindE_def guardE_def)

lemma at_lookup:
  "R s \<Longrightarrow> (\<And>v. map_of m k = Some v \<Longrightarrow> hoare (\<lambda>t. t = s) (g v) Q R) \<Longrightarrow>
     hoare (\<lambda>t. t = s) (bindE (lookupE m k e) g) Q R"
  by (simp add: hoare_def bindE_def lookupE_def split: option.split)

lemma at_ret: "Q x s \<Longrightarrow> hoare (\<lambda>t. t = s) (ret x) Q R"
  by (simp add: hoare_def ret_def)

lemma at_fail: "R s \<Longrightarrow> hoare (\<lambda>t. t = s) (fail e) Q R"
  by (simp add: hoare_def fail_def)

lemma hoare_if: "(c \<Longrightarrow> hoare P m Q R) \<Longrightarrow> (\<not> c \<Longrightarrow> hoare P n Q R) \<Longrightarrow> hoare P (if c then m else n) Q R"
  by simp

lemma hoare_attempt: "hoare P m Q R \<Longrightarrow> (\<And>x s. Q x s \<Longrightarrow> T (Inr x) s) \<Longrightarrow> (\<And>e s. R s \<Longrightarrow> T (Inl e) s) \<Longrightarrow>
    hoare P (attempt m) T U"
  by (simp add: hoare_iff attempt_def case_prod_beta split: sum.splits) (metis sumE)

lemma hoare_mapErr: "hoare P m Q R \<Longrightarrow> hoare P (mapErr f m) Q R"
  by (auto simp: hoare_iff mapErr_def case_prod_beta split: sum.splits)

lemma hoare_conj: "hoare P m Q R \<Longrightarrow> hoare P m Q' R' \<Longrightarrow> hoare P m (\<lambda>x s. Q x s \<and> Q' x s) (\<lambda>s. R s \<and> R' s)"
  by (auto simp: hoare_iff split: sum.splits)

lemma keeps_pure: "(\<And>s. snd (m s) = s) \<Longrightarrow> keeps I m"
  by (rule keepsI) simp

lemmas [hoare_intros] =
  keeps_ret keeps_fail keeps_guard keeps_gets keeps_lookup keeps_bind keeps_attempt keeps_if
  keeps_mapErr keeps_liftSum

subsection \<open>Association lists as Go maps\<close>

lemma map_of_update [simp]: "map_of (AList.update k v m) = (map_of m)(k \<mapsto> v)"
  by (rule ext) (simp add: update_conv)

lemma map_of_delete [simp]: "map_of (AList.delete k m) = (map_of m)(k := None)"
  by (rule ext) (simp add: delete_conv)

lemma distinct_update [simp]: "distinct (map fst m) \<Longrightarrow> distinct (map fst (AList.update k v m))"
  by (rule distinct_update)

lemma distinct_delete [simp]: "distinct (map fst m) \<Longrightarrow> distinct (map fst (AList.delete k m))"
  by (rule distinct_delete)

lemma update_twice [simp]: "AList.update k v (AList.update k w m) = AList.update k v m"
  by (induction m) auto

lemma list_all_update: "list_all P m \<Longrightarrow> P (k, v) \<Longrightarrow> list_all P (AList.update k v m)"
  by (induction m) auto

lemma list_all_delete: "list_all P m \<Longrightarrow> list_all P (AList.delete k m)"
  by (auto simp: AList.delete_eq list_all_iff)

subsection \<open>Lists of lists in a map\<close>

lemma mset_concat_update:
  "map_of m k = Some v \<Longrightarrow>
     mset (concat (map (f \<circ> snd) (AList.update k v' m))) + mset (f v) =
     mset (concat (map (f \<circ> snd) m)) + mset (f v')"
  by (induction m) (auto simp: union_ac split: if_splits)

lemma concat_update_new:
  "map_of m k = None \<Longrightarrow> concat (map (f \<circ> snd) (AList.update k v m)) = concat (map (f \<circ> snd) m) @ f v"
  by (induction m) (auto split: if_splits)

lemma mset_concat_filter: "mset (concat (map f (filter p m))) \<subseteq># mset (concat (map f m))"
  by (induction m) (auto intro: subset_mset.add_mono subset_mset.add_increasing)

lemma mset_concat_delete:
  "mset (concat (map f (AList.delete k m))) \<subseteq># mset (concat (map f m))"
  by (simp only: AList.delete_eq mset_concat_filter)

lemma distinct_subseteq:
  assumes "distinct ys" and "mset xs \<subseteq># mset ys"
  shows "distinct xs"
proof -
  from assms(2) obtain Z where "mset ys = mset xs + Z" by (metis subset_mset.le_iff_add)
  moreover obtain zs where "Z = mset zs" by (metis ex_mset)
  ultimately have "mset ys = mset (xs @ zs)" by simp
  with assms(1) have "distinct (xs @ zs)" by (metis mset_eq_imp_distinct_iff)
  then show ?thesis by simp
qed

lemma map_of_update_id: "map_of m k = Some v \<Longrightarrow> AList.update k v m = m"
  by (induction m) auto

subsection \<open>Slices\<close>

text \<open>
  \<open>remove_at i xs\<close> is \<open>append(xs[:i], xs[i+1:]...)\<close>, \<open>swap0 i xs\<close> is
  \<open>xs[0], xs[i] = xs[i], xs[0]\<close>, and \<open>index_of p xs\<close> the search loop that
  returns \<open>-1\<close> when no element satisfies \<open>p\<close>.
\<close>

definition remove_at :: "nat \<Rightarrow> 'a list \<Rightarrow> 'a list" where
  "remove_at i xs = take i xs @ drop (Suc i) xs"

definition swap0 :: "nat \<Rightarrow> 'a list \<Rightarrow> 'a list" where
  "swap0 i xs = xs[0 := xs ! i, i := xs ! 0]"

fun index_from :: "int \<Rightarrow> ('a \<Rightarrow> bool) \<Rightarrow> 'a list \<Rightarrow> int" where
  "index_from i p [] = - 1"
| "index_from i p (x # xs) = (if p x then i else index_from (i + 1) p xs)"

definition index_of :: "('a \<Rightarrow> bool) \<Rightarrow> 'a list \<Rightarrow> int" where
  "index_of p xs = index_from 0 p xs"

lemma index_from_none: "0 \<le> i \<Longrightarrow> index_from i p xs = - 1 \<longleftrightarrow> (\<forall>x \<in> set xs. \<not> p x)"
  by (induction xs arbitrary: i) auto

lemma index_from_some:
  "0 \<le> i \<Longrightarrow> index_from i p xs \<noteq> - 1 \<Longrightarrow>
     \<exists>n < length xs. index_from i p xs = i + int n \<and> p (xs ! n) \<and> (\<forall>m < n. \<not> p (xs ! m))"
proof (induction xs arbitrary: i)
  case Nil
  then show ?case by simp
next
  case (Cons x xs)
  show ?case
  proof (cases "p x")
    case True
    then show ?thesis by (intro exI [of _ 0]) simp
  next
    case False
    with Cons.prems Cons.IH [of "i + 1"] obtain n where "n < length xs"
      and "index_from (i + 1) p xs = i + 1 + int n" and "p (xs ! n)" and "\<forall>m < n. \<not> p (xs ! m)"
      by auto
    with False show ?thesis
      by (intro exI [of _ "Suc n"]) (auto simp: nth_Cons split: nat.split)
  qed
qed

lemma index_of_none: "index_of p xs = - 1 \<longleftrightarrow> (\<forall>x \<in> set xs. \<not> p x)"
  by (simp add: index_of_def index_from_none)

lemma index_of_some:
  assumes "index_of p xs \<noteq> - 1"
  shows "0 \<le> index_of p xs" and "nat (index_of p xs) < length xs"
    and "p (xs ! nat (index_of p xs))" and "\<And>m. m < nat (index_of p xs) \<Longrightarrow> \<not> p (xs ! m)"
  using index_from_some [of 0 p xs] assms by (auto simp: index_of_def)

lemma index_of_ge: "- 1 \<le> index_of p xs"
  using index_of_some(1) [of p xs] by fastforce

lemma set_remove_at: "set (remove_at i xs) \<subseteq> set xs"
  by (auto simp: remove_at_def dest: in_set_takeD in_set_dropD)

lemma mset_remove_at: "i < length xs \<Longrightarrow> mset (remove_at i xs) = mset xs - {#xs ! i#}"
proof -
  assume i: "i < length xs"
  have "mset xs = mset (take i xs) + (add_mset (xs ! i) (mset (drop (Suc i) xs)))"
    using id_take_nth_drop [OF i] by (metis mset.simps(2) mset_append)
  then show ?thesis by (simp add: remove_at_def)
qed

lemma length_remove_at: "i < length xs \<Longrightarrow> length (remove_at i xs) = length xs - 1"
  by (simp add: remove_at_def)

lemma length_swap0 [simp]: "length (swap0 i xs) = length xs"
  by (simp add: swap0_def)

lemma mset_swap0: "i < length xs \<Longrightarrow> mset (swap0 i xs) = mset xs"
  unfolding swap0_def by (cases xs) (simp, rule mset_swap, simp_all)

lemma set_swap0: "i < length xs \<Longrightarrow> set (swap0 i xs) = set xs"
  by (metis mset_swap0 set_mset_mset)

lemma swap0_nth0: "i < length xs \<Longrightarrow> swap0 i xs ! 0 = xs ! i"
  by (cases i; cases xs) (auto simp: swap0_def)

lemma map_swap0: "i < length xs \<Longrightarrow> map f (swap0 i xs) = swap0 i (map f xs)"
  by (cases xs) (auto simp: swap0_def map_update nth_Cons split: nat.split)

lemma map_remove_at: "map f (remove_at i xs) = remove_at i (map f xs)"
  by (simp add: remove_at_def take_map drop_map)

end
