(* ===== verification/GoLib.thy ===== *)
theory GoLib
  imports Prelude "HOL-Library.Char_ord"
begin

section \<open>The parts of Go's standard library that the program calls\<close>

text \<open>
  Strings are byte strings, as in Go: \<open>string\<close> is a list of 8-bit characters, so
  \<open>length\<close> is Go's \<open>len\<close>. The functions carry the names of the Go functions
  they model: \<open>SplitHostPort\<close> and \<open>JoinHostPort\<close> of package \<open>net\<close>,
  \<open>path_Join\<close>, \<open>path_Base\<close> and \<open>path_Dir\<close> of \<open>path/filepath\<close> on a
  Unix system, \<open>RuneCountInString\<close> of \<open>unicode/utf8\<close>, \<open>Itoa\<close> and
  \<open>Atoi\<close> of \<open>strconv\<close>, \<open>Split\<close>, \<open>SplitN2\<close>, \<open>HasPrefix\<close>,
  \<open>HasSuffix\<close>, \<open>TrimSuffix\<close>, \<open>TrimSpace\<close> and \<open>ToLower\<close> of
  \<open>strings\<close> (\<open>ToLower\<close> on ASCII letters only, which is all its caller uses).
\<close>

subsection \<open>Splitting and joining\<close>

fun Split :: "char \<Rightarrow> string \<Rightarrow> string list" where
  "Split c [] = [[]]"
| "Split c (x # xs) =
     (if x = c then [] # Split c xs
      else (case Split c xs of [] \<Rightarrow> [[x]] | w # ws \<Rightarrow> (x # w) # ws))"

fun JoinWith :: "char \<Rightarrow> string list \<Rightarrow> string" where
  "JoinWith c [] = []"
| "JoinWith c [w] = w"
| "JoinWith c (w # ws) = w @ c # JoinWith c ws"

lemma Split_nonempty: "Split c s \<noteq> []"
  by (induction s) (auto split: list.split)

lemma Split_word: "c \<notin> set w \<Longrightarrow> Split c w = [w]"
  by (induction w) auto

lemma Split_append: "c \<notin> set w \<Longrightarrow> Split c (w @ c # s) = w # Split c s"
  by (induction w) auto

lemma Split_append_general: "Split c (d @ c # s) = Split c d @ Split c s"
proof (induction d)
  case Nil
  then show ?case by simp
next
  case (Cons x d)
  then show ?case using Split_nonempty [of c d] by (auto simp: neq_Nil_conv)
qed

lemma Split_JoinWith:
  "ws \<noteq> [] \<Longrightarrow> (\<forall>w \<in> set ws. c \<notin> set w) \<Longrightarrow> Split c (JoinWith c ws) = ws"
  by (induction c ws rule: JoinWith.induct) (auto simp: Split_word Split_append)

lemma JoinWith_Cons: "ws \<noteq> [] \<Longrightarrow> JoinWith c (w # ws) = w @ c # JoinWith c ws"
  by (cases ws) auto

lemma JoinWith_Split: "JoinWith c (Split c s) = s"
proof (induction s)
  case Nil
  then show ?case by simp
next
  case (Cons x s)
  obtain w ws where s: "Split c s = w # ws"
    using Split_nonempty [of c s] by (cases "Split c s") auto
  with Cons.IH show ?case
    by (cases ws) auto
qed

lemma Split_words: "w \<in> set (Split c s) \<Longrightarrow> c \<notin> set w"
proof (induction s arbitrary: w)
  case Nil
  then show ?case by simp
next
  case (Cons x s)
  then show ?case by (auto split: if_splits list.splits)
qed

text \<open>\<open>strings.SplitN(s, c, 2)\<close>: at most two parts, cut at the first \<open>c\<close>.\<close>

fun SplitN2 :: "char \<Rightarrow> string \<Rightarrow> string list" where
  "SplitN2 c [] = [[]]"
| "SplitN2 c (x # xs) =
     (if x = c then [[], xs]
      else (case SplitN2 c xs of [] \<Rightarrow> [[x]] | w # ws \<Rightarrow> (x # w) # ws))"

lemma SplitN2_append: "c \<notin> set w \<Longrightarrow> SplitN2 c (w @ c # s) = [w, s]"
  by (induction w) auto

lemma SplitN2_none: "c \<notin> set w \<Longrightarrow> SplitN2 c w = [w]"
  by (induction w) auto

definition HasPrefix :: "string \<Rightarrow> string \<Rightarrow> bool" where
  "HasPrefix s p = (take (length p) s = p)"

definition HasSuffix :: "string \<Rightarrow> string \<Rightarrow> bool" where
  "HasSuffix s p = (length p \<le> length s \<and> drop (length s - length p) s = p)"

definition TrimSuffix :: "string \<Rightarrow> string \<Rightarrow> string" where
  "TrimSuffix s p = (if HasSuffix s p then take (length s - length p) s else s)"

lemma HasPrefix_iff: "HasPrefix s p \<longleftrightarrow> (\<exists>r. s = p @ r)"
  by (auto simp: HasPrefix_def) (metis append_take_drop_id)

definition lower_char :: "char \<Rightarrow> char" where
  "lower_char c = (if CHR ''A'' \<le> c \<and> c \<le> CHR ''Z'' then char_of (of_char c + 32 :: nat) else c)"

definition ToLower :: "string \<Rightarrow> string" where
  "ToLower s = map lower_char s"

subsection \<open>White space\<close>

text \<open>
  \<open>unicode.IsSpace\<close> on UTF-8: the ASCII spaces are single bytes, the others the byte
  sequences of U+0085, U+00A0, U+1680, U+2000 to U+200A, U+2028, U+2029, U+202F, U+205F
  and U+3000.
\<close>

definition spaces :: "string list" where
  "spaces = map (\<lambda>n. [char_of (n :: nat)]) [9, 10, 11, 12, 13, 32]
     @ map (map (char_of :: nat \<Rightarrow> char))
         ([[194, 133], [194, 160], [225, 154, 128], [226, 128, 168], [226, 128, 169],
           [226, 128, 175], [226, 129, 159], [227, 128, 128]]
          @ map (\<lambda>n. [226, 128, n]) [128..<139])"

definition strip_one :: "string list \<Rightarrow> string \<Rightarrow> string option" where
  "strip_one ps s = (case find (HasPrefix s) ps of None \<Rightarrow> None | Some p \<Rightarrow> Some (drop (length p) s))"

fun strip_fuel :: "nat \<Rightarrow> string list \<Rightarrow> string \<Rightarrow> string" where
  "strip_fuel 0 ps s = s"
| "strip_fuel (Suc n) ps s = (case strip_one ps s of None \<Rightarrow> s | Some t \<Rightarrow> strip_fuel n ps t)"

definition strip :: "string list \<Rightarrow> string \<Rightarrow> string" where
  "strip ps s = strip_fuel (length s) ps s"

definition TrimSpace :: "string \<Rightarrow> string" where
  "TrimSpace s = rev (strip (map rev spaces) (rev (strip spaces s)))"

subsection \<open>UTF-8\<close>

text \<open>
  \<open>utf8.RuneCountInString\<close> counts code points; a byte that does not start a valid
  encoding counts as one. \<open>rune_width\<close> is the number of bytes the first rune takes:
  the table of first bytes and accepted ranges of the second byte is that of
  \<open>unicode/utf8\<close>.
\<close>

definition cont :: "nat \<Rightarrow> bool" where
  "cont b \<longleftrightarrow> 128 \<le> b \<and> b \<le> 191"

fun rune_width :: "nat list \<Rightarrow> nat" where
  "rune_width [] = 0"
| "rune_width (a # bs) =
     (if a < 194 \<or> 244 < a then 1
      else if a \<le> 223 then
        (case bs of b # _ \<Rightarrow> if cont b then 2 else 1 | _ \<Rightarrow> 1)
      else if a \<le> 239 then
        (case bs of b # c # _ \<Rightarrow>
           if (if a = 224 then 160 else 128) \<le> b \<and> b \<le> (if a = 237 then 159 else 191) \<and> cont c
           then 3 else 1
         | _ \<Rightarrow> 1)
      else
        (case bs of b # c # d # _ \<Rightarrow>
           if (if a = 240 then 144 else 128) \<le> b \<and> b \<le> (if a = 244 then 143 else 191)
              \<and> cont c \<and> cont d
           then 4 else 1
         | _ \<Rightarrow> 1))"

lemma rune_width_pos: "1 \<le> rune_width (a # bs)"
  by (auto split: list.split)

function rune_count :: "nat list \<Rightarrow> nat" where
  "rune_count [] = 0"
| "rune_count (a # bs) = Suc (rune_count (drop (rune_width (a # bs)) (a # bs)))"
  by pat_completeness auto
termination
proof (relation "measure length")
  fix a bs
  have "1 \<le> rune_width (a # bs)" by (rule rune_width_pos)
  then show "(drop (rune_width (a # bs)) (a # bs), a # bs) \<in> measure length" by simp
qed simp

definition RuneCountInString :: "string \<Rightarrow> nat" where
  "RuneCountInString s = rune_count (map of_char s)"

lemma rune_count_le: "rune_count bs \<le> length bs"
proof (induction bs rule: rune_count.induct)
  case (2 a bs)
  have "1 \<le> rune_width (a # bs)" by (rule rune_width_pos)
  with 2 show ?case by simp
qed simp

lemma RuneCount_le_length: "RuneCountInString s \<le> length s"
  using rune_count_le [of "map of_char s"] by (simp add: RuneCountInString_def)

subsection \<open>Decimal numbers\<close>

definition digit :: "nat \<Rightarrow> char" where
  "digit d = char_of (48 + d)"

fun nat_digits :: "nat \<Rightarrow> string" where
  "nat_digits n = (if n < 10 then [digit n] else nat_digits (n div 10) @ [digit (n mod 10)])"

declare nat_digits.simps [simp del]

definition Itoa :: "int \<Rightarrow> string" where
  "Itoa i = (if i < 0 then CHR ''-'' # nat_digits (nat (- i)) else nat_digits (nat i))"

definition digit_val :: "char \<Rightarrow> nat option" where
  "digit_val c = (if CHR ''0'' \<le> c \<and> c \<le> CHR ''9'' then Some (of_char c - 48) else None)"

fun parse_digits :: "nat \<Rightarrow> string \<Rightarrow> nat option" where
  "parse_digits acc [] = Some acc"
| "parse_digits acc (c # cs) =
     (case digit_val c of None \<Rightarrow> None | Some d \<Rightarrow> parse_digits (10 * acc + d) cs)"

text \<open>\<open>strconv.Atoi\<close> with a 64-bit \<open>int\<close>: an optional sign, at least one digit,
  and a value in range.\<close>

definition parse_nat :: "string \<Rightarrow> nat option" where
  "parse_nat s = (if s = [] then None else parse_digits 0 s)"

definition in_int64 :: "int \<Rightarrow> bool" where
  "in_int64 i \<longleftrightarrow> - (2 ^ 63) \<le> i \<and> i < 2 ^ 63"

definition Atoi :: "string \<Rightarrow> int option" where
  "Atoi s =
     (let r = (case s of
                 [] \<Rightarrow> None
               | c # cs \<Rightarrow>
                   if c = CHR ''-'' then map_option (\<lambda>n. - int n) (parse_nat cs)
                   else if c = CHR ''+'' then map_option int (parse_nat cs)
                   else map_option int (parse_nat s))
      in case r of None \<Rightarrow> None | Some i \<Rightarrow> if in_int64 i then Some i else None)"

lemma digit_val_digit: "d < 10 \<Longrightarrow> digit_val (digit d) = Some d"
proof -
  assume "d < 10"
  then have "d \<in> {0, 1, 2, 3, 4, 5, 6, 7, 8, 9}" by auto
  then show ?thesis by (auto simp: digit_val_def digit_def less_eq_char_def)
qed

lemma parse_digits_append:
  "parse_digits acc (xs @ ys) =
     (case parse_digits acc xs of None \<Rightarrow> None | Some a \<Rightarrow> parse_digits a ys)"
  by (induction xs arbitrary: acc) (auto split: option.split)

lemma nat_digits_nonempty: "nat_digits n \<noteq> []"
  by (subst nat_digits.simps) simp

lemma parse_nat_digits: "parse_digits 0 (nat_digits n) = Some n"
proof (induction n rule: nat_digits.induct)
  case (1 n)
  show ?case
  proof (cases "n < 10")
    case True
    then show ?thesis by (subst nat_digits.simps) (simp add: digit_val_digit)
  next
    case False
    with 1 show ?thesis
      by (subst nat_digits.simps) (simp add: parse_digits_append digit_val_digit)
  qed
qed

lemma set_nat_digits: "set (nat_digits n) \<subseteq> digit ` {..<10}"
proof (induction n rule: nat_digits.induct)
  case (1 n)
  then show ?case by (subst nat_digits.simps) auto
qed

lemma of_char_digit: "d < 10 \<Longrightarrow> (of_char (digit d) :: nat) = 48 + d"
  by (simp add: digit_def)

lemma digit_neq:
  assumes "d < 10"
  shows "digit d \<noteq> CHR ''-''" and "digit d \<noteq> CHR ''+''" and "digit d \<noteq> CHR '':''"
    and "digit d \<noteq> CHR ''[''" and "digit d \<noteq> CHR '']''" and "digit d \<noteq> CHR ''/''"
  using of_char_digit [OF assms] assms by auto

lemma Atoi_Itoa: "in_int64 i \<Longrightarrow> Atoi (Itoa i) = Some i"
proof -
  assume i: "in_int64 i"
  show ?thesis
  proof (cases "i < 0")
    case True
    with i show ?thesis
      by (simp add: Itoa_def Atoi_def parse_nat_def nat_digits_nonempty parse_nat_digits)
  next
    case False
    obtain c cs where ds: "nat_digits (nat i) = c # cs"
      using nat_digits_nonempty by (cases "nat_digits (nat i)") auto
    with set_nat_digits [of "nat i"] have "c \<noteq> CHR ''-'' \<and> c \<noteq> CHR ''+''"
      using digit_neq by auto
    with i False ds show ?thesis
      using parse_nat_digits [of "nat i"]
      by (simp add: Itoa_def Atoi_def parse_nat_def)
  qed
qed

lemma nat_digitsE:
  assumes "c \<in> set (nat_digits n)"
  obtains d where "d < 10" and "c = digit d"
  using assms set_nat_digits [of n] by auto

lemma Itoa_chars:
  "CHR '':'' \<notin> set (Itoa i)" "CHR ''['' \<notin> set (Itoa i)" "CHR '']'' \<notin> set (Itoa i)"
  "CHR ''/'' \<notin> set (Itoa i)"
  by (auto simp: Itoa_def elim!: nat_digitsE dest: digit_neq split: if_splits)

text \<open>Go's integer division truncates towards zero.\<close>

definition go_quot :: "int \<Rightarrow> int \<Rightarrow> int" where
  "go_quot a b = sgn a * sgn b * (\<bar>a\<bar> div \<bar>b\<bar>)"

subsection \<open>Host and port\<close>

fun last_index :: "char \<Rightarrow> string \<Rightarrow> nat option" where
  "last_index c [] = None"
| "last_index c (x # xs) =
     (case last_index c xs of Some i \<Rightarrow> Some (Suc i) | None \<Rightarrow> if x = c then Some 0 else None)"

fun byte_index :: "char \<Rightarrow> string \<Rightarrow> nat option" where
  "byte_index c [] = None"
| "byte_index c (x # xs) = (if x = c then Some 0 else map_option Suc (byte_index c xs))"

definition SplitHostPort :: "string \<Rightarrow> error + string \<times> string" where
  "SplitHostPort hp =
     (case last_index (CHR '':'') hp of
        None \<Rightarrow> Inl (ErrSplitHostPort ''missing port in address'')
      | Some i \<Rightarrow>
          if hd hp = CHR ''['' then
            (case byte_index (CHR '']'') hp of
               None \<Rightarrow> Inl (ErrSplitHostPort ''missing ']' in address'')
             | Some e \<Rightarrow>
                 if e + 1 = length hp then Inl (ErrSplitHostPort ''missing port in address'')
                 else if e + 1 = i then
                   (if CHR ''['' \<in> set (drop 1 hp)
                    then Inl (ErrSplitHostPort ''unexpected '[' in address'')
                    else if CHR '']'' \<in> set (drop (e + 1) hp)
                    then Inl (ErrSplitHostPort ''unexpected ']' in address'')
                    else Inr (take (e - 1) (drop 1 hp), drop (i + 1) hp))
                 else if hp ! (e + 1) = CHR '':''
                 then Inl (ErrSplitHostPort ''too many colons in address'')
                 else Inl (ErrSplitHostPort ''missing port in address''))
          else if CHR '':'' \<in> set (take i hp)
          then Inl (ErrSplitHostPort ''too many colons in address'')
          else if CHR ''['' \<in> set hp
          then Inl (ErrSplitHostPort ''unexpected '[' in address'')
          else if CHR '']'' \<in> set hp
          then Inl (ErrSplitHostPort ''unexpected ']' in address'')
          else Inr (take i hp, drop (i + 1) hp))"

definition JoinHostPort :: "string \<Rightarrow> string \<Rightarrow> string" where
  "JoinHostPort host port =
     (if CHR '':'' \<in> set host then ''['' @ host @ '']:'' @ port else host @ '':'' @ port)"

lemma last_index_append: "c \<notin> set p \<Longrightarrow> last_index c (h @ c # p) = Some (length h)"
proof (induction h)
  case Nil
  have "last_index c p = None" using Nil by (induction p) auto
  then show ?case by simp
next
  case (Cons x h)
  then show ?case by simp
qed

lemma byte_index_append: "c \<notin> set h \<Longrightarrow> byte_index c (h @ c # p) = Some (length h)"
  by (induction h) auto

lemma Split_JoinHostPort:
  assumes "CHR ''['' \<notin> set host" and "CHR '']'' \<notin> set host"
    and "CHR '':'' \<notin> set port" and "CHR ''['' \<notin> set port" and "CHR '']'' \<notin> set port"
  shows "SplitHostPort (JoinHostPort host port) = Inr (host, port)"
proof (cases "CHR '':'' \<in> set host")
  case True
  have "last_index (CHR '':'') ((''['' @ host @ '']'') @ CHR '':'' # port) = Some (length host + 2)"
    using assms by (subst last_index_append) auto
  moreover have "byte_index (CHR '']'') ((''['' @ host) @ CHR '']'' # '':'' @ port) = Some (length host + 1)"
    using assms by (subst byte_index_append) auto
  ultimately show ?thesis
    using True assms by (simp add: SplitHostPort_def JoinHostPort_def)
next
  case False
  have "hd (host @ CHR '':'' # port) \<noteq> CHR ''[''"
    using assms by (cases host) auto
  with False assms show ?thesis
    by (simp add: SplitHostPort_def JoinHostPort_def last_index_append)
qed

subsection \<open>Slash-separated paths\<close>

text \<open>
  \<open>filepath.Clean\<close> works on the components between slashes: empty components and
  \<open>.\<close> go, \<open>..\<close> takes the component before it away, and at the root of a rooted
  path it goes too. \<open>clean_comps\<close> keeps the components so far, last first.
\<close>

fun clean_comps :: "bool \<Rightarrow> string list \<Rightarrow> string list \<Rightarrow> string list" where
  "clean_comps rooted acc [] = rev acc"
| "clean_comps rooted acc (c # cs) =
     (if c = [] \<or> c = ''.'' then clean_comps rooted acc cs
      else if c = ''..'' then
        (case acc of
           [] \<Rightarrow> if rooted then clean_comps rooted [] cs else clean_comps rooted [c] cs
         | a # as \<Rightarrow> if a = ''..'' then clean_comps rooted (c # acc) cs
                     else clean_comps rooted as cs)
      else clean_comps rooted (c # acc) cs)"

definition path_Clean :: "string \<Rightarrow> string" where
  "path_Clean p =
     (if p = [] then ''.''
      else if hd p = CHR ''/'' then CHR ''/'' # JoinWith (CHR ''/'') (clean_comps True [] (Split (CHR ''/'') p))
      else (let q = JoinWith (CHR ''/'') (clean_comps False [] (Split (CHR ''/'') p))
            in if q = [] then ''.'' else q))"

definition path_Join :: "string list \<Rightarrow> string" where
  "path_Join ws =
     (let vs = filter (\<lambda>w. w \<noteq> []) ws
      in if vs = [] then [] else path_Clean (JoinWith (CHR ''/'') vs))"

fun trim_slashes :: "string \<Rightarrow> string" where
  "trim_slashes [] = []"
| "trim_slashes (c # cs) = (if c = CHR ''/'' then trim_slashes cs else c # cs)"

definition path_Base :: "string \<Rightarrow> string" where
  "path_Base p =
     (if p = [] then ''.''
      else (let q = rev (trim_slashes (rev p))
            in if q = [] then ''/'' else last (Split (CHR ''/'') q)))"

definition path_Dir :: "string \<Rightarrow> string" where
  "path_Dir p =
     (case last_index (CHR ''/'') p of
        None \<Rightarrow> path_Clean []
      | Some i \<Rightarrow> path_Clean (take (i + 1) p))"

text \<open>A component that \<open>filepath.Clean\<close> leaves alone.\<close>

definition plain_comp :: "string \<Rightarrow> bool" where
  "plain_comp c \<longleftrightarrow> c \<noteq> [] \<and> c \<noteq> ''.'' \<and> c \<noteq> ''..'' \<and> CHR ''/'' \<notin> set c"

lemma clean_comps_plain:
  "(\<forall>c \<in> set cs. c = [] \<or> plain_comp c) \<Longrightarrow>
     clean_comps r acc cs = rev acc @ filter (\<lambda>c. c \<noteq> []) cs"
  by (induction cs arbitrary: acc) (auto simp: plain_comp_def)

lemma trim_slashes_id: "hd s \<noteq> CHR ''/'' \<Longrightarrow> trim_slashes s = s"
  by (cases s) auto

lemma path_Base_plain:
  assumes "plain_comp b"
  shows "path_Base (d @ CHR ''/'' # b) = b"
proof -
  from assms have b: "b \<noteq> []" "CHR ''/'' \<notin> set b" by (auto simp: plain_comp_def)
  then have "last b \<noteq> CHR ''/''" using last_in_set by metis
  with b have "trim_slashes (rev (d @ CHR ''/'' # b)) = rev (d @ CHR ''/'' # b)"
    by (intro trim_slashes_id) (simp_all add: hd_rev)
  then have "path_Base (d @ CHR ''/'' # b) = last (Split (CHR ''/'') (d @ CHR ''/'' # b))"
    by (simp add: path_Base_def)
  also have "\<dots> = b"
    using b by (simp add: Split_append_general Split_word)
  finally show ?thesis .
qed

end
