(* ===== verification/Dao.thy ===== *)
theory Dao
  imports GoLib "HOL-Library.List_Lexorder"
begin

section \<open>Data objects (topom/dao) and their JSON form\<close>

text \<open>
  The records of package \<open>dao\<close>, with the accessor methods of \<open>Group\<close> and
  \<open>Groups\<close>, and what \<open>Encode\<close> and \<open>Decode\<close> write and read.
  \<^item> A JSON text stands for the value it denotes: \<open>JsonText v\<close> is a text that parses to
    \<open>v\<close> and \<open>Bytes s\<close> a byte string read as it is (template files). The textual layer of
    \<open>encoding/json\<close> (indentation, escapes) is not modelled, what the struct tags, the
    \<open>omitempty\<close> options, \<open>null\<close>, missing and unknown keys do is.
  \<^item> \<open>Unmarshal\<close> goes through the keys of the object in order and matches a key with a
    field without regard to case; a value of the wrong type is an error. A \<open>null\<close>
    element of \<open>servers\<close> (a nil pointer in Go, never written by the program) is an error.
  \<^item> A nil slice and an empty one are both the empty list.
\<close>

datatype json =
    JNull
  | JBool bool
  | JNum int
  | JStr string
  | JArr "json list"
  | JObj "(string \<times> json) list"

datatype data = JsonText json | Bytes string

definition jsonEncode :: "json \<Rightarrow> data" where
  "jsonEncode v = JsonText v"

definition jsonDecode :: "(json \<Rightarrow> 'a option) \<Rightarrow> data \<Rightarrow> error + 'a" where
  "jsonDecode f d =
     (case d of
        Bytes _ \<Rightarrow> Inl ErrDecode
      | JsonText v \<Rightarrow> (case f v of None \<Rightarrow> Inl ErrDecode | Some x \<Rightarrow> Inr x))"

lemma jsonDecode_Encode [simp]: "f v = Some x \<Longrightarrow> jsonDecode f (jsonEncode v) = Inr x"
  by (simp add: jsonDecode_def jsonEncode_def)

subsection \<open>Reading fields\<close>

definition get_str :: "string \<Rightarrow> json \<Rightarrow> string option" where
  "get_str old v = (case v of JStr s \<Rightarrow> Some s | JNull \<Rightarrow> Some old | _ \<Rightarrow> None)"

definition get_int :: "int \<Rightarrow> json \<Rightarrow> int option" where
  "get_int old v =
     (case v of JNum i \<Rightarrow> if in_int64 i then Some i else None | JNull \<Rightarrow> Some old | _ \<Rightarrow> None)"

definition get_bool :: "bool \<Rightarrow> json \<Rightarrow> bool option" where
  "get_bool old v = (case v of JBool b \<Rightarrow> Some b | JNull \<Rightarrow> Some old | _ \<Rightarrow> None)"

fun all_some :: "'a option list \<Rightarrow> 'a list option" where
  "all_some [] = Some []"
| "all_some (None # xs) = None"
| "all_some (Some x # xs) = map_option (Cons x) (all_some xs)"

definition get_list :: "(json \<Rightarrow> 'a option) \<Rightarrow> json \<Rightarrow> 'a list option" where
  "get_list f v = (case v of JArr vs \<Rightarrow> all_some (map f vs) | JNull \<Rightarrow> Some [] | _ \<Rightarrow> None)"

fun get_fields :: "(string \<Rightarrow> json \<Rightarrow> 'a \<Rightarrow> 'a option) \<Rightarrow> (string \<times> json) list \<Rightarrow> 'a \<Rightarrow> 'a option" where
  "get_fields f [] r = Some r"
| "get_fields f ((k, v) # kvs) r =
     (case f (ToLower k) v r of None \<Rightarrow> None | Some r' \<Rightarrow> get_fields f kvs r')"

definition get_struct :: "(string \<Rightarrow> json \<Rightarrow> 'a \<Rightarrow> 'a option) \<Rightarrow> 'a \<Rightarrow> json \<Rightarrow> 'a option" where
  "get_struct f zero v = (case v of JObj kvs \<Rightarrow> get_fields f kvs zero | JNull \<Rightarrow> Some zero | _ \<Rightarrow> None)"

lemma all_some_map: "(\<forall>x \<in> set xs. f (g x) = Some x) \<Longrightarrow> all_some (map (f \<circ> g) xs) = Some xs"
  by (induction xs) auto

lemma get_list_map: "(\<And>x. x \<in> set xs \<Longrightarrow> f (g x) = Some x) \<Longrightarrow> get_list f (JArr (map g xs)) = Some xs"
  using all_some_map [of xs f g] by (simp add: get_list_def)

named_theorems json_simps \<open>reading back what was written\<close>

lemmas [json_simps] = get_str_def get_int_def get_bool_def get_struct_def

subsection \<open>Groups\<close>

definition MAXGroupNameBytesLength :: nat where
  "MAXGroupNameBytesLength = 32"

record group_server =
  sAddr :: string

definition ActionNothing :: string where "ActionNothing = ''''"
definition ActionPreparing :: string where "ActionPreparing = ''preparing''"
definition ActionPrepared :: string where "ActionPrepared = ''prepared''"
definition ActionFinished :: string where "ActionFinished = ''finished''"

lemmas action_defs = ActionNothing_def ActionPreparing_def ActionPrepared_def ActionFinished_def

record group =
  gName :: string
  gServers :: "group_server list"
  gPromotingIndex :: int
  gPromotingState :: string
  gOutOfSync :: bool
  gProxyReadPort :: int
  gProxyWritePort :: int
  gCreateTime :: string

type_synonym groups = "(string \<times> group) list"

definition zero_group :: group where
  "zero_group = \<lparr>gName = [], gServers = [], gPromotingIndex = 0, gPromotingState = [],
     gOutOfSync = False, gProxyReadPort = 0, gProxyWritePort = 0, gCreateTime = []\<rparr>"

definition GetMaster :: "group \<Rightarrow> string" where
  "GetMaster g = (case gServers g of [] \<Rightarrow> [] | s # _ \<Rightarrow> sAddr s)"

definition GetServerIndex :: "group \<Rightarrow> string \<Rightarrow> int" where
  "GetServerIndex g addr = index_of (\<lambda>v. sAddr v = addr) (gServers g)"

fun GetMasters :: "groups \<Rightarrow> (string \<times> string) list" where
  "GetMasters [] = []"
| "GetMasters ((k, v) # gs) =
     (if GetMaster v \<noteq> [] then (k, GetMaster v) # GetMasters gs else GetMasters gs)"

text \<open>The addresses of a group's servers.\<close>

definition addrs :: "group \<Rightarrow> string list" where
  "addrs g = map sAddr (gServers g)"

lemma GetServerIndex_none: "GetServerIndex g a = - 1 \<longleftrightarrow> a \<notin> set (addrs g)"
  by (auto simp: GetServerIndex_def index_of_none addrs_def)

lemma GetServerIndex_some:
  assumes "GetServerIndex g a \<noteq> - 1"
  shows "0 \<le> GetServerIndex g a" and "nat (GetServerIndex g a) < length (gServers g)"
    and "sAddr (gServers g ! nat (GetServerIndex g a)) = a"
  using index_of_some [of "\<lambda>v. sAddr v = a" "gServers g"] assms
  by (simp_all add: GetServerIndex_def)

lemma map_of_GetMasters:
  "distinct (map fst gs) \<Longrightarrow>
     map_of (GetMasters gs) k =
       (case map_of gs k of None \<Rightarrow> None | Some g \<Rightarrow> if GetMaster g = [] then None else Some (GetMaster g))"
proof (induction gs rule: GetMasters.induct)
  case (2 k' v gs)
  have "map_of gs k' = None" using 2(3) by (simp add: map_of_eq_None_iff)
  with 2 show ?case by (auto split: option.split)
qed simp

definition group_server_json :: "group_server \<Rightarrow> json" where
  "group_server_json s = JObj [(''addr'', JStr (sAddr s))]"

definition set_server_field :: "string \<Rightarrow> json \<Rightarrow> group_server \<Rightarrow> group_server option" where
  "set_server_field k v s =
     (if k = ''addr'' then map_option (\<lambda>a. s\<lparr>sAddr := a\<rparr>) (get_str (sAddr s) v) else Some s)"

definition group_server_of_json :: "json \<Rightarrow> group_server option" where
  "group_server_of_json v =
     (case v of JNull \<Rightarrow> None | _ \<Rightarrow> get_struct set_server_field \<lparr>sAddr = []\<rparr> v)"

definition set_promoting_field :: "string \<Rightarrow> json \<Rightarrow> int \<times> string \<Rightarrow> (int \<times> string) option" where
  "set_promoting_field k v p =
     (if k = ''index'' then map_option (\<lambda>i. (i, snd p)) (get_int (fst p) v)
      else if k = ''state'' then map_option (\<lambda>s. (fst p, s)) (get_str (snd p) v)
      else Some p)"

definition group_json :: "group \<Rightarrow> json" where
  "group_json g = JObj
     [(''name'', JStr (gName g)),
      (''servers'', JArr (map group_server_json (gServers g))),
      (''promoting'', JObj
         ((if gPromotingIndex g = 0 then [] else [(''index'', JNum (gPromotingIndex g))]) @
          (if gPromotingState g = [] then [] else [(''state'', JStr (gPromotingState g))]))),
      (''outOfSync'', JBool (gOutOfSync g)),
      (''proxyReadPort'', JNum (gProxyReadPort g)),
      (''proxyWritePort'', JNum (gProxyWritePort g)),
      (''createTime'', JStr (gCreateTime g))]"

definition set_group_field :: "string \<Rightarrow> json \<Rightarrow> group \<Rightarrow> group option" where
  "set_group_field k v g =
     (if k = ''name'' then map_option (\<lambda>x. g\<lparr>gName := x\<rparr>) (get_str (gName g) v)
      else if k = ''servers'' then map_option (\<lambda>x. g\<lparr>gServers := x\<rparr>) (get_list group_server_of_json v)
      else if k = ''promoting'' then
        map_option (\<lambda>p. g\<lparr>gPromotingIndex := fst p, gPromotingState := snd p\<rparr>)
          (get_struct set_promoting_field (gPromotingIndex g, gPromotingState g) v)
      else if k = ''outofsync'' then map_option (\<lambda>x. g\<lparr>gOutOfSync := x\<rparr>) (get_bool (gOutOfSync g) v)
      else if k = ''proxyreadport'' then map_option (\<lambda>x. g\<lparr>gProxyReadPort := x\<rparr>) (get_int (gProxyReadPort g) v)
      else if k = ''proxywriteport'' then map_option (\<lambda>x. g\<lparr>gProxyWritePort := x\<rparr>) (get_int (gProxyWritePort g) v)
      else if k = ''createtime'' then map_option (\<lambda>x. g\<lparr>gCreateTime := x\<rparr>) (get_str (gCreateTime g) v)
      else Some g)"

definition group_of_json :: "json \<Rightarrow> group option" where
  "group_of_json v = get_struct set_group_field zero_group v"

definition Group_Encode :: "group \<Rightarrow> data" where
  "Group_Encode g = jsonEncode (group_json g)"

definition Group_Decode :: "data \<Rightarrow> error + group" where
  "Group_Decode d = jsonDecode group_of_json d"

text \<open>The numbers of a group that a Go program can hold.\<close>

definition group_ints :: "group \<Rightarrow> bool" where
  "group_ints g \<longleftrightarrow> in_int64 (gPromotingIndex g) \<and> in_int64 (gProxyReadPort g) \<and> in_int64 (gProxyWritePort g)"

lemma ToLower_tags [json_simps]:
  "ToLower ''addr'' = ''addr''" "ToLower ''name'' = ''name''" "ToLower ''servers'' = ''servers''"
  "ToLower ''promoting'' = ''promoting''" "ToLower ''outOfSync'' = ''outofsync''"
  "ToLower ''proxyReadPort'' = ''proxyreadport''" "ToLower ''proxyWritePort'' = ''proxywriteport''"
  "ToLower ''createTime'' = ''createtime''" "ToLower ''index'' = ''index''" "ToLower ''state'' = ''state''"
  by code_simp+

lemma group_server_roundtrip: "group_server_of_json (group_server_json s) = Some s"
  by (simp add: group_server_of_json_def group_server_json_def get_struct_def set_server_field_def
      get_str_def json_simps)

lemma group_servers_roundtrip:
  "get_list group_server_of_json (JArr (map group_server_json ss)) = Some ss"
  by (rule get_list_map) (rule group_server_roundtrip)


lemma group_json_roundtrip: "group_ints g \<Longrightarrow> group_of_json (group_json g) = Some g"
  by (cases g) (simp add: group_of_json_def group_json_def zero_group_def set_group_field_def
      set_promoting_field_def group_servers_roundtrip group_ints_def json_simps)

lemma Group_Decode_Encode: "group_ints g \<Longrightarrow> Group_Decode (Group_Encode g) = Inr g"
  by (simp add: Group_Decode_def Group_Encode_def group_json_roundtrip)

subsection \<open>Sentinels\<close>

record sentinel =
  snServers :: "string list"
  snOutOfSync :: bool

definition zero_sentinel :: sentinel where
  "zero_sentinel = \<lparr>snServers = [], snOutOfSync = False\<rparr>"

definition str_of_json :: "json \<Rightarrow> string option" where
  "str_of_json v = get_str [] v"

definition strs_field :: "string \<Rightarrow> string list \<Rightarrow> (string \<times> json) list" where
  "strs_field k xs = (if xs = [] then [] else [(k, JArr (map JStr xs))])"

definition sentinel_json :: "sentinel \<Rightarrow> json" where
  "sentinel_json s = JObj (strs_field ''servers'' (snServers s) @ [(''outOfSync'', JBool (snOutOfSync s))])"

definition set_sentinel_field :: "string \<Rightarrow> json \<Rightarrow> sentinel \<Rightarrow> sentinel option" where
  "set_sentinel_field k v s =
     (if k = ''servers'' then map_option (\<lambda>x. s\<lparr>snServers := x\<rparr>) (get_list str_of_json v)
      else if k = ''outofsync'' then map_option (\<lambda>x. s\<lparr>snOutOfSync := x\<rparr>) (get_bool (snOutOfSync s) v)
      else Some s)"

definition sentinel_of_json :: "json \<Rightarrow> sentinel option" where
  "sentinel_of_json v = get_struct set_sentinel_field zero_sentinel v"

definition Sentinel_Encode :: "sentinel \<Rightarrow> data" where
  "Sentinel_Encode s = jsonEncode (sentinel_json s)"

definition Sentinel_Decode :: "data \<Rightarrow> error + sentinel" where
  "Sentinel_Decode d = jsonDecode sentinel_of_json d"

lemma strs_roundtrip: "get_list str_of_json (JArr (map JStr xs)) = Some xs"
  by (rule get_list_map) (simp add: str_of_json_def get_str_def)

lemma Sentinel_Decode_Encode: "Sentinel_Decode (Sentinel_Encode s) = Inr s"
  by (cases s) (simp add: Sentinel_Decode_def Sentinel_Encode_def sentinel_of_json_def sentinel_json_def
      zero_sentinel_def set_sentinel_field_def strs_field_def strs_roundtrip json_simps)

subsection \<open>GSLBs\<close>

definition ServeStateUnavailable :: int where "ServeStateUnavailable = 0"
definition ServeStateRead :: int where "ServeStateRead = 1"
definition ServerStateWrite :: int where "ServerStateWrite = 2"

definition ServeState_String :: "int \<Rightarrow> string" where
  "ServeState_String s =
     (if s = ServeStateUnavailable then ''Unavailable''
      else if s = ServeStateRead then ''Read''
      else if s = ServerStateWrite then ''Write''
      else ''Unknown'')"

record gslb_backend =
  bkServers :: "string list"
  bkPort :: int

type_synonym gslb_backends = "(string \<times> gslb_backend) list"

record gslb_backend_group =
  bgName :: string
  bgServers :: "string list"
  bgServerGroup :: gslb_backends

record gslb =
  glName :: string
  glServers :: "string list"
  glMonitors :: "string list"
  glBackends :: "gslb_backend_group list"

type_synonym gslbs = "(string \<times> gslb) list"

definition zero_gslb :: gslb where
  "zero_gslb = \<lparr>glName = [], glServers = [], glMonitors = [], glBackends = []\<rparr>"

text \<open>
  \<open>reflect.DeepEqual\<close> on two \<open>*GSLB\<close>: field by field, slices by their elements and maps
  by their entries, whatever their order.
\<close>

definition map_equal :: "('k \<times> 'v) list \<Rightarrow> ('k \<times> 'v) list \<Rightarrow> bool" where
  "map_equal m n \<longleftrightarrow> (\<forall>k \<in> set (map fst m @ map fst n). map_of m k = map_of n k)"

definition backend_group_equal :: "gslb_backend_group \<Rightarrow> gslb_backend_group \<Rightarrow> bool" where
  "backend_group_equal a b \<longleftrightarrow>
     bgName a = bgName b \<and> bgServers a = bgServers b \<and> map_equal (bgServerGroup a) (bgServerGroup b)"

definition DeepEqual_GSLB :: "gslb \<Rightarrow> gslb \<Rightarrow> bool" where
  "DeepEqual_GSLB a b \<longleftrightarrow>
     glName a = glName b \<and> glServers a = glServers b \<and> glMonitors a = glMonitors b \<and>
     list_all2 backend_group_equal (glBackends a) (glBackends b)"

lemma map_equal_iff: "map_equal m n \<longleftrightarrow> map_of m = map_of n"
proof
  assume eq: "map_equal m n"
  show "map_of m = map_of n"
  proof
    fix k
    show "map_of m k = map_of n k"
    proof (cases "k \<in> set (map fst m @ map fst n)")
      case True
      with eq show ?thesis unfolding map_equal_def by blast
    next
      case False
      then have "map_of m k = None" "map_of n k = None" by (auto simp: map_of_eq_None_iff)
      then show ?thesis by simp
    qed
  qed
qed (simp add: map_equal_def)

lemma DeepEqual_GSLB_refl [simp]: "DeepEqual_GSLB g g"
  by (simp add: DeepEqual_GSLB_def backend_group_equal_def map_equal_iff list_all2_refl)

definition backend_json :: "gslb_backend \<Rightarrow> json" where
  "backend_json b = JObj [(''servers'', JArr (map JStr (bkServers b))), (''port'', JNum (bkPort b))]"

text \<open>\<open>encoding/json\<close> writes the keys of a map in sorted order.\<close>

definition backends_json :: "gslb_backends \<Rightarrow> json" where
  "backends_json m = JObj (map (\<lambda>(k, b). (k, backend_json b)) (sort_key fst m))"

definition backend_group_json :: "gslb_backend_group \<Rightarrow> json" where
  "backend_group_json g = JObj
     ([(''name'', JStr (bgName g))] @ strs_field ''servers'' (bgServers g) @
      [(''serverGroup'', backends_json (bgServerGroup g))])"

definition gslb_json :: "gslb \<Rightarrow> json" where
  "gslb_json g = JObj
     ([(''name'', JStr (glName g))] @ strs_field ''servers'' (glServers g) @
      strs_field ''monitors'' (glMonitors g) @
      (if glBackends g = [] then [] else [(''backends'', JArr (map backend_group_json (glBackends g)))]))"

definition set_backend_field :: "string \<Rightarrow> json \<Rightarrow> gslb_backend \<Rightarrow> gslb_backend option" where
  "set_backend_field k v b =
     (if k = ''servers'' then map_option (\<lambda>x. b\<lparr>bkServers := x\<rparr>) (get_list str_of_json v)
      else if k = ''port'' then map_option (\<lambda>x. b\<lparr>bkPort := x\<rparr>) (get_int (bkPort b) v)
      else Some b)"

definition backend_of_json :: "json \<Rightarrow> gslb_backend option" where
  "backend_of_json v =
     (case v of JNull \<Rightarrow> None | _ \<Rightarrow> get_struct set_backend_field \<lparr>bkServers = [], bkPort = 0\<rparr> v)"

fun get_entries :: "(json \<Rightarrow> 'a option) \<Rightarrow> (string \<times> json) list \<Rightarrow> (string \<times> 'a) list \<Rightarrow> (string \<times> 'a) list option" where
  "get_entries f [] m = Some m"
| "get_entries f ((k, v) # kvs) m =
     (case f v of None \<Rightarrow> None | Some x \<Rightarrow> get_entries f kvs (AList.update k x m))"

definition get_map :: "(json \<Rightarrow> 'a option) \<Rightarrow> json \<Rightarrow> (string \<times> 'a) list option" where
  "get_map f v = (case v of JObj kvs \<Rightarrow> get_entries f kvs [] | JNull \<Rightarrow> Some [] | _ \<Rightarrow> None)"

definition set_backend_group_field :: "string \<Rightarrow> json \<Rightarrow> gslb_backend_group \<Rightarrow> gslb_backend_group option" where
  "set_backend_group_field k v g =
     (if k = ''name'' then map_option (\<lambda>x. g\<lparr>bgName := x\<rparr>) (get_str (bgName g) v)
      else if k = ''servers'' then map_option (\<lambda>x. g\<lparr>bgServers := x\<rparr>) (get_list str_of_json v)
      else if k = ''servergroup'' then map_option (\<lambda>x. g\<lparr>bgServerGroup := x\<rparr>) (get_map backend_of_json v)
      else Some g)"

definition backend_group_of_json :: "json \<Rightarrow> gslb_backend_group option" where
  "backend_group_of_json v =
     (case v of JNull \<Rightarrow> None
      | _ \<Rightarrow> get_struct set_backend_group_field \<lparr>bgName = [], bgServers = [], bgServerGroup = []\<rparr> v)"

definition set_gslb_field :: "string \<Rightarrow> json \<Rightarrow> gslb \<Rightarrow> gslb option" where
  "set_gslb_field k v g =
     (if k = ''name'' then map_option (\<lambda>x. g\<lparr>glName := x\<rparr>) (get_str (glName g) v)
      else if k = ''servers'' then map_option (\<lambda>x. g\<lparr>glServers := x\<rparr>) (get_list str_of_json v)
      else if k = ''monitors'' then map_option (\<lambda>x. g\<lparr>glMonitors := x\<rparr>) (get_list str_of_json v)
      else if k = ''backends'' then map_option (\<lambda>x. g\<lparr>glBackends := x\<rparr>) (get_list backend_group_of_json v)
      else Some g)"

definition gslb_of_json :: "json \<Rightarrow> gslb option" where
  "gslb_of_json v = get_struct set_gslb_field zero_gslb v"

definition GSLB_Encode :: "gslb \<Rightarrow> data" where
  "GSLB_Encode g = jsonEncode (gslb_json g)"

definition GSLB_Decode :: "data \<Rightarrow> error + gslb" where
  "GSLB_Decode d = jsonDecode gslb_of_json d"

text \<open>What a Go program can hold: ports in range, one entry per key in every server group.\<close>

definition gslb_ok :: "gslb \<Rightarrow> bool" where
  "gslb_ok g \<longleftrightarrow>
     (\<forall>b \<in> set (glBackends g). distinct (map fst (bgServerGroup b)) \<and>
        (\<forall>e \<in> set (bgServerGroup b). in_int64 (bkPort (snd e))))"

lemma ToLower_tags_gslb [json_simps]:
  "ToLower ''port'' = ''port''" "ToLower ''serverGroup'' = ''servergroup''"
  "ToLower ''monitors'' = ''monitors''" "ToLower ''backends'' = ''backends''"
  by code_simp+

lemma backend_roundtrip: "in_int64 (bkPort b) \<Longrightarrow> backend_of_json (backend_json b) = Some b"
  by (cases b) (simp add: backend_of_json_def backend_json_def set_backend_field_def strs_roundtrip json_simps)

lemma get_entries_map:
  assumes "\<And>e. e \<in> set xs \<Longrightarrow> f (g (snd e)) = Some (snd e)" and "distinct (map fst xs)"
  shows "\<exists>m'. get_entries f (map (\<lambda>(k, b). (k, g b)) xs) m = Some m' \<and> map_of m' = map_of m ++ map_of xs"
  using assms
proof (induction xs arbitrary: m)
  case Nil
  then show ?case by simp
next
  case (Cons e xs)
  obtain k b where e: "e = (k, b)" by (cases e)
  with Cons.prems have fg: "f (g b) = Some b" and k: "map_of xs k = None"
    by (force simp: map_of_eq_None_iff)+
  from Cons.prems have "\<And>e. e \<in> set xs \<Longrightarrow> f (g (snd e)) = Some (snd e)" "distinct (map fst xs)"
    by auto
  from Cons.IH [OF this, of "AList.update k b m"] obtain m' where
    "get_entries f (map (\<lambda>(k, b). (k, g b)) xs) (AList.update k b m) = Some m'"
    "map_of m' = map_of (AList.update k b m) ++ map_of xs" by blast
  with e fg k show ?case by (auto simp: map_add_def fun_eq_iff split: option.split)
qed

lemma map_of_sort_key: "distinct (map fst m) \<Longrightarrow> map_of (sort_key fst m) = map_of m"
proof -
  assume d: "distinct (map fst m)"
  have "mset (map fst (sort_key fst m)) = mset (map fst m)" by simp
  with d have "distinct (map fst (sort_key fst m))" by (metis mset_eq_imp_distinct_iff)
  with d show ?thesis by (simp add: map_of_inject_set)
qed

lemma backends_roundtrip:
  assumes "distinct (map fst m)" and "\<forall>e \<in> set m. in_int64 (bkPort (snd e))"
  obtains m' where "get_map backend_of_json (backends_json m) = Some m'" and "map_of m' = map_of m"
proof -
  have "mset (map fst (sort_key fst m)) = mset (map fst m)" by simp
  with assms(1) have "distinct (map fst (sort_key fst m))" by (metis mset_eq_imp_distinct_iff)
  with assms(2) obtain m' where
    "get_entries backend_of_json (map (\<lambda>(k, b). (k, backend_json b)) (sort_key fst m)) [] = Some m'"
    "map_of m' = map_of [] ++ map_of (sort_key fst m)"
    using get_entries_map [of "sort_key fst m" backend_of_json backend_json "[]"]
    by (auto simp: backend_roundtrip)
  with assms(1) that show ?thesis by (simp add: get_map_def backends_json_def map_of_sort_key)
qed

lemma backend_group_roundtrip:
  assumes "distinct (map fst (bgServerGroup b))" and "\<forall>e \<in> set (bgServerGroup b). in_int64 (bkPort (snd e))"
  shows "\<exists>b'. backend_group_of_json (backend_group_json b) = Some b' \<and> backend_group_equal b b'"
proof -
  obtain m' where "get_map backend_of_json (backends_json (bgServerGroup b)) = Some m'"
    and "map_of m' = map_of (bgServerGroup b)"
    using backends_roundtrip [OF assms] .
  then show ?thesis
    by (simp add: backend_group_of_json_def backend_group_json_def set_backend_group_field_def
        strs_field_def strs_roundtrip backend_group_equal_def map_equal_iff json_simps)
qed

lemma get_list_related:
  assumes "\<And>x. x \<in> set xs \<Longrightarrow> \<exists>y. f (g x) = Some y \<and> R x y"
  shows "\<exists>ys. get_list f (JArr (map g xs)) = Some ys \<and> list_all2 R xs ys"
proof -
  have "\<exists>ys. all_some (map f (map g xs)) = Some ys \<and> list_all2 R xs ys"
    using assms
  proof (induction xs)
    case Nil
    then show ?case by simp
  next
    case (Cons x xs)
    obtain y where "f (g x) = Some y" "R x y" using Cons.prems [of x] by auto
    moreover obtain ys where "all_some (map f (map g xs)) = Some ys" "list_all2 R xs ys"
      using Cons.IH Cons.prems by auto
    ultimately show ?case by simp
  qed
  then show ?thesis by (simp add: get_list_def)
qed

lemma GSLB_Decode_Encode:
  assumes "gslb_ok g"
  shows "\<exists>g'. GSLB_Decode (GSLB_Encode g) = Inr g' \<and> DeepEqual_GSLB g g'"
proof -
  from assms obtain bs where
    "get_list backend_group_of_json (JArr (map backend_group_json (glBackends g))) = Some bs"
    "list_all2 backend_group_equal (glBackends g) bs"
    using get_list_related [of "glBackends g" backend_group_of_json backend_group_json backend_group_equal]
      backend_group_roundtrip by (auto simp: gslb_ok_def)
  then show ?thesis
    by (cases "glBackends g = []")
      (simp_all add: GSLB_Decode_def GSLB_Encode_def jsonDecode_def jsonEncode_def gslb_of_json_def
        gslb_json_def set_gslb_field_def zero_gslb_def strs_field_def strs_roundtrip
        DeepEqual_GSLB_def json_simps)
qed

subsection \<open>The dashboard's own node and the template files\<close>

record topom =
  tpStartTime :: string
  tpAdminAddr :: string
  tpProductName :: string
  tpPid :: int
  tpPwd :: string
  tpSys :: string

definition zero_topom :: topom where
  "zero_topom = \<lparr>tpStartTime = [], tpAdminAddr = [], tpProductName = [], tpPid = 0, tpPwd = [], tpSys = []\<rparr>"

definition topom_json :: "topom \<Rightarrow> json" where
  "topom_json t = JObj
     [(''startTime'', JStr (tpStartTime t)), (''adminAddr'', JStr (tpAdminAddr t)),
      (''productName'', JStr (tpProductName t)), (''pid'', JNum (tpPid t)),
      (''pwd'', JStr (tpPwd t)), (''sys'', JStr (tpSys t))]"

definition set_topom_field :: "string \<Rightarrow> json \<Rightarrow> topom \<Rightarrow> topom option" where
  "set_topom_field k v t =
     (if k = ''starttime'' then map_option (\<lambda>x. t\<lparr>tpStartTime := x\<rparr>) (get_str (tpStartTime t) v)
      else if k = ''adminaddr'' then map_option (\<lambda>x. t\<lparr>tpAdminAddr := x\<rparr>) (get_str (tpAdminAddr t) v)
      else if k = ''productname'' then map_option (\<lambda>x. t\<lparr>tpProductName := x\<rparr>) (get_str (tpProductName t) v)
      else if k = ''pid'' then map_option (\<lambda>x. t\<lparr>tpPid := x\<rparr>) (get_int (tpPid t) v)
      else if k = ''pwd'' then map_option (\<lambda>x. t\<lparr>tpPwd := x\<rparr>) (get_str (tpPwd t) v)
      else if k = ''sys'' then map_option (\<lambda>x. t\<lparr>tpSys := x\<rparr>) (get_str (tpSys t) v)
      else Some t)"

definition topom_of_json :: "json \<Rightarrow> topom option" where
  "topom_of_json v = get_struct set_topom_field zero_topom v"

definition Topom_Encode :: "topom \<Rightarrow> data" where
  "Topom_Encode t = jsonEncode (topom_json t)"

definition Topom_Decode :: "data \<Rightarrow> error + topom" where
  "Topom_Decode d = jsonDecode topom_of_json d"

lemma ToLower_tags_topom [json_simps]:
  "ToLower ''startTime'' = ''starttime''" "ToLower ''adminAddr'' = ''adminaddr''"
  "ToLower ''productName'' = ''productname''" "ToLower ''pid'' = ''pid''"
  "ToLower ''pwd'' = ''pwd''" "ToLower ''sys'' = ''sys''"
  by code_simp+

lemma Topom_Decode_Encode: "in_int64 (tpPid t) \<Longrightarrow> Topom_Decode (Topom_Encode t) = Inr t"
  by (cases t) (simp add: Topom_Decode_def Topom_Encode_def topom_of_json_def topom_json_def
      zero_topom_def set_topom_field_def json_simps)

record template_file =
  tfData :: string
  tfMD5 :: string

type_synonym template_files = "(string \<times> template_file) list"

end
