(* ===== verification/Coordinate.thy ===== *)
theory Coordinate
  imports Dao
begin

section \<open>Coordinator: node paths and the client interface (package coordinate)\<close>

text \<open>
  \<open>coordinate/path.go\<close> names the coordinator's nodes; \<open>coordinate/coordinator.go\<close>
  declares the interface the mappers use. A Go interface is a record of functions, its
  methods; \<open>'w\<close> is everything outside the process that a call can change.
  The locale \<open>coord_client\<close> is the contract of the interface: \<open>view\<close> is what the
  coordinator holds at each path.
\<close>

subsection \<open>Paths\<close>

definition DefaultBaseDir :: string where "DefaultBaseDir = ''/cache-manager''"
definition DefaultProductDir :: string where "DefaultProductDir = ''/products''"
definition DefaultTopomDir :: string where "DefaultTopomDir = ''/topom''"
definition DefaultGroupDir :: string where "DefaultGroupDir = ''/groups''"
definition DefaultSentinelDir :: string where "DefaultSentinelDir = ''/sentinel''"
definition DefaultGSLBDir :: string where "DefaultGSLBDir = ''/gslb''"
definition DefaultTemplateFileDir :: string where "DefaultTemplateFileDir = ''/template-files''"

lemmas dir_defs = DefaultBaseDir_def DefaultProductDir_def DefaultTopomDir_def DefaultGroupDir_def
  DefaultSentinelDir_def DefaultGSLBDir_def DefaultTemplateFileDir_def

definition ProductDir :: string where
  "ProductDir = path_Join [DefaultBaseDir, DefaultProductDir]"

definition ProductPath :: "string \<Rightarrow> string" where
  "ProductPath productName = path_Join [DefaultBaseDir, DefaultProductDir, productName]"

definition TopomPath :: "string \<Rightarrow> string" where
  "TopomPath productName = path_Join [DefaultBaseDir, DefaultProductDir, productName, DefaultTopomDir]"

definition GroupDir :: "string \<Rightarrow> string" where
  "GroupDir productName = path_Join [DefaultBaseDir, DefaultProductDir, productName, DefaultGroupDir]"

definition GroupPath :: "string \<Rightarrow> string \<Rightarrow> string" where
  "GroupPath productName groupName =
     path_Join [DefaultBaseDir, DefaultProductDir, productName, DefaultGroupDir, ''group-'' @ groupName]"

definition SentinelPath :: "string \<Rightarrow> string" where
  "SentinelPath productName = path_Join [DefaultBaseDir, DefaultProductDir, productName, DefaultSentinelDir]"

definition GSLBDir :: string where
  "GSLBDir = path_Join [DefaultBaseDir, DefaultGSLBDir]"

definition GSLBPath :: "string \<Rightarrow> string \<Rightarrow> string" where
  "GSLBPath gslbName productName = path_Join [DefaultBaseDir, DefaultGSLBDir, gslbName, productName]"

definition TemplateFileDir :: string where
  "TemplateFileDir = path_Join [DefaultBaseDir, DefaultTemplateFileDir]"

definition TemplateFilePath :: "string \<Rightarrow> string" where
  "TemplateFilePath fileName = path_Join [DefaultBaseDir, DefaultTemplateFileDir, fileName]"

lemmas path_defs = ProductDir_def ProductPath_def TopomPath_def GroupDir_def GroupPath_def
  SentinelPath_def GSLBDir_def GSLBPath_def TemplateFileDir_def TemplateFilePath_def

text \<open>
  Joining absolute pieces of plain components gives those components after slashes.
\<close>

lemma Split_JoinWith_concat: "ws \<noteq> [] \<Longrightarrow> Split c (JoinWith c ws) = concat (map (Split c) ws)"
proof (induction ws)
  case Nil
  then show ?case by simp
next
  case (Cons w ws)
  then show ?case by (cases "ws = []") (simp_all add: JoinWith_Cons Split_append_general)
qed

lemma path_Join_rooted:
  assumes "ws \<noteq> []" and "hd ws \<noteq> []" and "hd (hd ws) = CHR ''/''" and "\<forall>w \<in> set ws. w \<noteq> []"
    and "\<forall>c \<in> set (concat (map (Split (CHR ''/'')) ws)). c = [] \<or> plain_comp c"
  shows "path_Join ws =
    CHR ''/'' # JoinWith (CHR ''/'') (filter (\<lambda>c. c \<noteq> []) (concat (map (Split (CHR ''/'')) ws)))"
proof -
  from assms(4) have flt: "filter (\<lambda>w. w \<noteq> []) ws = ws" by (induction ws) auto
  obtain w vs where ws: "ws = w # vs" using assms(1) by (cases ws) auto
  with assms(2) have j: "JoinWith (CHR ''/'') ws \<noteq> []" by (cases vs) auto
  from ws assms(2,3) have h: "hd (JoinWith (CHR ''/'') ws) = CHR ''/''"
    by (cases vs) (auto simp: hd_append)
  have "clean_comps True [] (Split (CHR ''/'') (JoinWith (CHR ''/'') ws)) =
      filter (\<lambda>c. c \<noteq> []) (concat (map (Split (CHR ''/'')) ws))"
    using assms(5) by (simp only: Split_JoinWith_concat [OF assms(1)]) (simp add: clean_comps_plain)
  with flt assms(1) j h show ?thesis
    by (simp only: path_Join_def path_Clean_def Let_def if_False)  simp
qed

lemma plain_group: "CHR ''/'' \<notin> set n \<Longrightarrow> plain_comp (''group-'' @ n)"
  by (simp add: plain_comp_def)

lemma GroupPath_plain:
  assumes "plain_comp p" and "CHR ''/'' \<notin> set n"
  shows "GroupPath p n = ''/cache-manager/products/'' @ p @ ''/groups/group-'' @ n"
  unfolding GroupPath_def using assms
  by (subst path_Join_rooted) (auto simp: dir_defs plain_comp_def Split_word)

lemma SentinelPath_plain:
  assumes "plain_comp p"
  shows "SentinelPath p = ''/cache-manager/products/'' @ p @ ''/sentinel''"
  unfolding SentinelPath_def using assms
  by (subst path_Join_rooted) (auto simp: dir_defs plain_comp_def Split_word)

lemma TopomPath_plain:
  assumes "plain_comp p"
  shows "TopomPath p = ''/cache-manager/products/'' @ p @ ''/topom''"
  unfolding TopomPath_def using assms
  by (subst path_Join_rooted) (auto simp: dir_defs plain_comp_def Split_word)

lemma GroupDir_plain:
  assumes "plain_comp p"
  shows "GroupDir p = ''/cache-manager/products/'' @ p @ ''/groups''"
  unfolding GroupDir_def using assms
  by (subst path_Join_rooted) (auto simp: dir_defs plain_comp_def Split_word)

lemma GSLBPath_plain:
  assumes "plain_comp g" and "plain_comp p"
  shows "GSLBPath g p = ''/cache-manager/gslb/'' @ g @ ''/'' @ p"
  unfolding GSLBPath_def using assms
  by (subst path_Join_rooted) (auto simp: dir_defs plain_comp_def Split_word)

lemma GroupPath_inj:
  assumes "plain_comp p" and "CHR ''/'' \<notin> set n" and "CHR ''/'' \<notin> set m"
  shows "GroupPath p n = GroupPath p m \<longleftrightarrow> n = m"
  using assms by (simp add: GroupPath_plain)

text \<open>A node of one kind is never a node of another.\<close>

lemma paths_disjoint:
  assumes "plain_comp p" and "CHR ''/'' \<notin> set n" and "plain_comp g"
  shows "GroupPath p n \<noteq> SentinelPath p" and "GroupPath p n \<noteq> TopomPath p"
    and "SentinelPath p \<noteq> TopomPath p" and "GSLBPath g p \<noteq> GroupPath p n"
    and "GSLBPath g p \<noteq> SentinelPath p"
  using assms by (simp_all add: GroupPath_plain SentinelPath_plain TopomPath_plain GSLBPath_plain)

subsection \<open>The client interface\<close>

record 'w client =
  cl_Create :: "string \<Rightarrow> data \<Rightarrow> ('w, unit) io"
  cl_Update :: "string \<Rightarrow> data \<Rightarrow> ('w, unit) io"
  cl_Delete :: "string \<Rightarrow> ('w, unit) io"
  cl_Read :: "string \<Rightarrow> bool \<Rightarrow> ('w, data option) io"
  cl_List :: "string \<Rightarrow> bool \<Rightarrow> ('w, string list) io"

subsection \<open>The contract of the interface\<close>

text \<open>\<open>ancestor q p\<close>: the node \<open>q\<close> is above \<open>p\<close>; \<open>child_of d p\<close>: \<open>p\<close> is a node right under \<open>d\<close>.\<close>

definition ancestor :: "string \<Rightarrow> string \<Rightarrow> bool" where
  "ancestor q p \<longleftrightarrow> HasPrefix p (q @ ''/'')"

definition child_of :: "string \<Rightarrow> string \<Rightarrow> bool" where
  "child_of d p \<longleftrightarrow> HasPrefix p (d @ ''/'') \<and> CHR ''/'' \<notin> set (drop (length d + 1) p)"

lemma child_ofI: "CHR ''/'' \<notin> set c \<Longrightarrow> child_of d (d @ ''/'' @ c)"
  by (simp add: child_of_def HasPrefix_def)

lemma child_of_iff: "child_of d p \<longleftrightarrow> (\<exists>c. p = d @ ''/'' @ c \<and> CHR ''/'' \<notin> set c)"
  by (auto simp: child_of_def HasPrefix_iff)

text \<open>
  \<open>node_path p\<close>: \<open>p\<close> is a slash and a component, once or more, each component proper;
  the paths the program uses are of this form. \<open>hidden c\<close>: nodes whose name starts with an
  underscore are left out of etcd's listings.
\<close>

definition node_path :: "string \<Rightarrow> bool" where
  "node_path p \<longleftrightarrow> p \<noteq> [] \<and> hd p = CHR ''/'' \<and> list_all plain_comp (Split (CHR ''/'') (tl p))"

definition hidden :: "string \<Rightarrow> bool" where
  "hidden c \<longleftrightarrow> c \<noteq> [] \<and> hd c = CHR ''_''"

text \<open>A node right under \<open>p\<close> is found again from its base name.\<close>

lemma child_base:
  assumes q: "node_path q" and "child_of p q"
  shows "plain_comp (path_Base q) \<and> q = p @ ''/'' @ path_Base q"
proof -
  from assms(2) obtain c where c: "q = p @ ''/'' @ c" "CHR ''/'' \<notin> set c" by (auto simp: child_of_iff)
  from q obtain s where s: "q = CHR ''/'' # s" and plain: "list_all plain_comp (Split (CHR ''/'') s)"
    by (cases q) (auto simp: node_path_def)
  have "last (Split (CHR ''/'') q) = c" using c by (simp add: Split_append_general Split_word)
  moreover have "last (Split (CHR ''/'') q) = last (Split (CHR ''/'') s)" using Split_nonempty by (simp add: s)
  moreover have "plain_comp (last (Split (CHR ''/'') s))"
    using plain last_in_set [OF Split_nonempty] by (auto simp: list_all_iff)
  ultimately have "plain_comp c" by simp
  then show ?thesis using path_Base_plain [of c p] c by simp
qed

lemma GroupDir_node: "plain_comp p \<Longrightarrow> node_path (GroupDir p)"
  by (simp add: GroupDir_plain node_path_def plain_comp_def Split_append_general Split_word)

lemma GroupPath_node: "plain_comp p \<Longrightarrow> CHR ''/'' \<notin> set n \<Longrightarrow> node_path (GroupPath p n)"
  by (simp add: GroupPath_plain node_path_def plain_comp_def Split_append_general Split_word)

lemma SentinelPath_node: "plain_comp p \<Longrightarrow> node_path (SentinelPath p)"
  by (simp add: SentinelPath_plain node_path_def plain_comp_def Split_append_general Split_word)

text \<open>
  What the program relies on, on such paths: a write that succeeds is seen by the next read, a
  delete that succeeds takes the node away, no call touches a node other than its own (a write
  may create the nodes above its own), reads change nothing, and \<open>List\<close> gives the nodes right
  under a path. A failing write or delete may or may not have been carried out.
\<close>

locale coord_client =
  fixes C :: "'w client" and view :: "'w \<Rightarrow> string \<Rightarrow> data option"
  assumes create_ok: "node_path p \<Longrightarrow> cl_Create C p d w = (Inr x, w') \<Longrightarrow> view w p = None \<and> view w' p = Some d"
    and create_other: "node_path p \<Longrightarrow> cl_Create C p d w = (r, w') \<Longrightarrow> q \<noteq> p \<Longrightarrow> \<not> ancestor q p \<Longrightarrow>
      view w' q = view w q"
    and update_ok: "node_path p \<Longrightarrow> cl_Update C p d w = (Inr x, w') \<Longrightarrow> view w' p = Some d"
    and update_other: "node_path p \<Longrightarrow> cl_Update C p d w = (r, w') \<Longrightarrow> q \<noteq> p \<Longrightarrow> \<not> ancestor q p \<Longrightarrow>
      view w' q = view w q"
    and delete_ok: "node_path p \<Longrightarrow> cl_Delete C p w = (Inr x, w') \<Longrightarrow> view w' p = None"
    and delete_other: "node_path p \<Longrightarrow> cl_Delete C p w = (r, w') \<Longrightarrow> q \<noteq> p \<Longrightarrow> view w' q = view w q"
    and read_ok: "node_path p \<Longrightarrow> cl_Read C p must w = (Inr y, w') \<Longrightarrow> y = view w p"
    and read_frame: "cl_Read C p must w = (s, w') \<Longrightarrow> view w' = view w"
    and list_ok: "node_path p \<Longrightarrow> cl_List C p must w = (Inr ps, w') \<Longrightarrow>
        (\<forall>q \<in> set ps. node_path q \<and> child_of p q) \<and>
        (\<forall>c. plain_comp c \<longrightarrow> \<not> hidden c \<longrightarrow> view w (p @ ''/'' @ c) \<noteq> None \<longrightarrow> p @ ''/'' @ c \<in> set ps)"
    and list_frame: "cl_List C p must w = (t, w') \<Longrightarrow> view w' = view w"
begin

lemmas client_ok = create_ok update_ok delete_ok read_ok list_ok
lemmas client_frame = create_other update_other delete_other read_frame list_frame

lemma read_after_update:
  assumes "node_path p" and "cl_Update C p d w = (Inr x, w')" and "cl_Read C p must w' = (Inr y, w'')"
  shows "y = Some d"
  using update_ok [OF assms(1,2)] read_ok [OF assms(1,3)] by simp

lemma read_after_delete:
  assumes "node_path p" and "cl_Delete C p w = (Inr x, w')" and "cl_Read C p must w' = (Inr y, w'')"
  shows "y = None"
  using delete_ok [OF assms(1,2)] read_ok [OF assms(1,3)] by simp

end

end
