(* ===== verification/Etcd.thy ===== *)
theory Etcd
  imports Coordinate
begin

section \<open>The etcd client (coordinate/etcd/client.go)\<close>

text \<open>
  The client the dashboard runs against etcd. The library's \<open>KeysAPI\<close> is the parameter
  \<open>kapi\<close>; a client is its closed flag and its timeout, and its methods work on the pair of
  the client and the world. The lock makes each method one step.
  \<^item> \<open>etcd_service\<close> states what the documentation of etcd's v2 API says of the calls the
    client makes; \<open>view w p\<close> is the value of the file node \<open>p\<close>. The client then satisfies
    \<open>coord_client\<close>.
  \<^item> \<open>mem_kapi\<close> is a key store with etcd's rules for files and directories, kept in memory.
\<close>

subsection \<open>Client\<close>

datatype prev_exist = PrevIgnore | PrevExist | PrevNoExist

record etcd_node =
  ndKey :: string
  ndDir :: bool
  ndValue :: data
  ndNodes :: "string list"

record 'w kapi =
  ka_Set :: "string \<Rightarrow> data \<Rightarrow> prev_exist \<Rightarrow> bool \<Rightarrow> int option \<Rightarrow> bool \<Rightarrow> ('w, unit) io"
  ka_Delete :: "string \<Rightarrow> ('w, unit) io"
  ka_Get :: "string \<Rightarrow> bool \<Rightarrow> ('w, etcd_node) io"
  ka_CreateInOrder :: "string \<Rightarrow> data \<Rightarrow> int \<Rightarrow> ('w, string) io"

record etcd_client =
  ecClosed :: bool
  ecTimeout :: int

record etcd_config =
  efEndpoints :: "string list"
  efUsername :: string
  efPassword :: string

definition etcd_endpoint :: "string \<Rightarrow> string" where
  "etcd_endpoint s = (if s \<noteq> [] \<and> \<not> HasPrefix s ''http://'' then ''http://'' @ s else s)"

text \<open>\<open>connect\<close> is the library's \<open>client.New\<close>, which checks the configuration.\<close>

definition etcd_New :: "(etcd_config \<Rightarrow> error + unit) \<Rightarrow> string \<Rightarrow> string \<Rightarrow> int \<Rightarrow> error + etcd_client" where
  "etcd_New connect addrlist auth timeout =
     (let endpoints = map etcd_endpoint (Split (CHR '','') addrlist);
          t = (if timeout \<le> 0 then 5000000000 else timeout);
          finish = (\<lambda>user pass.
            case connect \<lparr>efEndpoints = endpoints, efUsername = user, efPassword = pass\<rparr> of
              Inl e \<Rightarrow> Inl e
            | Inr _ \<Rightarrow> Inr \<lparr>ecClosed = False, ecTimeout = t\<rparr>)
      in if auth = [] then finish [] []
         else (case SplitN2 (CHR '':'') auth of
                 [user, pass] \<Rightarrow> if user = [] then Inl (ErrCoord InvalidAuth) else finish user pass
               | _ \<Rightarrow> Inl (ErrCoord InvalidAuth)))"

text \<open>\<open>locked m\<close>: take the lock, give up when the client is closed, else do \<open>m\<close>.\<close>

definition locked :: "(etcd_client \<times> 'w, 'a) io \<Rightarrow> (etcd_client \<times> 'w, 'a) io" where
  "locked m =
     bindE (gets (ecClosed \<circ> fst)) (\<lambda>closed.
     bindE (guardE (\<not> closed) (ErrCoord ClosedClient)) (\<lambda>_. m))"

definition etcd_Close :: "(etcd_client \<times> 'w, unit) io" where
  "etcd_Close = modifyE (\<lambda>s. if ecClosed (fst s) then s else ((fst s)\<lparr>ecClosed := True\<rparr>, snd s))"

definition isErrNoNode :: "error \<Rightarrow> bool" where
  "isErrNoNode e \<longleftrightarrow> e = ErrCoord NoNode"

definition isErrNodeExists :: "error \<Rightarrow> bool" where
  "isErrNodeExists e \<longleftrightarrow> e = ErrCoord NodeExists"

definition etcd_Mkdir :: "'w kapi \<Rightarrow> string \<Rightarrow> (etcd_client \<times> 'w, unit) io" where
  "etcd_Mkdir K path =
     locked
       (bindE (attempt (onW (ka_Set K path (Bytes []) PrevNoExist True None False))) (\<lambda>r.
        case r of Inl e \<Rightarrow> if isErrNodeExists e then ret () else fail e | Inr _ \<Rightarrow> ret ()))"

definition etcd_Create :: "'w kapi \<Rightarrow> string \<Rightarrow> data \<Rightarrow> (etcd_client \<times> 'w, unit) io" where
  "etcd_Create K path d = locked (onW (ka_Set K path d PrevNoExist False None False))"

definition etcd_Update :: "'w kapi \<Rightarrow> string \<Rightarrow> data \<Rightarrow> (etcd_client \<times> 'w, unit) io" where
  "etcd_Update K path d = locked (onW (ka_Set K path d PrevIgnore False None False))"

definition etcd_Delete :: "'w kapi \<Rightarrow> string \<Rightarrow> (etcd_client \<times> 'w, unit) io" where
  "etcd_Delete K path =
     locked
       (bindE (attempt (onW (ka_Delete K path))) (\<lambda>r.
        case r of Inl e \<Rightarrow> if isErrNoNode e then ret () else fail e | Inr _ \<Rightarrow> ret ()))"

definition etcd_Read :: "'w kapi \<Rightarrow> string \<Rightarrow> bool \<Rightarrow> (etcd_client \<times> 'w, data option) io" where
  "etcd_Read K path must =
     locked
       (bindE (attempt (onW (ka_Get K path False))) (\<lambda>r.
        case r of
          Inl e \<Rightarrow> if isErrNoNode e \<and> \<not> must then ret None else fail e
        | Inr node \<Rightarrow> if \<not> ndDir node then ret (Some (ndValue node)) else fail (ErrCoord NotFile)))"

definition etcd_List :: "'w kapi \<Rightarrow> string \<Rightarrow> bool \<Rightarrow> (etcd_client \<times> 'w, string list) io" where
  "etcd_List K path must =
     locked
       (bindE (attempt (onW (ka_Get K path False))) (\<lambda>r.
        case r of
          Inl e \<Rightarrow> if isErrNoNode e \<and> \<not> must then ret [] else fail e
        | Inr node \<Rightarrow> if \<not> ndDir node then fail (ErrCoord NotDir) else ret (ndNodes node)))"

text \<open>The ephemeral nodes and the watch: the calls that are made at once.\<close>

definition etcd_CreateEphemeral :: "'w kapi \<Rightarrow> string \<Rightarrow> data \<Rightarrow> (etcd_client \<times> 'w, unit) io" where
  "etcd_CreateEphemeral K path d =
     locked
       (bindE (gets (ecTimeout \<circ> fst)) (\<lambda>ttl. onW (ka_Set K path d PrevNoExist False (Some ttl) False)))"

definition etcd_CreateEphemeralInOrder :: "'w kapi \<Rightarrow> string \<Rightarrow> data \<Rightarrow> (etcd_client \<times> 'w, string) io" where
  "etcd_CreateEphemeralInOrder K path d =
     locked (bindE (gets (ecTimeout \<circ> fst)) (\<lambda>ttl. onW (ka_CreateInOrder K path d ttl)))"

definition etcd_RefreshEphemeral :: "'w kapi \<Rightarrow> string \<Rightarrow> (etcd_client \<times> 'w, unit) io" where
  "etcd_RefreshEphemeral K path =
     locked
       (bindE (gets (ecTimeout \<circ> fst)) (\<lambda>ttl. onW (ka_Set K path (Bytes []) PrevExist False (Some ttl) True)))"

definition etcd_WatchInOrder :: "'w kapi \<Rightarrow> string \<Rightarrow> (etcd_client \<times> 'w, string list) io" where
  "etcd_WatchInOrder K path =
     bindE (etcd_Mkdir K path) (\<lambda>_.
     locked
       (bindE (onW (ka_Get K path True)) (\<lambda>node.
        if \<not> ndDir node then fail (ErrCoord NotDir) else ret (ndNodes node))))"

text \<open>
  The goroutines behind the signals: \<open>runRefreshEphemeral\<close> refreshes until a refresh fails,
  \<open>n\<close> bounds the refreshes looked at (\<open>False\<close>: still refreshing); \<open>watch_signal\<close> tells which of
  the answers of the watcher, an error or an action each, closes the signal.
\<close>

fun runRefreshEphemeral :: "'w kapi \<Rightarrow> string \<Rightarrow> nat \<Rightarrow> etcd_client \<times> 'w \<Rightarrow> bool \<times> (etcd_client \<times> 'w)" where
  "runRefreshEphemeral K path 0 s = (False, s)"
| "runRefreshEphemeral K path (Suc n) s =
     (case etcd_RefreshEphemeral K path s of (r, s') \<Rightarrow>
       (case r of Inl _ \<Rightarrow> (True, s') | Inr _ \<Rightarrow> runRefreshEphemeral K path n s'))"

fun watch_signal :: "(error + string) list \<Rightarrow> nat option" where
  "watch_signal [] = None"
| "watch_signal (Inl e # rs) = Some 0"
| "watch_signal (Inr action # rs) = (if action \<noteq> ''get'' then Some 0 else map_option Suc (watch_signal rs))"

definition etcd_Client :: "'w kapi \<Rightarrow> (etcd_client \<times> 'w) client" where
  "etcd_Client K =
     \<lparr>cl_Create = etcd_Create K, cl_Update = etcd_Update K, cl_Delete = etcd_Delete K,
      cl_Read = etcd_Read K, cl_List = etcd_List K\<rparr>"

text \<open>A closed client answers every call with the same error and calls nothing.\<close>

lemma locked_closed: "ecClosed (fst s) \<Longrightarrow> locked m s = (Inl (ErrCoord ClosedClient), s)"
  by (simp add: locked_def io_defs)

lemma locked_open: "\<not> ecClosed (fst s) \<Longrightarrow> locked m s = m s"
  by (simp add: locked_def io_defs)

lemma locked_InrD: "locked m s = (Inr x, t) \<Longrightarrow> \<not> ecClosed (fst s) \<and> m s = (Inr x, t)"
  by (cases "ecClosed (fst s)") (simp_all add: locked_closed locked_open)

lemma locked_cases: "locked m s = (r, t) \<Longrightarrow> m s = (r, t) \<or> t = s"
  by (cases "ecClosed (fst s)") (simp_all add: locked_closed locked_open)

lemma closed_stops_refreshing: "ecClosed (fst s) \<Longrightarrow> runRefreshEphemeral K path (Suc n) s = (True, s)"
  by (simp add: etcd_RefreshEphemeral_def locked_closed)

subsection \<open>The service behind the client\<close>

locale etcd_service =
  fixes K :: "'w kapi" and view :: "'w \<Rightarrow> string \<Rightarrow> data option"
  assumes set_ok: "node_path p \<Longrightarrow> ka_Set K p d prev False ttl False w = (Inr x, w') \<Longrightarrow>
      view w' p = Some d \<and> (prev = PrevNoExist \<longrightarrow> view w p = None)"
    and set_other: "node_path p \<Longrightarrow> ka_Set K p d prev dir ttl refresh w = (r, w') \<Longrightarrow> q \<noteq> p \<Longrightarrow> \<not> ancestor q p \<Longrightarrow>
      view w' q = view w q"
    and del_ok: "node_path p \<Longrightarrow> ka_Delete K p w = (Inr x, w') \<Longrightarrow> view w' p = None"
    and del_missing: "node_path p \<Longrightarrow> ka_Delete K p w = (Inl (ErrCoord NoNode), w') \<Longrightarrow> view w' p = None"
    and del_other: "node_path p \<Longrightarrow> ka_Delete K p w = (r, w') \<Longrightarrow> q \<noteq> p \<Longrightarrow> view w' q = view w q"
    and get_frame: "ka_Get K p srt w = (s, w') \<Longrightarrow> view w' = view w"
    and get_file: "node_path p \<Longrightarrow> ka_Get K p srt w = (Inr n, w') \<Longrightarrow> \<not> ndDir n \<Longrightarrow> view w p = Some (ndValue n)"
    and get_missing: "node_path p \<Longrightarrow> ka_Get K p srt w = (Inl (ErrCoord NoNode), w') \<Longrightarrow>
      view w p = None \<and> (\<forall>c. plain_comp c \<longrightarrow> view w (p @ ''/'' @ c) = None)"
    and get_dir: "node_path p \<Longrightarrow> ka_Get K p srt w = (Inr n, w') \<Longrightarrow> ndDir n \<Longrightarrow>
      (\<forall>q \<in> set (ndNodes n). node_path q \<and> child_of p q) \<and>
      (\<forall>c. plain_comp c \<longrightarrow> \<not> hidden c \<longrightarrow> view w (p @ ''/'' @ c) \<noteq> None \<longrightarrow> p @ ''/'' @ c \<in> set (ndNodes n))"
begin

text \<open>What a method of the client comes down to, for each of the two outcomes of the call it makes.\<close>

lemma delete_InrD:
  assumes "etcd_Delete K p s = (Inr x, t)"
  shows "\<exists>w'. t = (fst s, w') \<and> (\<exists>r. ka_Delete K p (snd s) = (r, w') \<and> (r = Inr () \<or> r = Inl (ErrCoord NoNode)))"
proof -
  obtain r w' where del: "ka_Delete K p (snd s) = (r, w')" by fastforce
  from assms [unfolded etcd_Delete_def] have "bindE (attempt (onW (ka_Delete K p))) (\<lambda>r.
        case r of Inl e \<Rightarrow> if isErrNoNode e then ret () else fail e | Inr _ \<Rightarrow> ret ()) s = (Inr x, t)"
    by (rule locked_InrD [THEN conjunct2])
  with del show ?thesis
    by (cases r) (auto simp: io_defs isErrNoNode_def split: if_splits)
qed

lemma delete_world: "etcd_Delete K p s = (r, t) \<Longrightarrow> t = s \<or> (\<exists>r'. ka_Delete K p (snd s) = (r', snd t))"
proof -
  obtain r' w' where del: "ka_Delete K p (snd s) = (r', w')" by fastforce
  assume "etcd_Delete K p s = (r, t)"
  from locked_cases [OF this [unfolded etcd_Delete_def]] del show ?thesis
    by (cases r') (auto simp: io_defs split: if_splits)
qed

lemma set_world:
  "locked (onW (ka_Set K p d prev dir ttl refresh)) s = (r, t) \<Longrightarrow>
     t = s \<or> ka_Set K p d prev dir ttl refresh (snd s) = (r, snd t)"
proof -
  obtain r' w' where "ka_Set K p d prev dir ttl refresh (snd s) = (r', w')" by fastforce
  moreover assume "locked (onW (ka_Set K p d prev dir ttl refresh)) s = (r, t)"
  ultimately show ?thesis using locked_cases by (fastforce simp: onW_def)
qed

lemma set_InrD:
  "locked (onW (ka_Set K p d prev dir ttl refresh)) s = (Inr x, t) \<Longrightarrow>
     ka_Set K p d prev dir ttl refresh (snd s) = (Inr x, snd t)"
  by (drule locked_InrD) (auto simp: onW_def split: prod.splits)

lemma get_world:
  assumes "locked (bindE (attempt (onW (ka_Get K p srt))) f) s = (r, t)"
    and "\<And>x u. snd (f x u) = u"
  shows "view (snd t) = view (snd s)"
proof -
  obtain r' w' where get: "ka_Get K p srt (snd s) = (r', w')" by fastforce
  from locked_cases [OF assms(1)] show ?thesis
  proof
    assume run: "bindE (attempt (onW (ka_Get K p srt))) f s = (r, t)"
    with get have "f r' (fst s, w') = (r, t)" by (simp add: io_defs)
    with assms(2) [of r' "(fst s, w')"] have "t = (fst s, w')" by simp
    with get_frame [OF get] show ?thesis by simp
  qed simp
qed

lemma read_InrD:
  assumes "etcd_Read K p must s = (Inr y, t)"
  shows "\<exists>r w'. ka_Get K p False (snd s) = (r, w') \<and>
     (case r of Inl e \<Rightarrow> e = ErrCoord NoNode \<and> y = None | Inr n \<Rightarrow> \<not> ndDir n \<and> y = Some (ndValue n))"
proof -
  obtain r w' where get: "ka_Get K p False (snd s) = (r, w')" by fastforce
  from assms [unfolded etcd_Read_def, THEN locked_InrD] get show ?thesis
    by (cases r) (auto simp: io_defs isErrNoNode_def split: if_splits)
qed

lemma list_InrD:
  assumes "etcd_List K p must s = (Inr ps, t)"
  shows "\<exists>r w'. ka_Get K p False (snd s) = (r, w') \<and>
     (case r of Inl e \<Rightarrow> e = ErrCoord NoNode \<and> ps = [] | Inr n \<Rightarrow> ndDir n \<and> ps = ndNodes n)"
proof -
  obtain r w' where get: "ka_Get K p False (snd s) = (r, w')" by fastforce
  from assms [unfolded etcd_List_def, THEN locked_InrD] get show ?thesis
    by (cases r) (auto simp: io_defs isErrNoNode_def split: if_splits)
qed

end

sublocale etcd_service \<subseteq> etcd: coord_client "etcd_Client K" "\<lambda>s. view (snd s)"
proof
  fix p q :: string and d :: data and s t :: "etcd_client \<times> 'w" and x :: unit and r :: "error + unit"
  assume p: "node_path p"
  show "view (snd s) p = None \<and> view (snd t) p = Some d" if "cl_Create (etcd_Client K) p d s = (Inr x, t)"
    using set_ok [OF p set_InrD] that by (simp add: etcd_Client_def etcd_Create_def)
  show "view (snd t) p = Some d" if "cl_Update (etcd_Client K) p d s = (Inr x, t)"
    using set_ok [OF p set_InrD] that by (simp add: etcd_Client_def etcd_Update_def)
  show "view (snd t) q = view (snd s) q" if "cl_Create (etcd_Client K) p d s = (r, t)" "q \<noteq> p" "\<not> ancestor q p"
    using set_world [of p d PrevNoExist False None False s r t] set_other [OF p _ that(2,3)] that(1)
    by (auto simp: etcd_Client_def etcd_Create_def)
  show "view (snd t) q = view (snd s) q" if "cl_Update (etcd_Client K) p d s = (r, t)" "q \<noteq> p" "\<not> ancestor q p"
    using set_world [of p d PrevIgnore False None False s r t] set_other [OF p _ that(2,3)] that(1)
    by (auto simp: etcd_Client_def etcd_Update_def)
  show "view (snd t) p = None" if "cl_Delete (etcd_Client K) p s = (Inr x, t)"
    using delete_InrD [of p s x t] del_ok [OF p] del_missing [OF p] that
    by (fastforce simp: etcd_Client_def)
  show "view (snd t) q = view (snd s) q" if "cl_Delete (etcd_Client K) p s = (r, t)" "q \<noteq> p"
    using delete_world [of p s r t] del_other [OF p _ that(2)] that(1) by (auto simp: etcd_Client_def)
next
  fix p :: string and must :: bool and s t :: "etcd_client \<times> 'w" and y :: "data option"
  assume p: "node_path p" and "cl_Read (etcd_Client K) p must s = (Inr y, t)"
  then obtain r w' where "ka_Get K p False (snd s) = (r, w')"
    and "case r of Inl e \<Rightarrow> e = ErrCoord NoNode \<and> y = None | Inr n \<Rightarrow> \<not> ndDir n \<and> y = Some (ndValue n)"
    using read_InrD [of p must s y t] by (auto simp: etcd_Client_def)
  then show "y = view (snd s) p"
    using get_missing [OF p] get_file [OF p] by (auto split: sum.splits)
next
  fix p :: string and must :: bool and s t :: "etcd_client \<times> 'w" and r :: "error + data option"
  assume "cl_Read (etcd_Client K) p must s = (r, t)"
  then show "view (snd t) = view (snd s)"
    unfolding etcd_Client_def etcd_Read_def
    by (auto elim!: get_world split: sum.split simp: ret_def fail_def)
next
  fix p :: string and must :: bool and s t :: "etcd_client \<times> 'w" and ps :: "string list"
  assume p: "node_path p" and "cl_List (etcd_Client K) p must s = (Inr ps, t)"
  then obtain r w' where "ka_Get K p False (snd s) = (r, w')"
    and "case r of Inl e \<Rightarrow> e = ErrCoord NoNode \<and> ps = [] | Inr n \<Rightarrow> ndDir n \<and> ps = ndNodes n"
    using list_InrD [of p must s ps t] by (auto simp: etcd_Client_def)
  then show "(\<forall>q \<in> set ps. node_path q \<and> child_of p q) \<and>
      (\<forall>c. plain_comp c \<longrightarrow> \<not> hidden c \<longrightarrow> view (snd s) (p @ ''/'' @ c) \<noteq> None \<longrightarrow> p @ ''/'' @ c \<in> set ps)"
    using get_missing [OF p] get_dir [OF p] by (cases r) (auto simp del: append_Cons)
next
  fix p :: string and must :: bool and s t :: "etcd_client \<times> 'w" and r :: "error + string list"
  assume "cl_List (etcd_Client K) p must s = (r, t)"
  then show "view (snd t) = view (snd s)"
    unfolding etcd_Client_def etcd_List_def
    by (auto elim!: get_world split: sum.split simp: ret_def fail_def)
qed

context etcd_service
begin

lemma refines: "coord_client (etcd_Client K) (\<lambda>s. view (snd s))"
  by (rule etcd.coord_client_axioms)

end

subsection \<open>A key store in memory\<close>

text \<open>
  Files with their values and directories made by hand; a node above another one is a
  directory as well. A file is never above another node.
\<close>

record mem =
  mFiles :: "(string \<times> data) list"
  mDirs :: "string list"

definition mem_keys :: "mem \<Rightarrow> string list" where
  "mem_keys w = map fst (mFiles w) @ mDirs w"

definition mem_is_dir :: "mem \<Rightarrow> string \<Rightarrow> bool" where
  "mem_is_dir w p \<longleftrightarrow> p \<in> set (mDirs w) \<or> list_ex (ancestor p) (mem_keys w)"

definition mem_view :: "mem \<Rightarrow> string \<Rightarrow> data option" where
  "mem_view w p = map_of (mFiles w) p"

definition mem_put :: "string \<Rightarrow> data \<Rightarrow> mem \<Rightarrow> mem" where
  "mem_put p d w = w\<lparr>mFiles := AList.update p d (mFiles w)\<rparr>"

definition mem_Set :: "string \<Rightarrow> data \<Rightarrow> prev_exist \<Rightarrow> bool \<Rightarrow> int option \<Rightarrow> bool \<Rightarrow> (mem, unit) io" where
  "mem_Set p d prev dir ttl refresh w =
     (if list_ex (\<lambda>k. ancestor k p) (map fst (mFiles w)) then (Inl (ErrCoord NotDir), w)
      else if dir then
        (if mem_is_dir w p \<or> mem_view w p \<noteq> None then (Inl (ErrCoord NodeExists), w)
         else (Inr (), w\<lparr>mDirs := p # mDirs w\<rparr>))
      else if mem_is_dir w p then (Inl (ErrCoord NotFile), w)
      else (case prev of
              PrevIgnore \<Rightarrow> (Inr (), mem_put p d w)
            | PrevNoExist \<Rightarrow> if mem_view w p \<noteq> None then (Inl (ErrCoord NodeExists), w) else (Inr (), mem_put p d w)
            | PrevExist \<Rightarrow> if mem_view w p = None then (Inl (ErrCoord NoNode), w)
                           else (Inr (), if refresh then w else mem_put p d w)))"

definition mem_Delete :: "string \<Rightarrow> (mem, unit) io" where
  "mem_Delete p w =
     (if mem_is_dir w p then (Inl (ErrCoord NotFile), w)
      else if mem_view w p = None then (Inl (ErrCoord NoNode), w)
      else (Inr (), w\<lparr>mFiles := AList.delete p (mFiles w)\<rparr>))"

text \<open>The component of \<open>k\<close> that follows the directory \<open>p\<close>.\<close>

definition mem_child :: "string \<Rightarrow> string \<Rightarrow> string" where
  "mem_child p k = hd (Split (CHR ''/'') (drop (length p + 1) k))"

definition mem_children :: "mem \<Rightarrow> string \<Rightarrow> string list" where
  "mem_children w p =
     map (\<lambda>c. p @ ''/'' @ c)
       (filter (\<lambda>c. plain_comp c \<and> \<not> hidden c) (remdups (map (mem_child p) (filter (ancestor p) (mem_keys w)))))"

definition mem_Get :: "string \<Rightarrow> bool \<Rightarrow> (mem, etcd_node) io" where
  "mem_Get p srt w =
     (case mem_view w p of
        Some d \<Rightarrow> (Inr \<lparr>ndKey = p, ndDir = False, ndValue = d, ndNodes = []\<rparr>, w)
      | None \<Rightarrow>
          if mem_is_dir w p then (Inr \<lparr>ndKey = p, ndDir = True, ndValue = Bytes [], ndNodes = mem_children w p\<rparr>, w)
          else (Inl (ErrCoord NoNode), w))"

fun mem_fresh :: "nat \<Rightarrow> string \<Rightarrow> mem \<Rightarrow> string" where
  "mem_fresh 0 p w = p @ ''/'' @ Itoa (int (length (mem_keys w)))"
| "mem_fresh (Suc n) p w =
     (let k = p @ ''/'' @ Itoa (int (length (mem_keys w) - n))
      in if k \<in> set (mem_keys w) then mem_fresh n p w else k)"

definition mem_CreateInOrder :: "string \<Rightarrow> data \<Rightarrow> int \<Rightarrow> (mem, string) io" where
  "mem_CreateInOrder p d ttl w =
     (let k = mem_fresh (length (mem_keys w)) p w
      in case mem_Set k d PrevNoExist False (Some ttl) False w of (r, w') \<Rightarrow>
           (case r of Inl e \<Rightarrow> Inl e | Inr _ \<Rightarrow> Inr k, w'))"

definition mem_kapi :: "mem kapi" where
  "mem_kapi = \<lparr>ka_Set = mem_Set, ka_Delete = mem_Delete, ka_Get = mem_Get, ka_CreateInOrder = mem_CreateInOrder\<rparr>"

lemma mem_view_put [simp]: "mem_view (mem_put p d w) = (mem_view w)(p \<mapsto> d)"
  by (rule ext) (simp add: mem_view_def mem_put_def)

lemma mem_view_dirs [simp]: "mem_view (w\<lparr>mDirs := ds\<rparr>) = mem_view w"
  by (rule ext) (simp add: mem_view_def)

lemma node_path_child: "node_path p \<Longrightarrow> plain_comp c \<Longrightarrow> node_path (p @ ''/'' @ c)"
proof -
  assume p: "node_path p" and c: "plain_comp c"
  then have "p \<noteq> []" by (simp add: node_path_def)
  then have "tl (p @ ''/'' @ c) = tl p @ CHR ''/'' # c" by (cases p) simp_all
  with p c show ?thesis
    by (auto simp: node_path_def Split_append_general Split_word plain_comp_def)
qed

lemma mem_children_child:
  "node_path p \<Longrightarrow> q \<in> set (mem_children w p) \<Longrightarrow> node_path q \<and> child_of p q"
  by (auto simp: mem_children_def child_of_iff plain_comp_def intro!: node_path_child [simplified])

lemma mem_children_all:
  assumes "plain_comp c" and "\<not> hidden c" and "mem_view w (p @ ''/'' @ c) \<noteq> None"
  shows "p @ ''/'' @ c \<in> set (mem_children w p)"
proof -
  from assms(3) have "p @ ''/'' @ c \<in> set (mem_keys w)"
    by (auto simp: mem_view_def mem_keys_def map_of_eq_None_iff)
  moreover have "ancestor p (p @ ''/'' @ c)" by (simp add: ancestor_def HasPrefix_def)
  moreover have "mem_child p (p @ ''/'' @ c) = c"
    using assms(1) by (simp add: mem_child_def Split_word plain_comp_def)
  ultimately have "c \<in> mem_child p ` set (filter (ancestor p) (mem_keys w))" by force
  with assms(1,2) show ?thesis by (simp add: mem_children_def)
qed

lemma mem_dir_of_child: "mem_view w (p @ ''/'' @ c) \<noteq> None \<Longrightarrow> mem_is_dir w p"
proof -
  assume "mem_view w (p @ ''/'' @ c) \<noteq> None"
  then have "p @ ''/'' @ c \<in> set (mem_keys w)" by (auto simp: mem_view_def mem_keys_def map_of_eq_None_iff)
  moreover have "ancestor p (p @ ''/'' @ c)" by (simp add: ancestor_def HasPrefix_def)
  ultimately show ?thesis by (auto simp: mem_is_dir_def list_ex_iff)
qed

lemma mem_not_dir: "\<not> mem_is_dir w p \<Longrightarrow> mem_view w (p @ CHR ''/'' # c) = None"
  using mem_dir_of_child [of w p c] by (cases "mem_view w (p @ CHR ''/'' # c)") auto

interpretation mem: etcd_service mem_kapi mem_view
proof
  fix p q :: string and d :: data and prev dir ttl refresh and w w' :: mem and x :: unit and r :: "error + unit"
  show "mem_view w' p = Some d \<and> (prev = PrevNoExist \<longrightarrow> mem_view w p = None)"
    if "ka_Set mem_kapi p d prev False ttl False w = (Inr x, w')"
    using that by (auto simp: mem_kapi_def mem_Set_def split: if_splits prev_exist.splits)
  show "mem_view w' q = mem_view w q"
    if "ka_Set mem_kapi p d prev dir ttl refresh w = (r, w')" "q \<noteq> p"
    using that by (auto simp: mem_kapi_def mem_Set_def split: if_splits prev_exist.splits)
  show "mem_view w' p = None" if "ka_Delete mem_kapi p w = (Inr x, w')"
    using that by (auto simp: mem_kapi_def mem_Delete_def mem_view_def split: if_splits)
  show "mem_view w' p = None" if "ka_Delete mem_kapi p w = (Inl (ErrCoord NoNode), w')"
    using that by (auto simp: mem_kapi_def mem_Delete_def split: if_splits)
  show "mem_view w' q = mem_view w q" if "ka_Delete mem_kapi p w = (r, w')" "q \<noteq> p"
    using that by (auto simp: mem_kapi_def mem_Delete_def mem_view_def split: if_splits)
next
  fix p :: string and srt and w w' :: mem and s :: "error + etcd_node" and n :: etcd_node
  show "mem_view w' = mem_view w" if "ka_Get mem_kapi p srt w = (s, w')"
    using that by (auto simp: mem_kapi_def mem_Get_def split: option.splits if_splits)
  show "mem_view w p = Some (ndValue n)" if "ka_Get mem_kapi p srt w = (Inr n, w')" "\<not> ndDir n"
    using that by (auto simp: mem_kapi_def mem_Get_def split: option.splits if_splits)
  show "mem_view w p = None \<and> (\<forall>c. plain_comp c \<longrightarrow> mem_view w (p @ ''/'' @ c) = None)"
    if "ka_Get mem_kapi p srt w = (Inl (ErrCoord NoNode), w')"
    using that by (auto simp: mem_kapi_def mem_Get_def mem_not_dir split: option.splits if_splits)
  show "(\<forall>q \<in> set (ndNodes n). node_path q \<and> child_of p q) \<and>
      (\<forall>c. plain_comp c \<longrightarrow> \<not> hidden c \<longrightarrow> mem_view w (p @ ''/'' @ c) \<noteq> None \<longrightarrow> p @ ''/'' @ c \<in> set (ndNodes n))"
    if "node_path p" "ka_Get mem_kapi p srt w = (Inr n, w')" "ndDir n"
    using that mem_children_child [OF that(1)] mem_children_all [of _ w p]
    by (auto simp: mem_kapi_def mem_Get_def split: option.splits if_splits)
qed

end
