(* ===== verification/Config.thy ===== *)
theory Config
  imports GoLib
begin

section \<open>Configuration of the dashboard and of the front end (package config)\<close>

text \<open>
  The two configuration records with their \<open>Validate\<close> methods, in the order of the checks.
  Reading TOML is left out; the defaults are the values of the built-in texts. Durations are
  nanoseconds. \<open>validateProduct\<close> is the regular expression
  \<open>^\w[\w\.\-]*$\<close>: \<open>\w\<close> is an ASCII letter, digit or underscore.
\<close>

record dashboard_config =
  CoordinatorName :: string
  CoordinatorAddr :: string
  CoordinatorAuth :: string
  AdminAddr :: string
  ProductName :: string
  ProductAuth :: string
  SentinelClientTimeout :: int
  SentinelQuorum :: int
  SentinelParallelSyncs :: int
  SentinelDownAfter :: int
  SentinelFailoverTimeout :: int
  SentinelNotificationScript :: string
  SentinelClientReconfigScript :: string
  TemplateFileScanDir :: string
  TemplateFileScanInterval :: int
  LogPrintScreen :: bool
  LogFilePath :: string
  LogMaxSize :: int
  LogReserveDays :: int
  LogLevel :: string

definition DefaultDashboardConfig :: dashboard_config where
  "DefaultDashboardConfig =
     \<lparr>CoordinatorName = ''zookeeper'', CoordinatorAddr = ''127.0.0.1:2181'', CoordinatorAuth = [],
      AdminAddr = ''0.0.0.0:18080'', ProductName = ''codis-demo'', ProductAuth = [],
      SentinelClientTimeout = 10000000000, SentinelQuorum = 2, SentinelParallelSyncs = 1,
      SentinelDownAfter = 30000000000, SentinelFailoverTimeout = 300000000000,
      SentinelNotificationScript = [], SentinelClientReconfigScript = [],
      TemplateFileScanDir = ''/tmp/template'', TemplateFileScanInterval = 30000000000,
      LogPrintScreen = False, LogFilePath = [], LogMaxSize = 100, LogReserveDays = 7,
      LogLevel = ''info''\<rparr>"

definition is_word_char :: "char \<Rightarrow> bool" where
  "is_word_char c \<longleftrightarrow>
     (CHR ''a'' \<le> c \<and> c \<le> CHR ''z'') \<or> (CHR ''A'' \<le> c \<and> c \<le> CHR ''Z'') \<or>
     (CHR ''0'' \<le> c \<and> c \<le> CHR ''9'') \<or> c = CHR ''_''"

definition validateProduct :: "string \<Rightarrow> bool" where
  "validateProduct name =
     (case name of
        [] \<Rightarrow> False
      | c # cs \<Rightarrow> is_word_char c \<and> list_all (\<lambda>d. is_word_char d \<or> d = CHR ''.'' \<or> d = CHR ''-'') cs)"

definition Validate :: "dashboard_config \<Rightarrow> error + unit" where
  "Validate c =
     (if CoordinatorName c = [] then Inl (ErrInvalidConfig ''coordinator_name'')
      else if CoordinatorAddr c = [] then Inl (ErrInvalidConfig ''coordinator_addr'')
      else if AdminAddr c = [] then Inl (ErrInvalidConfig ''admin_addr'')
      else if ProductName c = [] \<or> \<not> validateProduct (ProductName c) then Inl (ErrInvalidConfig ''product_name'')
      else if SentinelClientTimeout c \<le> 0 then Inl (ErrInvalidConfig ''sentinel_client_timeout'')
      else if SentinelQuorum c \<le> 0 then Inl (ErrInvalidConfig ''sentinel_quorum'')
      else if SentinelParallelSyncs c \<le> 0 then Inl (ErrInvalidConfig ''sentinel_parallel_syncs'')
      else if SentinelDownAfter c \<le> 0 then Inl (ErrInvalidConfig ''sentinel_down_after'')
      else if SentinelFailoverTimeout c \<le> 0 then Inl (ErrInvalidConfig ''sentinel_failover_timeout'')
      else if TemplateFileScanDir c = [] then Inl (ErrInvalidConfig ''template_file_scan_dir'')
      else if TemplateFileScanInterval c \<le> 0 then Inl (ErrInvalidConfig ''template_file_scan_interval'')
      else Inr ())"

record fe_config =
  feCoordinatorName :: string
  feCoordinatorAddr :: string
  feCoordinatorAuth :: string
  feListenAddr :: string
  feAssetsDir :: string
  feLogPrintScreen :: bool
  feLogFilePath :: string
  feLogMaxSize :: int
  feLogReserveDays :: int
  feLogLevel :: string

definition FE_Validate :: "fe_config \<Rightarrow> error + unit" where
  "FE_Validate c =
     (if feCoordinatorName c = [] then Inl (ErrInvalidConfig ''coordinator_name'')
      else if feCoordinatorAddr c = [] then Inl (ErrInvalidConfig ''coordinator_addr'')
      else if feListenAddr c = [] then Inl (ErrInvalidConfig ''listen_addr'')
      else if feAssetsDir c = [] then Inl (ErrInvalidConfig ''assets_dir'')
      else Inr ())"

lemma word_char_not: "is_word_char c \<Longrightarrow> c \<noteq> CHR ''.'' \<and> c \<noteq> CHR ''/''"
  by (auto simp: is_word_char_def less_eq_char_def)

text \<open>A product name that passes the check is one component of a path.\<close>

lemma validateProduct_plain: "validateProduct name \<Longrightarrow> plain_comp name"
  by (auto simp: validateProduct_def plain_comp_def list_all_iff split: list.splits dest: word_char_not)

lemma Validate_product: "Validate c = Inr () \<Longrightarrow> plain_comp (ProductName c)"
  by (auto simp: Validate_def validateProduct_plain split: if_splits)

lemma Validate_default: "Validate DefaultDashboardConfig = Inr ()"
  by code_simp

subsection \<open>Reading a configuration\<close>

text \<open>
  \<open>decode\<close> is \<open>toml.DecodeFile\<close>: it changes the fields the file names, also when it fails later on.
  The constructors of the defaults panic (\<open>None\<close>) when the default is not valid.
\<close>

definition NewDashboardDefaultConfig :: "dashboard_config option" where
  "NewDashboardDefaultConfig =
     (case Validate DefaultDashboardConfig of Inl _ \<Rightarrow> None | Inr _ \<Rightarrow> Some DefaultDashboardConfig)"

definition LoadFromFile :: "(string \<Rightarrow> dashboard_config \<Rightarrow> (error + unit) \<times> dashboard_config) \<Rightarrow> string
    \<Rightarrow> dashboard_config \<Rightarrow> (error + unit) \<times> dashboard_config" where
  "LoadFromFile decode path c =
     (case decode path c of (Inl e, c') \<Rightarrow> (Inl e, c') | (Inr _, c') \<Rightarrow> (Validate c', c'))"

definition loadConfig :: "(string \<Rightarrow> dashboard_config \<Rightarrow> (error + unit) \<times> dashboard_config) \<Rightarrow> string
    \<Rightarrow> (error + dashboard_config) option" where
  "loadConfig decode path =
     (case NewDashboardDefaultConfig of
        None \<Rightarrow> None
      | Some c \<Rightarrow> Some (case LoadFromFile decode path c of (Inl e, _) \<Rightarrow> Inl e | (Inr _, c') \<Rightarrow> Inr c'))"

definition DefaultFEConfig :: fe_config where
  "DefaultFEConfig =
     \<lparr>feCoordinatorName = ''zookeeper'', feCoordinatorAddr = ''127.0.0.1:2181'', feCoordinatorAuth = [],
      feListenAddr = ''0.0.0.0:8080'', feAssetsDir = [], feLogPrintScreen = False, feLogFilePath = [],
      feLogMaxSize = 100, feLogReserveDays = 7, feLogLevel = ''info''\<rparr>"

text \<open>\<open>binpath\<close> is the absolute directory of the running binary.\<close>

definition NewFEDefaultConfig :: "error + string \<Rightarrow> fe_config option" where
  "NewFEDefaultConfig binpath =
     (let c = DefaultFEConfig in
      case (if feAssetsDir c = []
            then (case binpath of Inl _ \<Rightarrow> None | Inr b \<Rightarrow> Some (c\<lparr>feAssetsDir := path_Join [b, ''assets'']\<rparr>))
            else Some c) of
        None \<Rightarrow> None
      | Some c' \<Rightarrow> (case FE_Validate c' of Inl _ \<Rightarrow> None | Inr _ \<Rightarrow> Some c'))"

definition FE_LoadFromFile :: "(string \<Rightarrow> fe_config \<Rightarrow> (error + unit) \<times> fe_config) \<Rightarrow> string
    \<Rightarrow> fe_config \<Rightarrow> (error + unit) \<times> fe_config" where
  "FE_LoadFromFile decode path c =
     (case decode path c of (Inl e, c') \<Rightarrow> (Inl e, c') | (Inr _, c') \<Rightarrow> (FE_Validate c', c'))"

definition FE_loadConfig :: "error + string \<Rightarrow> (string \<Rightarrow> fe_config \<Rightarrow> (error + unit) \<times> fe_config) \<Rightarrow> string
    \<Rightarrow> (error + fe_config) option" where
  "FE_loadConfig binpath decode path =
     (case NewFEDefaultConfig binpath of
        None \<Rightarrow> None
      | Some c \<Rightarrow> Some (case FE_LoadFromFile decode path c of (Inl e, _) \<Rightarrow> Inl e | (Inr _, c') \<Rightarrow> Inr c'))"

lemma loadConfig_valid:
  "loadConfig decode path = Some (Inr c) \<Longrightarrow> Validate c = Inr ()"
  by (auto simp: loadConfig_def LoadFromFile_def split: option.splits prod.splits sum.splits)

lemma loadConfig_no_panic: "loadConfig decode path \<noteq> None"
  by (simp add: loadConfig_def NewDashboardDefaultConfig_def Validate_default)

lemma FE_no_panic: "FE_loadConfig (Inr b) decode path \<noteq> None"
proof -
  have "path_Join [b, ''assets''] \<noteq> []" by (simp add: path_Join_def path_Clean_def Let_def)
  then show ?thesis by (simp add: FE_loadConfig_def NewFEDefaultConfig_def DefaultFEConfig_def FE_Validate_def)
qed

end
