(* ===== verification/Mappers.thy ===== *)
theory Mappers
  imports Coordinate
begin

section \<open>The mappers: a cache in front of the coordinator (topom/dao/mapper)\<close>

text \<open>
  A mapper keeps the decoded objects in memory and writes every change through to the
  coordinator. Its state is a pair: the mapper's own fields and the outside world.
  \<^item> \<open>Info\<close> hands out the live map, so a caller that assigns to a field of an object it
    got from the map changes the cache at once, before any \<open>Update\<close>. The service
    theories model such an assignment as a write to the cache, and \<open>Update\<close> as the
    write to the coordinator that may fail afterwards.
  \<^item> \<open>gslbMapper.Update\<close> compares the new object with the cached one and does nothing
    when they are deeply equal.
\<close>

definition bytes_of :: "data option \<Rightarrow> data" where
  "bytes_of d = (case d of None \<Rightarrow> Bytes [] | Some x \<Rightarrow> x)"

subsection \<open>Groups\<close>

record group_mapper =
  gmProduct :: string
  gmGroups :: groups

fun groupMapper_load :: "'w client \<Rightarrow> string list \<Rightarrow> groups \<Rightarrow> ('w, groups) io" where
  "groupMapper_load C [] gs = ret gs"
| "groupMapper_load C (path # paths) gs =
     bindE (cl_Read C path True) (\<lambda>d.
     bindE (liftSum (Group_Decode (bytes_of d))) (\<lambda>g.
     groupMapper_load C paths (AList.update (gName g) g gs)))"

definition NewGroupMapper :: "string \<Rightarrow> 'w client \<Rightarrow> ('w, group_mapper) io" where
  "NewGroupMapper product C =
     bindE (cl_List C (GroupDir product) False) (\<lambda>paths.
     bindE (groupMapper_load C paths []) (\<lambda>groups.
     ret \<lparr>gmProduct = product, gmGroups = groups\<rparr>))"

definition groupMapper_put :: "group \<Rightarrow> group_mapper \<times> 'w \<Rightarrow> group_mapper \<times> 'w" where
  "groupMapper_put g s = ((fst s)\<lparr>gmGroups := AList.update (gName g) g (gmGroups (fst s))\<rparr>, snd s)"

definition groupMapper_Create :: "'w client \<Rightarrow> group \<Rightarrow> (group_mapper \<times> 'w, unit) io" where
  "groupMapper_Create C g =
     bindE (gets (\<lambda>s. gmProduct (fst s))) (\<lambda>product.
     bindE (mapErr (ErrMapper ''groupMapper::CreateGroup'' (gName g))
              (onW (cl_Update C (GroupPath product (gName g)) (Group_Encode g)))) (\<lambda>_.
     modifyE (groupMapper_put g)))"

definition groupMapper_Update :: "'w client \<Rightarrow> group \<Rightarrow> (group_mapper \<times> 'w, unit) io" where
  "groupMapper_Update C g =
     bindE (gets (\<lambda>s. gmProduct (fst s))) (\<lambda>product.
     bindE (mapErr (ErrMapper ''groupMapper::UpdateGroup'' (gName g))
              (onW (cl_Update C (GroupPath product (gName g)) (Group_Encode g)))) (\<lambda>_.
     modifyE (groupMapper_put g)))"

definition groupMapper_Remove :: "'w client \<Rightarrow> group \<Rightarrow> (group_mapper \<times> 'w, unit) io" where
  "groupMapper_Remove C g =
     bindE (gets (\<lambda>s. gmProduct (fst s))) (\<lambda>product.
     bindE (mapErr (ErrMapper ''groupMapper::RemoveGroup'' (gName g))
              (onW (cl_Delete C (GroupPath product (gName g))))) (\<lambda>_.
     modifyE (\<lambda>s. ((fst s)\<lparr>gmGroups := AList.delete (gName g) (gmGroups (fst s))\<rparr>, snd s))))"

definition groupMapper_Info :: "(group_mapper \<times> 'w, groups) io" where
  "groupMapper_Info = gets (\<lambda>s. gmGroups (fst s))"

subsection \<open>Sentinels\<close>

record sentinel_mapper =
  smProduct :: string
  smSentinel :: sentinel

definition NewSentinelMapper :: "string \<Rightarrow> 'w client \<Rightarrow> ('w, sentinel_mapper) io" where
  "NewSentinelMapper product C =
     bindE (cl_Read C (SentinelPath product) False) (\<lambda>d.
     case d of
       None \<Rightarrow> ret \<lparr>smProduct = product, smSentinel = zero_sentinel\<rparr>
     | Some data \<Rightarrow>
         bindE (liftSum (Sentinel_Decode data)) (\<lambda>sentinel.
         ret \<lparr>smProduct = product, smSentinel = sentinel\<rparr>))"

definition sentinelMapper_Update :: "'w client \<Rightarrow> sentinel \<Rightarrow> (sentinel_mapper \<times> 'w, unit) io" where
  "sentinelMapper_Update C sentinel =
     bindE (gets (\<lambda>s. smProduct (fst s))) (\<lambda>product.
     bindE (mapErr (ErrMapper ''sentinelMapper::UpdateSentinel'' [])
              (onW (cl_Update C (SentinelPath product) (Sentinel_Encode sentinel)))) (\<lambda>_.
     modifyE (\<lambda>s. ((fst s)\<lparr>smSentinel := sentinel\<rparr>, snd s))))"

definition sentinelMapper_Info :: "(sentinel_mapper \<times> 'w, sentinel) io" where
  "sentinelMapper_Info = gets (\<lambda>s. smSentinel (fst s))"

subsection \<open>GSLBs\<close>

record gslb_mapper =
  bmProduct :: string
  bmGslbs :: gslbs

fun gslbMapper_loadProducts :: "'w client \<Rightarrow> string \<Rightarrow> string list \<Rightarrow> gslbs \<Rightarrow> ('w, gslbs) io" where
  "gslbMapper_loadProducts C product [] gs = ret gs"
| "gslbMapper_loadProducts C product (pPath # pPaths) gs =
     (if path_Base pPath \<noteq> product then gslbMapper_loadProducts C product pPaths gs
      else
        bindE (cl_Read C pPath True) (\<lambda>d.
        bindE (liftSum (GSLB_Decode (bytes_of d))) (\<lambda>g.
        gslbMapper_loadProducts C product pPaths
          (if glServers g = [] then gs else AList.update (glName g) g gs))))"

fun gslbMapper_load :: "'w client \<Rightarrow> string \<Rightarrow> string list \<Rightarrow> gslbs \<Rightarrow> ('w, gslbs) io" where
  "gslbMapper_load C product [] gs = ret gs"
| "gslbMapper_load C product (path # paths) gs =
     bindE (cl_List C path False) (\<lambda>productPaths.
     bindE (gslbMapper_loadProducts C product productPaths gs) (\<lambda>gs'.
     gslbMapper_load C product paths gs'))"

definition NewGSLBMapper :: "string \<Rightarrow> 'w client \<Rightarrow> ('w, gslb_mapper) io" where
  "NewGSLBMapper product C =
     bindE (cl_List C GSLBDir False) (\<lambda>paths.
     bindE (gslbMapper_load C product paths []) (\<lambda>gslbs.
     ret \<lparr>bmProduct = product, bmGslbs = gslbs\<rparr>))"

definition gslbMapper_Update :: "'w client \<Rightarrow> gslb \<Rightarrow> (gslb_mapper \<times> 'w, unit) io" where
  "gslbMapper_Update C g =
     bindE (gets (\<lambda>s. (bmProduct (fst s), map_of (bmGslbs (fst s)) (glName g)))) (\<lambda>(product, old).
     if (case old of Some o' \<Rightarrow> DeepEqual_GSLB o' g | None \<Rightarrow> False) then ret ()
     else
       bindE (mapErr (ErrMapper ''gslbMapper::Update'' (glName g))
                (onW (cl_Update C (GSLBPath (glName g) product) (GSLB_Encode g)))) (\<lambda>_.
       modifyE (\<lambda>s. ((fst s)\<lparr>bmGslbs := AList.update (glName g) g (bmGslbs (fst s))\<rparr>, snd s))))"

definition gslbMapper_Delete :: "'w client \<Rightarrow> gslb \<Rightarrow> (gslb_mapper \<times> 'w, unit) io" where
  "gslbMapper_Delete C g =
     bindE (gets (\<lambda>s. bmProduct (fst s))) (\<lambda>product.
     bindE (mapErr (ErrMapper ''gslbMapper::Delete'' [])
              (onW (cl_Delete C (GSLBPath (glName g) product)))) (\<lambda>_.
     modifyE (\<lambda>s. ((fst s)\<lparr>bmGslbs := AList.delete (glName g) (bmGslbs (fst s))\<rparr>, snd s))))"

definition gslbMapper_Info :: "(gslb_mapper \<times> 'w, gslbs) io" where
  "gslbMapper_Info = gets (\<lambda>s. bmGslbs (fst s))"

subsection \<open>The dashboard's node\<close>

record topom_mapper =
  tmProduct :: string
  tmTopom :: topom

text \<open>
  \<open>start\<close>, \<open>pid\<close>, \<open>pwd\<close> and \<open>uname\<close> are what the clock, the process table,
  the working directory and the command \<open>uname -a\<close> give; \<open>uname\<close> is \<open>None\<close> when the
  command fails.
\<close>

definition NewTopomMapper :: "string \<Rightarrow> string \<Rightarrow> string \<Rightarrow> int \<Rightarrow> string \<Rightarrow> string option \<Rightarrow> topom_mapper" where
  "NewTopomMapper product adminAddr start pid pwd uname =
     \<lparr>tmProduct = product,
      tmTopom = \<lparr>tpStartTime = start, tpAdminAddr = adminAddr, tpProductName = product,
        tpPid = pid, tpPwd = pwd,
        tpSys = (case uname of None \<Rightarrow> [] | Some b \<Rightarrow> TrimSpace b)\<rparr>\<rparr>"

definition topomMapper_Create :: "'w client \<Rightarrow> (topom_mapper \<times> 'w, unit) io" where
  "topomMapper_Create C =
     bindE (gets fst) (\<lambda>m.
     mapErr (ErrMapper ''topomMapper::Create'' [])
       (onW (cl_Create C (TopomPath (tmProduct m)) (Topom_Encode (tmTopom m)))))"

definition topomMapper_Delete :: "'w client \<Rightarrow> (topom_mapper \<times> 'w, unit) io" where
  "topomMapper_Delete C =
     bindE (gets fst) (\<lambda>m.
     mapErr (ErrMapper ''topomMapper::Delete'' [])
       (onW (cl_Delete C (TopomPath (tmProduct m)))))"

definition topomMapper_Info :: "(topom_mapper \<times> 'w, topom) io" where
  "topomMapper_Info = gets (\<lambda>s. tmTopom (fst s))"

subsection \<open>The group cache and the coordinator agree\<close>

text \<open>
  \<open>gm_ok\<close>: every group is kept under its own name, once, and the name is a path component.
  \<open>gm_stored\<close>: under the product's group directory the coordinator holds exactly the
  encodings of the cached groups.
\<close>

definition named :: "(string \<times> group) \<Rightarrow> bool" where
  "named e \<longleftrightarrow> gName (snd e) = fst e \<and> CHR ''/'' \<notin> set (fst e)"

definition gm_ok :: "group_mapper \<Rightarrow> bool" where
  "gm_ok m \<longleftrightarrow> plain_comp (gmProduct m) \<and> distinct (map fst (gmGroups m)) \<and> list_all named (gmGroups m)"

definition gm_stored :: "('w \<Rightarrow> string \<Rightarrow> data option) \<Rightarrow> group_mapper \<Rightarrow> 'w \<Rightarrow> bool" where
  "gm_stored view m w \<longleftrightarrow>
     (\<forall>n. CHR ''/'' \<notin> set n \<longrightarrow>
        view w (GroupPath (gmProduct m) n) = map_option Group_Encode (map_of (gmGroups m) n)) \<and>
     (\<forall>p. child_of (GroupDir (gmProduct m)) p \<longrightarrow> view w p \<noteq> None \<longrightarrow>
        (\<exists>n. CHR ''/'' \<notin> set n \<and> p = GroupPath (gmProduct m) n))"

lemma child_of_GroupDir:
  "plain_comp p \<Longrightarrow> CHR ''/'' \<notin> set n \<Longrightarrow> child_of (GroupDir p) (GroupPath p n)"
  using child_ofI [of "''group-'' @ n" "GroupDir p"] by (simp add: GroupDir_plain GroupPath_plain)

lemma ancestor_GroupPath:
  "plain_comp p \<Longrightarrow> CHR ''/'' \<notin> set n \<Longrightarrow> child_of (GroupDir p) q \<Longrightarrow> \<not> ancestor q (GroupPath p n)"
proof
  assume p: "plain_comp p" and n: "CHR ''/'' \<notin> set n" and q: "child_of (GroupDir p) q"
    and anc: "ancestor q (GroupPath p n)"
  from q obtain c where q': "q = GroupDir p @ ''/'' @ c" by (auto simp: child_of_iff)
  from anc obtain r where "GroupPath p n = q @ ''/'' @ r"
    by (auto simp: ancestor_def HasPrefix_iff)
  with p n q' have "''group-'' @ n = c @ ''/'' @ r"
    by (simp add: GroupDir_plain GroupPath_plain)
  then have "CHR ''/'' \<in> set (''group-'' @ n)" by (metis in_set_conv_decomp append_Cons append_Nil)
  with n show False by simp
qed

lemma named_map_of:
  "gm_ok m \<Longrightarrow> map_of (gmGroups m) n = Some g \<Longrightarrow>
     gName g = n \<and> CHR ''/'' \<notin> set n"
  by (auto simp: gm_ok_def named_def list_all_iff dest!: map_of_SomeD)

lemma gm_ok_put:
  assumes "gm_ok m" and "CHR ''/'' \<notin> set (gName g)"
  shows "gm_ok (fst (groupMapper_put g (m, w)))"
  using assms by (simp add: gm_ok_def groupMapper_put_def list_all_update named_def)

context coord_client
begin

lemma groupMapper_load_stored:
  assumes "gm_ok m" and "list_all (group_ints \<circ> snd) (gmGroups m)" and "gm_stored view m w"
    and "\<forall>p \<in> set paths. node_path p \<and> child_of (GroupDir (gmProduct m)) p"
    and "groupMapper_load C paths gs w = (Inr gs', w')"
  shows "map_of gs' n =
    (if CHR ''/'' \<notin> set n \<and> GroupPath (gmProduct m) n \<in> set paths then map_of (gmGroups m) n else map_of gs n)"
  using assms(3-)
proof (induction paths arbitrary: gs w)
  case Nil
  then show ?case by (simp add: ret_def)
next
  case (Cons p paths)
  from Cons.prems(3) obtain d u where rd: "cl_Read C p True w = (Inr d, u)"
    and rest: "bindE (liftSum (Group_Decode (bytes_of d))) (\<lambda>g.
      groupMapper_load C paths (AList.update (gName g) g gs)) u = (Inr gs', w')"
    by (auto elim: bindE_InrD)
  from rest obtain g where dec: "Group_Decode (bytes_of d) = Inr g"
    and load: "groupMapper_load C paths (AList.update (gName g) g gs) u = (Inr gs', w')"
    by (auto simp: liftSum_def elim: bindE_InrD)
  from Cons.prems(2) read_ok [OF _ rd] read_frame [OF rd] have d: "d = view w p" and u: "view u = view w" by auto
  from dec have "d \<noteq> None" by (auto simp: bytes_of_def Group_Decode_def jsonDecode_def split: option.splits)
  with d Cons.prems(1,2) obtain k where k: "CHR ''/'' \<notin> set k" "p = GroupPath (gmProduct m) k"
    by (auto simp: gm_stored_def)
  with d Cons.prems(1) \<open>d \<noteq> None\<close> obtain h where h: "map_of (gmGroups m) k = Some h" "d = Some (Group_Encode h)"
    by (auto simp: gm_stored_def)
  have "Group_Decode (Group_Encode h) = Inr h"
    using assms(2) h(1) by (auto simp: list_all_iff intro!: Group_Decode_Encode dest!: map_of_SomeD)
  with h named_map_of [OF assms(1) h(1)] dec have g: "g = h" "gName g = k" by (auto simp: bytes_of_def)
  have "gm_stored view m u" using Cons.prems(1) u by (simp add: gm_stored_def)
  with Cons.IH load Cons.prems(2) have "map_of gs' n =
    (if CHR ''/'' \<notin> set n \<and> GroupPath (gmProduct m) n \<in> set paths then map_of (gmGroups m) n
     else map_of (AList.update (gName g) g gs) n)" by simp
  with g h k assms(1) show ?case by (auto simp: GroupPath_inj gm_ok_def)
qed

lemma NewGroupMapper_stored:
  assumes "gm_ok m" and "list_all (group_ints \<circ> snd) (gmGroups m)" and "gm_stored view m w"
    and "NewGroupMapper (gmProduct m) C w = (Inr m', w')"
  shows "gmProduct m' = gmProduct m \<and> map_of (gmGroups m') = map_of (gmGroups m)"
proof -
  from assms(4) obtain ps u where ls: "cl_List C (GroupDir (gmProduct m)) False w = (Inr ps, u)"
    and rest: "bindE (groupMapper_load C ps []) (\<lambda>groups.
      ret \<lparr>gmProduct = gmProduct m, gmGroups = groups\<rparr>) u = (Inr m', w')"
    unfolding NewGroupMapper_def by (auto elim: bindE_InrD)
  from rest obtain gs v where load: "groupMapper_load C ps [] u = (Inr gs, v)"
    and m': "m' = \<lparr>gmProduct = gmProduct m, gmGroups = gs\<rparr>"
    by (auto simp: ret_def elim: bindE_InrD)
  have plain: "plain_comp (gmProduct m)" using assms(1) by (simp add: gm_ok_def)
  from list_ok [OF GroupDir_node [OF plain] ls]
  have ps: "\<forall>q \<in> set ps. node_path q \<and> child_of (GroupDir (gmProduct m)) q"
    "\<And>c. plain_comp c \<Longrightarrow> \<not> hidden c \<Longrightarrow> view w (GroupDir (gmProduct m) @ ''/'' @ c) \<noteq> None \<Longrightarrow>
      GroupDir (gmProduct m) @ ''/'' @ c \<in> set ps" by auto
  from list_frame [OF ls] assms(3) have st: "gm_stored view m u" by (simp add: gm_stored_def)
  have "map_of gs n = map_of (gmGroups m) n" for n
  proof (cases "map_of (gmGroups m) n")
    case None
    with groupMapper_load_stored [OF assms(1,2) st ps(1) load, of n] show ?thesis by simp
  next
    case (Some g)
    with named_map_of [OF assms(1) Some] have n: "CHR ''/'' \<notin> set n" by simp
    have "GroupPath (gmProduct m) n = GroupDir (gmProduct m) @ ''/'' @ ''group-'' @ n"
      using n plain by (simp add: GroupPath_plain GroupDir_plain)
    moreover have "view w (GroupPath (gmProduct m) n) \<noteq> None" using assms(3) Some n by (simp add: gm_stored_def)
    ultimately have "GroupPath (gmProduct m) n \<in> set ps"
      using ps(2) [OF plain_group [OF n]] by (simp add: hidden_def)
    with groupMapper_load_stored [OF assms(1,2) st ps(1) load, of n] n show ?thesis by simp
  qed
  with m' show ?thesis by auto
qed

end

end
