(* ===== verification/RedisClient.thy ===== *)
theory RedisClient
  imports GoLib "HOL-Library.Word"
begin

section \<open>The redis client, its pool and the info cache (topom/client/redis/client.go)\<close>

text \<open>
  The connection library redigo and the redis servers behind it are the parameter
  \<open>redigo\<close>: one function per call the client makes, over a world \<open>'w\<close>. A \<open>Client\<close>
  is a record; its methods work on the pair of the record and the world. Replies are the
  dynamic types redigo returns, and the conversions \<open>redigo_String\<close>, \<open>redigo_Values\<close>,
  \<open>redigo_Int\<close>, \<open>redigo_Ints\<close>, \<open>redigo_StringMap\<close> are the library's documented ones.
  Times and durations are nanoseconds.
\<close>

subsection \<open>Replies and connections\<close>

datatype reply = RNil | RInt int | RBulk string | RStatus string | RError string | RArr "reply list"

definition redigo_String :: "reply \<Rightarrow> error + string" where
  "redigo_String r =
     (case r of RBulk s \<Rightarrow> Inr s | RStatus s \<Rightarrow> Inr s | RError e \<Rightarrow> Inl (ErrExt e)
      | _ \<Rightarrow> Inl (ErrExt ''redigo: unexpected type for String''))"

definition redigo_Values :: "reply \<Rightarrow> error + reply list" where
  "redigo_Values r =
     (case r of RArr rs \<Rightarrow> Inr rs | RError e \<Rightarrow> Inl (ErrExt e)
      | _ \<Rightarrow> Inl (ErrExt ''redigo: unexpected type for Values''))"

definition redigo_Int :: "reply \<Rightarrow> error + int" where
  "redigo_Int r =
     (case r of
        RInt i \<Rightarrow> Inr i
      | RBulk s \<Rightarrow> (case Atoi s of Some i \<Rightarrow> Inr i | None \<Rightarrow> Inl (ErrExt ''strconv.ParseInt''))
      | RError e \<Rightarrow> Inl (ErrExt e)
      | _ \<Rightarrow> Inl (ErrExt ''redigo: unexpected type for Int''))"

text \<open>\<open>Ints\<close> turns a nil element into 0.\<close>

fun redigo_scan_ints :: "reply list \<Rightarrow> error + int list" where
  "redigo_scan_ints [] = Inr []"
| "redigo_scan_ints (r # rs) =
     (case (if r = RNil then Inr 0 else redigo_Int r) of
        Inl e \<Rightarrow> Inl e
      | Inr i \<Rightarrow> (case redigo_scan_ints rs of Inl e \<Rightarrow> Inl e | Inr is \<Rightarrow> Inr (i # is)))"

definition redigo_Ints :: "reply \<Rightarrow> error + int list" where
  "redigo_Ints r = (case redigo_Values r of Inl e \<Rightarrow> Inl e | Inr rs \<Rightarrow> redigo_scan_ints rs)"

fun redigo_pairs :: "reply list \<Rightarrow> (string \<times> string) list \<Rightarrow> error + (string \<times> string) list" where
  "redigo_pairs [] m = Inr m"
| "redigo_pairs (RBulk k # RBulk v # rs) m = redigo_pairs rs (AList.update k v m)"
| "redigo_pairs _ m = Inl (ErrExt ''redigo: ScanMap key not a bulk string value'')"

definition redigo_StringMap :: "reply \<Rightarrow> error + (string \<times> string) list" where
  "redigo_StringMap r =
     (case redigo_Values r of
        Inl e \<Rightarrow> Inl e
      | Inr rs \<Rightarrow>
          if odd (length rs) then Inl (ErrExt ''redigo: StringMap expects even number of values result'')
          else redigo_pairs rs [])"

record 'w redigo =
  rd_Dial :: "string \<Rightarrow> string \<Rightarrow> int \<Rightarrow> int \<Rightarrow> ('w, nat) io"
  rd_Do :: "nat \<Rightarrow> string \<Rightarrow> string list \<Rightarrow> ('w, reply) io"
  rd_Send :: "nat \<Rightarrow> string \<Rightarrow> string list \<Rightarrow> ('w, unit) io"
  rd_Flush :: "nat \<Rightarrow> ('w, unit) io"
  rd_Receive :: "nat \<Rightarrow> ('w, reply) io"
  rd_Close :: "nat \<Rightarrow> ('w, unit) io"
  rd_Err :: "nat \<Rightarrow> 'w \<Rightarrow> bool"
  rd_Now :: "'w \<Rightarrow> int"

definition time_Second :: int where "time_Second = 1000000000"
definition time_Millisecond :: int where "time_Millisecond = 1000000"

subsection \<open>Client\<close>

record rclient =
  rcConn :: nat
  rcAddr :: string
  rcAuth :: string
  rcDatabase :: int
  rcLastUse :: int
  rcTimeout :: int
  rcSend :: "64 word"
  rcRecv :: "64 word"

definition NewClient :: "'w redigo \<Rightarrow> string \<Rightarrow> string \<Rightarrow> int \<Rightarrow> ('w, rclient) io" where
  "NewClient R addr auth timeout =
     bindE (rd_Dial R addr auth (min time_Second timeout) timeout) (\<lambda>conn.
     bindE (gets (rd_Now R)) (\<lambda>now.
     ret \<lparr>rcConn = conn, rcAddr = addr, rcAuth = auth, rcDatabase = 0, rcLastUse = now,
          rcTimeout = timeout, rcSend = 0, rcRecv = 0\<rparr>))"

definition NewClientNoAuth :: "'w redigo \<Rightarrow> string \<Rightarrow> int \<Rightarrow> ('w, rclient) io" where
  "NewClientNoAuth R addr timeout = NewClient R addr [] timeout"

definition Client_Close :: "'w redigo \<Rightarrow> (rclient \<times> 'w, unit) io" where
  "Client_Close R = bindE (gets fst) (\<lambda>c. onW (rd_Close R (rcConn c)))"

text \<open>\<open>close_and e\<close> is \<open>c.Close(); return e\<close>: the error of \<open>Close\<close> is dropped.\<close>

definition close_and :: "'w redigo \<Rightarrow> error \<Rightarrow> (rclient \<times> 'w, 'a) io" where
  "close_and R e = bindE (attempt (Client_Close R)) (\<lambda>_. fail e)"

definition isRecyclable :: "'w redigo \<Rightarrow> rclient \<Rightarrow> 'w \<Rightarrow> bool" where
  "isRecyclable R c w =
     (if rd_Err R (rcConn c) w then False
      else if rcSend c \<noteq> rcRecv c then False
      else if rcTimeout c \<noteq> 0 \<and> rcTimeout c \<le> rd_Now R w - rcLastUse c then False
      else True)"

definition touch :: "'w redigo \<Rightarrow> (rclient \<times> 'w, unit) io" where
  "touch R = modifyE (\<lambda>s. ((fst s)\<lparr>rcLastUse := rd_Now R (snd s)\<rparr>, snd s))"

definition check_reply :: "reply \<Rightarrow> ('s, reply) io" where
  "check_reply r = (case r of RError e \<Rightarrow> fail (ErrExt e) | _ \<Rightarrow> ret r)"

definition Client_Do :: "'w redigo \<Rightarrow> string \<Rightarrow> string list \<Rightarrow> (rclient \<times> 'w, reply) io" where
  "Client_Do R cmd args =
     bindE (gets fst) (\<lambda>c.
     bindE (attempt (onW (rd_Do R (rcConn c) cmd args))) (\<lambda>r.
     case r of
       Inl e \<Rightarrow> close_and R e
     | Inr v \<Rightarrow> bindE (touch R) (\<lambda>_. check_reply v)))"

definition Client_Send :: "'w redigo \<Rightarrow> string \<Rightarrow> string list \<Rightarrow> (rclient \<times> 'w, unit) io" where
  "Client_Send R cmd args =
     bindE (gets fst) (\<lambda>c.
     bindE (attempt (onW (rd_Send R (rcConn c) cmd args))) (\<lambda>r.
     case r of
       Inl e \<Rightarrow> close_and R e
     | Inr _ \<Rightarrow> modifyE (\<lambda>s. ((fst s)\<lparr>rcSend := rcSend (fst s) + 1\<rparr>, snd s))))"

definition Client_Flush :: "'w redigo \<Rightarrow> (rclient \<times> 'w, unit) io" where
  "Client_Flush R =
     bindE (gets fst) (\<lambda>c.
     bindE (attempt (onW (rd_Flush R (rcConn c)))) (\<lambda>r.
     case r of Inl e \<Rightarrow> close_and R e | Inr _ \<Rightarrow> ret ()))"

definition Client_Receive :: "'w redigo \<Rightarrow> (rclient \<times> 'w, reply) io" where
  "Client_Receive R =
     bindE (gets fst) (\<lambda>c.
     bindE (attempt (onW (rd_Receive R (rcConn c)))) (\<lambda>r.
     case r of
       Inl e \<Rightarrow> close_and R e
     | Inr v \<Rightarrow>
         bindE (modifyE (\<lambda>s. ((fst s)\<lparr>rcRecv := rcRecv (fst s) + 1\<rparr>, snd s))) (\<lambda>_.
         bindE (touch R) (\<lambda>_. check_reply v))))"

definition Client_Select :: "'w redigo \<Rightarrow> int \<Rightarrow> (rclient \<times> 'w, unit) io" where
  "Client_Select R database =
     bindE (gets fst) (\<lambda>c.
     if rcDatabase c = database then ret ()
     else
       bindE (attempt (Client_Do R ''SELECT'' [Itoa database])) (\<lambda>r.
       case r of
         Inl e \<Rightarrow> close_and R e
       | Inr _ \<Rightarrow> modifyE (\<lambda>s. ((fst s)\<lparr>rcDatabase := database\<rparr>, snd s))))"

definition Client_Shutdown :: "'w redigo \<Rightarrow> (rclient \<times> 'w, unit) io" where
  "Client_Shutdown R =
     bindE (attempt (Client_Do R ''SHUTDOWN'' [])) (\<lambda>r.
     case r of Inl e \<Rightarrow> close_and R e | Inr _ \<Rightarrow> ret ())"

definition EnableKeySpace :: "'w redigo \<Rightarrow> (rclient \<times> 'w, unit) io" where
  "EnableKeySpace R =
     bindE (Client_Do R ''INFO'' [''keyspace'', ''1'']) (\<lambda>r.
     bindE (liftSum (redigo_String r)) (\<lambda>_. ret ()))"

fun parse_info :: "string list \<Rightarrow> (string \<times> string) list \<Rightarrow> (string \<times> string) list" where
  "parse_info [] info = info"
| "parse_info (line # lines) info =
     (case SplitN2 (CHR '':'') line of
        [k, v] \<Rightarrow>
          (let key = TrimSpace k
           in parse_info lines (if key \<noteq> [] then AList.update key (TrimSpace v) info else info))
      | _ \<Rightarrow> parse_info lines info)"

definition Client_Info :: "'w redigo \<Rightarrow> (rclient \<times> 'w, string \<times> (string \<times> string) list) io" where
  "Client_Info R =
     bindE (Client_Do R ''INFO'' []) (\<lambda>r.
     bindE (liftSum (redigo_String r)) (\<lambda>text.
     ret (text, parse_info (Split (CHR 10) text) [])))"

fun parse_keyspace :: "string list \<Rightarrow> (int \<times> string) list \<Rightarrow> error + (int \<times> string) list" where
  "parse_keyspace [] info = Inr info"
| "parse_keyspace (line # lines) info =
     (case SplitN2 (CHR '':'') line of
        [k, v] \<Rightarrow>
          (let key = TrimSpace k
           in if key \<noteq> [] \<and> HasPrefix key ''db'' then
                (case Atoi (drop 2 key) of
                   None \<Rightarrow> Inl (ErrExt ''strconv.Atoi'')
                 | Some n \<Rightarrow> parse_keyspace lines (AList.update n (TrimSpace v) info))
              else parse_keyspace lines info)
      | _ \<Rightarrow> parse_keyspace lines info)"

definition InfoKeySpace :: "'w redigo \<Rightarrow> (rclient \<times> 'w, string \<times> (int \<times> string) list) io" where
  "InfoKeySpace R =
     bindE (Client_Do R ''INFO'' [''keyspace'']) (\<lambda>r.
     bindE (liftSum (redigo_String r)) (\<lambda>text.
     bindE (liftSum (parse_keyspace (Split (CHR 10) text) [])) (\<lambda>info.
     ret (text, info))))"

text \<open>\<open>info[k]\<close> of a Go map of strings: the empty string when the key is missing.\<close>

definition str_at :: "(string \<times> string) list \<Rightarrow> string \<Rightarrow> string" where
  "str_at m k = (case map_of m k of None \<Rightarrow> [] | Some v \<Rightarrow> v)"

definition with_master_addr :: "(string \<times> string) list \<Rightarrow> (string \<times> string) list" where
  "with_master_addr info =
     (let host = str_at info ''master_host''; port = str_at info ''master_port''
      in if host \<noteq> [] \<or> port \<noteq> [] then AList.update ''master_addr'' (JoinHostPort host port) info
         else info)"

definition InfoFull :: "'w redigo \<Rightarrow> (rclient \<times> 'w, string \<times> (string \<times> string) list) io" where
  "InfoFull R =
     bindE (Client_Info R) (\<lambda>(text, info0).
     bindE (ret (with_master_addr info0)) (\<lambda>info.
     bindE (Client_Do R ''CONFIG'' [''GET'', ''maxmemory'']) (\<lambda>r.
     case redigo_Values r of
       Inr [_, q] \<Rightarrow>
         (case redigo_Int q of
            Inl _ \<Rightarrow> fail ErrInvalidResponse
          | Inr v \<Rightarrow>
              ret (text @ [CHR 10] @ ''#Config Get'' @ [CHR 10] @ ''maxmemory:'' @ Itoa v,
                   AList.update ''maxmemory'' (Itoa v) info))
     | _ \<Rightarrow> fail ErrInvalidResponse)))"

text \<open>The loop over \<open>opts\<close>: \<open>conn.Do\<close> directly, the first error ends it.\<close>

definition run_opts :: "'w redigo \<Rightarrow> (string \<times> string list) list \<Rightarrow> (rclient \<times> 'w, unit) io" where
  "run_opts R opts =
     bindE (gets fst) (\<lambda>c.
     forE opts (\<lambda>(cmd, args).
       bindE (mapErr (ErrCmd cmd) (onW (rd_Do R (rcConn c) cmd args))) (\<lambda>_. ret ())))"

definition SetMaster :: "'w redigo \<Rightarrow> string \<Rightarrow> (rclient \<times> 'w, unit) io" where
  "SetMaster R master =
     bindE (liftSum (SplitHostPort master)) (\<lambda>(host, port).
     bindE (gets fst) (\<lambda>c.
     run_opts R
       [(''CONFIG'', [''SET'', ''masterauth'', rcAuth c]),
        (''SLAVEOF'', [host, port]),
        (''CONFIG'', [''REWRITE''])]))"

definition ForceFullSyncFromMaster :: "'w redigo \<Rightarrow> string \<Rightarrow> (rclient \<times> 'w, unit) io" where
  "ForceFullSyncFromMaster R master =
     bindE (liftSum (SplitHostPort master)) (\<lambda>(host, port).
     bindE (gets fst) (\<lambda>c.
     run_opts R
       [(''CONFIG'', [''SET'', ''masterauth'', rcAuth c]),
        (''SLAVEOF'', [''NO'', ''ONE'']),
        (''SLAVEOF'', [host, port, ''force'']),
        (''CONFIG'', [''REWRITE''])]))"

definition second_int :: "reply \<Rightarrow> ('s, int) io" where
  "second_int r = (case redigo_Ints r of Inr [_, n] \<Rightarrow> ret n | _ \<Rightarrow> fail ErrInvalidResponse)"

definition MigrateSlot :: "'w redigo \<Rightarrow> int \<Rightarrow> string \<Rightarrow> (rclient \<times> 'w, int) io" where
  "MigrateSlot R slot target =
     bindE (liftSum (SplitHostPort target)) (\<lambda>(host, port).
     bindE (gets fst) (\<lambda>c.
     bindE (Client_Do R ''SLOTSMGRTTAGSLOT''
              [host, port, Itoa (go_quot (rcTimeout c) time_Millisecond), Itoa slot]) second_int))"

record migrate_option =
  moMaxBulks :: int
  moMaxBytes :: int
  moNumKeys :: int
  moTimeout :: int

definition MigrateSlotAsync :: "'w redigo \<Rightarrow> int \<Rightarrow> string \<Rightarrow> migrate_option \<Rightarrow> (rclient \<times> 'w, int) io" where
  "MigrateSlotAsync R slot target opt =
     bindE (liftSum (SplitHostPort target)) (\<lambda>(host, port).
     bindE (Client_Do R ''SLOTSMGRTTAGSLOT-ASYNC''
              [host, port, Itoa (go_quot (moTimeout opt) time_Millisecond), Itoa (moMaxBulks opt),
               Itoa (moMaxBytes opt), Itoa slot, Itoa (moNumKeys opt)]) second_int)"

fun slots_of :: "reply list \<Rightarrow> (int \<times> int) list \<Rightarrow> error + (int \<times> int) list" where
  "slots_of [] m = Inr m"
| "slots_of (r # rs) m =
     (case redigo_Ints r of
        Inr [i, n] \<Rightarrow> slots_of rs (AList.update i n m)
      | _ \<Rightarrow> Inl ErrInvalidResponse)"

definition SlotsInfo :: "'w redigo \<Rightarrow> (rclient \<times> 'w, (int \<times> int) list) io" where
  "SlotsInfo R =
     bindE (Client_Do R ''SLOTSINFO'' []) (\<lambda>r.
     bindE (liftSum (redigo_Values r)) (\<lambda>infos. liftSum (slots_of infos [])))"

definition upper_char :: "char \<Rightarrow> char" where
  "upper_char c = (if CHR ''a'' \<le> c \<and> c \<le> CHR ''z'' then char_of (of_char c - 32 :: nat) else c)"

definition Role :: "'w redigo \<Rightarrow> (rclient \<times> 'w, string) io" where
  "Role R =
     bindE (Client_Do R ''ROLE'' []) (\<lambda>r.
     bindE (liftSum (redigo_Values r)) (\<lambda>vs.
     case vs of
       [] \<Rightarrow> fail ErrInvalidResponse
     | v # _ \<Rightarrow>
         (case redigo_String v of
            Inl _ \<Rightarrow> fail ErrInvalidResponse
          | Inr role \<Rightarrow> ret (map upper_char role))))"

text \<open>
  \<open>with_client\<close>: dial, run a method on the new client, close it whatever happened
  (\<open>defer c.Close()\<close>).
\<close>

definition with_client :: "'w redigo \<Rightarrow> string \<Rightarrow> string \<Rightarrow> int \<Rightarrow> (rclient \<times> 'w, 'a) io \<Rightarrow> ('w, 'a) io" where
  "with_client R addr auth timeout f =
     bindE (NewClient R addr auth timeout) (\<lambda>c w.
     case f (c, w) of (r, (c', w')) \<Rightarrow> (r, snd (rd_Close R (rcConn c') w')))"

subsection \<open>Pool\<close>

text \<open>
  \<open>list.List\<close> is a list with its front first. The pool works on the pair of its record and
  the world; its lock makes every method atomic. The goroutine that \<open>NewPool\<close> starts calls
  \<open>Cleanup\<close> every minute until the pool is closed.
\<close>

record pool =
  plAuth :: string
  plPool :: "(string \<times> rclient list) list"
  plTimeout :: int
  plClosed :: bool

definition NewPool :: "string \<Rightarrow> int \<Rightarrow> pool" where
  "NewPool auth timeout = \<lparr>plAuth = auth, plPool = [], plTimeout = timeout, plClosed = False\<rparr>"

definition close_client :: "'w redigo \<Rightarrow> rclient \<Rightarrow> 'w \<Rightarrow> 'w" where
  "close_client R c w = snd (rd_Close R (rcConn c) w)"

fun close_clients :: "'w redigo \<Rightarrow> rclient list \<Rightarrow> 'w \<Rightarrow> 'w" where
  "close_clients R [] w = w"
| "close_clients R (c # cs) w = close_clients R cs (close_client R c w)"

definition Pool_Close :: "'w redigo \<Rightarrow> (pool \<times> 'w, unit) io" where
  "Pool_Close R s =
     (if plClosed (fst s) then (Inr (), s)
      else (Inr (), ((fst s)\<lparr>plClosed := True, plPool := []\<rparr>,
                     close_clients R (concat (map snd (plPool (fst s)))) (snd s))))"

fun sweep :: "'w redigo \<Rightarrow> rclient list \<Rightarrow> 'w \<Rightarrow> rclient list \<times> 'w" where
  "sweep R [] w = ([], w)"
| "sweep R (c # cs) w =
     (if \<not> isRecyclable R c w then sweep R cs (close_client R c w)
      else (case sweep R cs w of (cs', w') \<Rightarrow> (c # cs', w')))"

fun sweep_pool :: "'w redigo \<Rightarrow> (string \<times> rclient list) list \<Rightarrow> 'w \<Rightarrow> (string \<times> rclient list) list \<times> 'w" where
  "sweep_pool R [] w = ([], w)"
| "sweep_pool R ((addr, cs) # m) w =
     (case sweep R cs w of (cs', w1) \<Rightarrow>
      (case sweep_pool R m w1 of (m', w2) \<Rightarrow>
       (if cs' = [] then m' else (addr, cs') # m', w2)))"

definition Pool_Cleanup :: "'w redigo \<Rightarrow> (pool \<times> 'w, unit) io" where
  "Pool_Cleanup R s =
     (if plClosed (fst s) then (Inl ErrClosedPool, s)
      else (case sweep_pool R (plPool (fst s)) (snd s) of
              (m, w) \<Rightarrow> (Inr (), ((fst s)\<lparr>plPool := m\<rparr>, w))))"

text \<open>The first recyclable client of a list; those before it are closed and dropped.\<close>

fun take_recyclable :: "'w redigo \<Rightarrow> rclient list \<Rightarrow> 'w \<Rightarrow> rclient option \<times> rclient list \<times> 'w" where
  "take_recyclable R [] w = (None, [], w)"
| "take_recyclable R (c # cs) w =
     (if \<not> isRecyclable R c w then take_recyclable R cs (close_client R c w)
      else (Some c, cs, w))"

definition getClientFromCache :: "'w redigo \<Rightarrow> string \<Rightarrow> (pool \<times> 'w, rclient option) io" where
  "getClientFromCache R addr s =
     (if plClosed (fst s) then (Inl ErrClosedPool, s)
      else (case map_of (plPool (fst s)) addr of
              None \<Rightarrow> (Inr None, s)
            | Some cs \<Rightarrow>
                (case take_recyclable R cs (snd s) of
                   (c, cs', w) \<Rightarrow> (Inr c, ((fst s)\<lparr>plPool := AList.update addr cs' (plPool (fst s))\<rparr>, w)))))"

definition GetClient :: "'w redigo \<Rightarrow> string \<Rightarrow> (pool \<times> 'w, rclient) io" where
  "GetClient R addr =
     bindE (getClientFromCache R addr) (\<lambda>c.
     case c of
       Some c' \<Rightarrow> ret c'
     | None \<Rightarrow>
         bindE (gets fst) (\<lambda>p. onW (NewClient R addr (plAuth p) (plTimeout p))))"

definition PutClient :: "'w redigo \<Rightarrow> rclient \<Rightarrow> pool \<times> 'w \<Rightarrow> pool \<times> 'w" where
  "PutClient R c s =
     (if \<not> isRecyclable R c (snd s) \<or> plClosed (fst s) then (fst s, close_client R c (snd s))
      else ((fst s)\<lparr>plPool := AList.update (rcAddr c)
              (c # (case map_of (plPool (fst s)) (rcAddr c) of None \<Rightarrow> [] | Some cs \<Rightarrow> cs)) (plPool (fst s))\<rparr>,
            snd s))"

definition with_pooled :: "'w redigo \<Rightarrow> string \<Rightarrow> (rclient \<times> 'w, 'a) io \<Rightarrow> (pool \<times> 'w, 'a) io" where
  "with_pooled R addr f =
     bindE (GetClient R addr) (\<lambda>c s.
     case f (c, snd s) of (r, (c', w)) \<Rightarrow> (r, PutClient R c' (fst s, w)))"

definition Pool_EnableKeySpace :: "'w redigo \<Rightarrow> string \<Rightarrow> (pool \<times> 'w, unit) io" where
  "Pool_EnableKeySpace R addr = with_pooled R addr (EnableKeySpace R)"

definition Pool_Info :: "'w redigo \<Rightarrow> string \<Rightarrow> (pool \<times> 'w, string \<times> (string \<times> string) list) io" where
  "Pool_Info R addr = with_pooled R addr (Client_Info R)"

definition Pool_InfoFull :: "'w redigo \<Rightarrow> string \<Rightarrow> (pool \<times> 'w, string \<times> (string \<times> string) list) io" where
  "Pool_InfoFull R addr = with_pooled R addr (InfoFull R)"

subsection \<open>InfoCache\<close>

record info_cache =
  icAuth :: string
  icData :: "(string \<times> (string \<times> string) list) list"
  icTimeout :: int

definition InfoCache_load :: "string \<Rightarrow> info_cache \<Rightarrow> (string \<times> string) list option" where
  "InfoCache_load addr c = map_of (icData c) addr"

definition InfoCache_store :: "string \<Rightarrow> (string \<times> string) list option \<Rightarrow> info_cache \<Rightarrow> (string \<times> string) list \<times> info_cache" where
  "InfoCache_store addr info c =
     (let d = (case info of
                 Some i \<Rightarrow> AList.update addr i (icData c)
               | None \<Rightarrow> (case map_of (icData c) addr of
                            None \<Rightarrow> AList.update addr [] (icData c) | Some _ \<Rightarrow> icData c))
      in (case map_of d addr of None \<Rightarrow> [] | Some i \<Rightarrow> i, c\<lparr>icData := d\<rparr>))"

definition InfoCache_getSlow :: "'w redigo \<Rightarrow> string \<Rightarrow> info_cache \<Rightarrow> ('w, string \<times> (string \<times> string) list) io" where
  "InfoCache_getSlow R addr c = with_client R addr (icAuth c) (icTimeout c) (Client_Info R)"

definition InfoCache_Get :: "'w redigo \<Rightarrow> string \<Rightarrow> info_cache \<times> 'w \<Rightarrow> (string \<times> string) list \<times> info_cache \<times> 'w" where
  "InfoCache_Get R addr s =
     (case InfoCache_load addr (fst s) of
        Some info \<Rightarrow> (info, s)
      | None \<Rightarrow>
          (case InfoCache_getSlow R addr (fst s) (snd s) of
             (r, w) \<Rightarrow>
               (case InfoCache_store addr (case r of Inl _ \<Rightarrow> None | Inr (_, info) \<Rightarrow> Some info) (fst s) of
                  (info, c) \<Rightarrow> (info, (c, w)))))"

definition GetRunId :: "'w redigo \<Rightarrow> string \<Rightarrow> info_cache \<times> 'w \<Rightarrow> string \<times> info_cache \<times> 'w" where
  "GetRunId R addr s = (case InfoCache_Get R addr s of (info, s') \<Rightarrow> (str_at info ''run_id'', s'))"

end
