(* ===== verification/RedisSentinel.thy ===== *)
theory RedisSentinel
  imports RedisClient
begin

section \<open>Talking to the sentinels (topom/client/redis/sentinel.go)\<close>

text \<open>
  \<open>Sentinel\<close> runs one goroutine per sentinel server and collects their results until all
  have come in or its context ends. Scheduling and the clock are the parameter \<open>sched\<close>:
  \<^item> \<open>sc_Ctx\<close> says whether the context ends before the command of one \<open>dispatch\<close> returns;
  \<^item> \<open>sc_Arrive\<close> gives, for \<open>n\<close> goroutines, the order in which the results are received
    and the reason for which the context ends after them;
  \<^item> \<open>sc_Resolve\<close> is \<open>net.ResolveTCPAddr\<close>, \<open>sc_After\<close> says whether a timer fires before the
    goroutine it is raced with, \<open>sc_Done\<close> whether the service's \<open>done\<close> channel is closed.
  The goroutines work on connections of their own; the model runs their commands one after
  the other. The collecting loops are functions of the list of events they see.
\<close>

datatype ctx_err = Canceled | DeadlineExceeded

definition ctx_error :: "ctx_err \<Rightarrow> error" where
  "ctx_error e = (case e of Canceled \<Rightarrow> ErrCtxCanceled | DeadlineExceeded \<Rightarrow> ErrCtxDeadline)"

record 'w sched =
  sc_Ctx :: "'w \<Rightarrow> ctx_err option \<times> 'w"
  sc_Arrive :: "nat \<Rightarrow> 'w \<Rightarrow> (nat list \<times> ctx_err) \<times> 'w"
  sc_Resolve :: "string \<Rightarrow> ('w, string \<times> int) io"
  sc_After :: "'w \<Rightarrow> bool \<times> 'w"
  sc_Done :: "'w \<Rightarrow> bool \<times> 'w"

subsection \<open>Node names\<close>

definition NodeName :: "string \<Rightarrow> string \<Rightarrow> string" where
  "NodeName product groupName = product @ ''-'' @ groupName"

definition isSameProduct :: "string \<Rightarrow> string \<Rightarrow> string option" where
  "isSameProduct product name =
     (if \<not> HasPrefix name product then None
      else (let suffix = drop (length product) name
            in if length suffix \<le> 1 \<or> hd suffix \<noteq> CHR ''-'' then None else Some (drop 1 suffix)))"

lemma isSameProduct_iff:
  "isSameProduct product name = Some g \<longleftrightarrow> name = NodeName product g \<and> g \<noteq> []"
proof (cases "HasPrefix name product")
  case True
  then obtain r where name: "name = product @ r" by (auto simp: HasPrefix_iff)
  then have "isSameProduct product name = (if length r \<le> 1 \<or> hd r \<noteq> CHR ''-'' then None else Some (drop 1 r))"
    using True by (simp add: isSameProduct_def)
  moreover have "name = NodeName product g \<longleftrightarrow> r = CHR ''-'' # g" by (simp add: name NodeName_def)
  ultimately show ?thesis by (cases r) auto
next
  case False
  then show ?thesis by (auto simp: isSameProduct_def NodeName_def HasPrefix_iff)
qed

subsection \<open>Dispatch\<close>

definition sentinel_do :: "'w redigo \<Rightarrow> string \<Rightarrow> int \<Rightarrow> (rclient \<times> 'w, 'a) io \<Rightarrow> ('w, 'a) io" where
  "sentinel_do R sentinel timeout fn = with_client R sentinel [] timeout fn"

definition dispatch :: "'w sched \<Rightarrow> 'w redigo \<Rightarrow> string \<Rightarrow> int \<Rightarrow> (rclient \<times> 'w, 'a) io \<Rightarrow> ('w, 'a) io" where
  "dispatch S R sentinel timeout fn =
     bindE (NewClientNoAuth R sentinel timeout) (\<lambda>c w.
     case fn (c, w) of (r, (c', w1)) \<Rightarrow>
     case sc_Ctx S w1 of (ctx, w2) \<Rightarrow>
       (case ctx of None \<Rightarrow> r | Some e \<Rightarrow> Inl (ctx_error e), snd (rd_Close R (rcConn c') w2)))"

text \<open>A canceled context is not an error to the callers.\<close>

definition ignore_canceled :: "'a \<Rightarrow> ('w, 'a) io \<Rightarrow> ('w, 'a) io" where
  "ignore_canceled x m w =
     (case m w of (r, w') \<Rightarrow> (case r of Inl e \<Rightarrow> (if e = ErrCtxCanceled then Inr x else Inl e) | Inr y \<Rightarrow> Inr y, w'))"

subsection \<open>Commands\<close>

text \<open>\<open>defer func() { if !client.isRecyclable() { client.Close() } }()\<close>\<close>

definition deferred :: "'w redigo \<Rightarrow> (rclient \<times> 'w, 'a) io \<Rightarrow> (rclient \<times> 'w, 'a) io" where
  "deferred R m s =
     (case m s of (r, s') \<Rightarrow>
       (r, if isRecyclable R (fst s') (snd s') then s' else snd (Client_Close R s')))"

fun exists_loop :: "'w redigo \<Rightarrow> string list \<Rightarrow> (string \<times> bool) list \<Rightarrow> (rclient \<times> 'w, (string \<times> bool) list) io" where
  "exists_loop R [] m = ret m"
| "exists_loop R (name # names) m =
     bindE (Client_Do R ''SENTINEL'' [''get-master-addr-by-name'', name]) (\<lambda>r.
     exists_loop R names (AList.update name (r \<noteq> RNil) m))"

definition existsCommand :: "'w redigo \<Rightarrow> string list \<Rightarrow> (rclient \<times> 'w, (string \<times> bool) list) io" where
  "existsCommand R names = deferred R (exists_loop R names [])"

definition exists_in :: "(string \<times> bool) list \<Rightarrow> string \<Rightarrow> bool" where
  "exists_in m name = (map_of m name = Some True)"

text \<open>The sending goroutine drops the errors of \<open>Send\<close> and \<open>Flush\<close>.\<close>

fun send_all :: "'w redigo \<Rightarrow> (string \<times> string list) list \<Rightarrow> (rclient \<times> 'w, unit) io" where
  "send_all R [] = ret ()"
| "send_all R ((cmd, args) # cs) = bindE (attempt (Client_Send R cmd args)) (\<lambda>_. send_all R cs)"

definition pipeline :: "'w redigo \<Rightarrow> (string \<times> string list) list \<Rightarrow> (rclient \<times> 'w, unit) io" where
  "pipeline R cmds =
     bindE (send_all R cmds) (\<lambda>_.
     bindE (if cmds \<noteq> [] then bindE (attempt (Client_Flush R)) (\<lambda>_. ret ()) else ret ()) (\<lambda>_.
     forE cmds (\<lambda>_. bindE (Client_Receive R) (\<lambda>_. ret ()))))"

definition removeCommand :: "'w redigo \<Rightarrow> string list \<Rightarrow> (rclient \<times> 'w, unit) io" where
  "removeCommand R names =
     deferred R
       (bindE (existsCommand R names) (\<lambda>exists.
        pipeline R (map (\<lambda>name. (''SENTINEL'', [''remove'', name])) (filter (exists_in exists) names))))"

fun string_maps :: "reply list \<Rightarrow> error + (string \<times> string) list list" where
  "string_maps [] = Inr []"
| "string_maps (r # rs) =
     (case redigo_StringMap r of
        Inl e \<Rightarrow> Inl e
      | Inr m \<Rightarrow> (case string_maps rs of Inl e \<Rightarrow> Inl e | Inr ms \<Rightarrow> Inr (m # ms)))"

fun slaves_loop :: "'w redigo \<Rightarrow> (string \<times> bool) list \<Rightarrow> string list \<Rightarrow> (string \<times> (string \<times> string) list list) list
    \<Rightarrow> (rclient \<times> 'w, (string \<times> (string \<times> string) list list) list) io" where
  "slaves_loop R exists [] results = ret results"
| "slaves_loop R exists (name # names) results =
     (if \<not> exists_in exists name then slaves_loop R exists names results
      else
        bindE (Client_Do R ''SENTINEL'' [''slaves'', name]) (\<lambda>r.
        bindE (liftSum (redigo_Values r)) (\<lambda>values.
        bindE (liftSum (string_maps values)) (\<lambda>slaves.
        slaves_loop R exists names (AList.update name slaves results)))))"

definition slavesCommand :: "'w redigo \<Rightarrow> string list \<Rightarrow> (rclient \<times> 'w, (string \<times> (string \<times> string) list list) list) io" where
  "slavesCommand R names =
     deferred R
       (bindE (existsCommand R names) (\<lambda>exists. slaves_loop R exists names []))"

fun own_masters :: "string \<Rightarrow> (string \<times> string) list list \<Rightarrow> (string \<times> (string \<times> string) list) list
    \<Rightarrow> (string \<times> (string \<times> string) list) list" where
  "own_masters product [] masters = masters"
| "own_masters product (p # ps) masters =
     (case isSameProduct product (str_at p ''name'') of
        None \<Rightarrow> own_masters product ps masters
      | Some groupName \<Rightarrow> own_masters product ps (AList.update groupName p masters))"

definition mastersCommand :: "'w redigo \<Rightarrow> string \<Rightarrow> (rclient \<times> 'w, (string \<times> (string \<times> string) list) list) io" where
  "mastersCommand R product =
     deferred R
       (bindE (Client_Do R ''SENTINEL'' [''masters'']) (\<lambda>r.
        bindE (liftSum (redigo_Values r)) (\<lambda>values.
        bindE (liftSum (string_maps values)) (\<lambda>ps.
        ret (own_masters product ps [])))))"

subsection \<open>Collecting errors\<close>

text \<open>The loop shared by \<open>RemoveGroups\<close>, \<open>RemoveGroupsAll\<close> and \<open>MonitorGroups\<close>.\<close>

datatype 'a event = Result 'a | Done ctx_err

fun collect_errors :: "nat \<Rightarrow> error option \<Rightarrow> (error + unit) event list \<Rightarrow> error + unit" where
  "collect_errors 0 lst evs = (case lst of None \<Rightarrow> Inr () | Some e \<Rightarrow> Inl e)"
| "collect_errors (Suc n) lst [] = (case lst of None \<Rightarrow> Inl ErrCtxDeadline | Some e \<Rightarrow> Inl e)"
| "collect_errors (Suc n) lst (Done c # evs) = (case lst of None \<Rightarrow> Inl (ctx_error c) | Some e \<Rightarrow> Inl e)"
| "collect_errors (Suc n) lst (Result r # evs) =
     collect_errors n (case r of Inl e \<Rightarrow> Some e | Inr _ \<Rightarrow> lst) evs"

fun run_all :: "(string \<Rightarrow> ('w, 'a) io) \<Rightarrow> string list \<Rightarrow> 'w \<Rightarrow> (error + 'a) list \<times> 'w" where
  "run_all f [] w = ([], w)"
| "run_all f (x # xs) w =
     (case f x w of (r, w1) \<Rightarrow> (case run_all f xs w1 of (rs, w2) \<Rightarrow> (r # rs, w2)))"

definition events_of :: "'a list \<Rightarrow> nat list \<times> ctx_err \<Rightarrow> 'a event list" where
  "events_of rs a = map (\<lambda>i. Result (rs ! i)) (filter (\<lambda>i. i < length rs) (fst a)) @ [Done (snd a)]"

definition all_sentinels :: "'w sched \<Rightarrow> (string \<Rightarrow> ('w, unit) io) \<Rightarrow> string list \<Rightarrow> ('w, unit) io" where
  "all_sentinels S f sentinels w =
     (case run_all f sentinels w of (rs, w1) \<Rightarrow>
      case sc_Arrive S (length sentinels) w1 of (a, w2) \<Rightarrow>
        (collect_errors (length sentinels) None (events_of rs a), w2))"

subsection \<open>Removing groups\<close>

definition removeGroupsDispatch :: "'w sched \<Rightarrow> 'w redigo \<Rightarrow> string \<Rightarrow> int \<Rightarrow> string list \<Rightarrow> string \<Rightarrow> ('w, unit) io" where
  "removeGroupsDispatch S R product timeout groups sentinel =
     ignore_canceled ()
       (dispatch S R sentinel timeout (removeCommand R (map (NodeName product) groups)))"

definition RemoveGroups :: "'w sched \<Rightarrow> 'w redigo \<Rightarrow> string \<Rightarrow> string list \<Rightarrow> int \<Rightarrow> string list \<Rightarrow> ('w, unit) io" where
  "RemoveGroups S R product sentinels timeout groups =
     all_sentinels S (removeGroupsDispatch S R product (timeout + 5 * time_Second) groups) sentinels"

definition removeGroupsAllDispatch :: "'w sched \<Rightarrow> 'w redigo \<Rightarrow> string \<Rightarrow> int \<Rightarrow> string \<Rightarrow> ('w, unit) io" where
  "removeGroupsAllDispatch S R product timeout sentinel =
     ignore_canceled ()
       (dispatch S R sentinel timeout
          (bindE (mastersCommand R product) (\<lambda>masters.
           removeCommand R (map (\<lambda>e. NodeName product (fst e)) masters))))"

definition RemoveGroupsAll :: "'w sched \<Rightarrow> 'w redigo \<Rightarrow> string \<Rightarrow> string list \<Rightarrow> int \<Rightarrow> ('w, unit) io" where
  "RemoveGroupsAll S R product sentinels timeout =
     all_sentinels S (removeGroupsAllDispatch S R product (timeout + 5 * time_Second)) sentinels"

subsection \<open>Monitoring groups\<close>

record monitor_config =
  mcQuorum :: int
  mcParallelSyncs :: int
  mcDownAfter :: int
  mcFailoverTimeout :: int
  mcNotificationScript :: string
  mcClientReconfigScript :: string

definition set_args :: "monitor_config \<Rightarrow> string \<Rightarrow> string \<Rightarrow> string list" where
  "set_args config auth node =
     [''set'', node] @
     (if mcParallelSyncs config \<noteq> 0 then [''parallel-syncs'', Itoa (mcParallelSyncs config)] else []) @
     (if mcDownAfter config \<noteq> 0
      then [''down-after-milliseconds'', Itoa (go_quot (mcDownAfter config) time_Millisecond)] else []) @
     (if mcFailoverTimeout config \<noteq> 0
      then [''failover-timeout'', Itoa (go_quot (mcFailoverTimeout config) time_Millisecond)] else []) @
     (if auth \<noteq> [] then [''auth-pass'', auth] else []) @
     (if mcNotificationScript config \<noteq> []
      then [''notification-script'', mcNotificationScript config] else []) @
     (if mcClientReconfigScript config \<noteq> []
      then [''client-reconfig-script'', mcClientReconfigScript config] else [])"

definition monitorGroupsCommand :: "'w redigo \<Rightarrow> string \<Rightarrow> string \<Rightarrow> monitor_config
    \<Rightarrow> (string \<times> (string \<times> int)) list \<Rightarrow> (rclient \<times> 'w, unit) io" where
  "monitorGroupsCommand R product auth config groups =
     deferred R
       (bindE (removeCommand R (map (\<lambda>e. NodeName product (fst e)) groups)) (\<lambda>_.
        bindE (pipeline R (map (\<lambda>(g, ip, port).
                 (''SENTINEL'', [''monitor'', NodeName product g, ip, Itoa port, Itoa (mcQuorum config)])) groups)) (\<lambda>_.
        pipeline R (map (\<lambda>(g, _). (''SENTINEL'', set_args config auth (NodeName product g))) groups))))"

definition monitorGroupsDispatch :: "'w sched \<Rightarrow> 'w redigo \<Rightarrow> string \<Rightarrow> string \<Rightarrow> int \<Rightarrow> monitor_config
    \<Rightarrow> (string \<times> (string \<times> int)) list \<Rightarrow> string \<Rightarrow> ('w, unit) io" where
  "monitorGroupsDispatch S R product auth timeout config groups sentinel =
     ignore_canceled ()
       (dispatch S R sentinel timeout (monitorGroupsCommand R product auth config groups))"

text \<open>
  The resolving goroutine: it stops at the first error; the context may end first. The
  error of the context, tested before each address, is the one \<open>sc_Ctx\<close> gives.
\<close>

fun resolve_all :: "'w sched \<Rightarrow> (string \<times> string) list \<Rightarrow> (string \<times> (string \<times> int)) list
    \<Rightarrow> ('w, (string \<times> (string \<times> int)) list) io" where
  "resolve_all S [] m = ret m"
| "resolve_all S ((groupName, addr) # groups) m =
     (\<lambda>w. case sc_Ctx S w of (ctx, w1) \<Rightarrow>
        (case ctx of
           Some e \<Rightarrow> (Inl (ctx_error e), w1)
         | None \<Rightarrow>
             bindE (sc_Resolve S addr) (\<lambda>tcpAddr.
             resolve_all S groups (AList.update groupName tcpAddr m)) w1))"

definition MonitorGroups :: "'w sched \<Rightarrow> 'w redigo \<Rightarrow> string \<Rightarrow> string \<Rightarrow> string list \<Rightarrow> int \<Rightarrow> monitor_config
    \<Rightarrow> (string \<times> string) list \<Rightarrow> ('w, unit) io" where
  "MonitorGroups S R product auth sentinels timeout config groups =
     bindE (resolve_all S groups []) (\<lambda>resolve w.
     case sc_Ctx S w of (ctx, w1) \<Rightarrow>
       (case ctx of
          Some e \<Rightarrow> (Inl (ctx_error e), w1)
        | None \<Rightarrow>
            all_sentinels S
              (monitorGroupsDispatch S R product auth (timeout + 5 * time_Second) config resolve) sentinels w1))"

subsection \<open>Electing the masters\<close>

record sentinel_master =
  mAddr :: string
  mInfo :: "(string \<times> string) list"
  mEpoch :: int

fun parse_masters :: "(string \<times> (string \<times> string) list) list \<Rightarrow> (string \<times> sentinel_master) list
    \<Rightarrow> (string \<times> sentinel_master) list" where
  "parse_masters [] masters = masters"
| "parse_masters ((groupName, master) # ps) masters =
     (case Atoi (str_at master ''config-epoch'') of
        None \<Rightarrow> parse_masters ps masters
      | Some epoch \<Rightarrow>
          (let ip = str_at master ''ip''; port = str_at master ''port''
           in if ip = [] \<or> port = [] then parse_masters ps masters
              else parse_masters ps (AList.update groupName
                     \<lparr>mAddr = JoinHostPort ip port, mInfo = master, mEpoch = epoch\<rparr> masters)))"

definition mastersDispatch :: "'w sched \<Rightarrow> 'w redigo \<Rightarrow> string \<Rightarrow> int \<Rightarrow> string
    \<Rightarrow> ('w, (string \<times> sentinel_master) list option) io" where
  "mastersDispatch S R product timeout sentinel =
     ignore_canceled None
       (dispatch S R sentinel timeout
          (bindE (mastersCommand R product) (\<lambda>p. ret (Some (parse_masters p [])))))"

text \<open>
  What the loop of \<open>Masters\<close> does with one answer: the master with the highest epoch so
  far is kept, the first one of equals.
\<close>

fun vote :: "(string \<times> sentinel_master) list \<Rightarrow> (string \<times> sentinel_master) list \<times> (string \<times> string) list
    \<Rightarrow> (string \<times> sentinel_master) list \<times> (string \<times> string) list" where
  "vote [] s = s"
| "vote ((groupName, master) # m) (current, masters) =
     vote m
       (if (case map_of current groupName of None \<Rightarrow> True | Some c \<Rightarrow> mEpoch c < mEpoch master)
        then (AList.update groupName master current, AList.update groupName (mAddr master) masters)
        else (current, masters))"

definition majority :: "nat \<Rightarrow> nat" where
  "majority n = 1 + n div 2"

fun masters_loop :: "nat \<Rightarrow> nat \<Rightarrow> nat \<Rightarrow> (string \<times> sentinel_master) list \<times> (string \<times> string) list
    \<Rightarrow> ctx_err option \<Rightarrow> (string \<times> sentinel_master) list option event list
    \<Rightarrow> error + (string \<times> string) list" where
  "masters_loop n 0 voted s ctx evs =
     (if ctx = Some Canceled then Inl ErrCtxCanceled
      else if voted < majority n then Inl (ErrSentinel (LostMajority voted n))
      else Inr (snd s))"
| "masters_loop n (Suc alive) voted s ctx [] =
     (if voted < majority n then Inl (ErrSentinel (LostMajority voted n)) else Inr (snd s))"
| "masters_loop n (Suc alive) voted s ctx (Done e # evs) =
     (if e = Canceled then Inl ErrCtxCanceled
      else if voted < majority n then Inl (ErrSentinel (LostMajority voted n))
      else Inr (snd s))"
| "masters_loop n (Suc alive) voted s ctx (Result None # evs) = masters_loop n alive voted s ctx evs"
| "masters_loop n (Suc alive) voted s ctx (Result (Some m) # evs) =
     masters_loop n alive (voted + 1) (vote m s) ctx evs"

definition answer :: "error + (string \<times> sentinel_master) list option \<Rightarrow> (string \<times> sentinel_master) list option" where
  "answer r = (case r of Inl _ \<Rightarrow> None | Inr m \<Rightarrow> m)"

definition Masters :: "'w sched \<Rightarrow> 'w redigo \<Rightarrow> string \<Rightarrow> string list \<Rightarrow> int \<Rightarrow> ('w, (string \<times> string) list) io" where
  "Masters S R product sentinels timeout w =
     (case run_all (mastersDispatch S R product (timeout + 5 * time_Second)) sentinels w of (rs, w1) \<Rightarrow>
      case sc_Arrive S (length sentinels) w1 of (a, w2) \<Rightarrow>
      case sc_Ctx S w2 of (ctx, w3) \<Rightarrow>
        (masters_loop (length sentinels) (length sentinels) 0 ([], []) ctx (events_of (map answer rs) a), w3))"

subsection \<open>Waiting for a switch\<close>

text \<open>
  \<open>subscribe_reply\<close> is the check of the first reply, \<open>subscribe_message\<close> what the loop does
  with a published message: an error ends it, a switch of the product's own group ends it
  with success, anything else is skipped.
\<close>

datatype sub_step = SubFail | SubSkip | SubSwitch

definition bulk_or_nil :: "reply \<Rightarrow> string option" where
  "bulk_or_nil r = (case r of RBulk s \<Rightarrow> Some s | RNil \<Rightarrow> Some [] | _ \<Rightarrow> None)"

definition subscribe_reply :: "string \<Rightarrow> reply list \<Rightarrow> bool" where
  "subscribe_reply channel values =
     (case values of
        [a, b, _] \<Rightarrow> bulk_or_nil a = Some ''subscribe'' \<and> bulk_or_nil b = Some channel
      | _ \<Rightarrow> False)"

definition subscribe_message :: "string \<Rightarrow> reply list \<Rightarrow> sub_step" where
  "subscribe_message product values =
     (if length values < 2 then SubFail
      else if \<not> list_all (\<lambda>v. bulk_or_nil v \<noteq> None) values then SubFail
      else (let message = map (\<lambda>v. case bulk_or_nil v of None \<Rightarrow> [] | Some s \<Rightarrow> s) values
            in if message ! 0 \<noteq> ''message'' then SubFail
               else if message ! 1 = ''+switch-master'' then
                 (if length message \<noteq> 3 then SubFail
                  else (case SplitN2 (CHR '' '') (message ! 2) of
                          [node, _] \<Rightarrow> if isSameProduct product node \<noteq> None then SubSwitch else SubSkip
                        | _ \<Rightarrow> SubFail))
               else SubSkip))"

fun subscribe_loop :: "nat \<Rightarrow> nat \<Rightarrow> bool event list \<Rightarrow> bool" where
  "subscribe_loop n alive evs =
     (if alive < majority n then False
      else (case evs of
              [] \<Rightarrow> False
            | Done _ # _ \<Rightarrow> False
            | Result notified # evs' \<Rightarrow> if notified then True else subscribe_loop n (alive - 1) evs'))"

subsection \<open>Group information and configuration\<close>

record sentinel_group =
  sgMaster :: "(string \<times> string) list"
  sgSlaves :: "(string \<times> string) list list"

definition MastersAndSlavesClient :: "'w redigo \<Rightarrow> string \<Rightarrow> (rclient \<times> 'w, (string \<times> sentinel_group) list) io" where
  "MastersAndSlavesClient R product =
     deferred R
       (bindE (mastersCommand R product) (\<lambda>masters.
        bindE (slavesCommand R (map (\<lambda>e. NodeName product (fst e)) masters)) (\<lambda>slaves.
        ret (map (\<lambda>(groupName, master).
               (NodeName product groupName,
                \<lparr>sgMaster = master,
                 sgSlaves = (case map_of slaves (NodeName product groupName) of None \<Rightarrow> [] | Some x \<Rightarrow> x)\<rparr>))
             masters))))"

definition MastersAndSlaves :: "'w redigo \<Rightarrow> string \<Rightarrow> string \<Rightarrow> int \<Rightarrow> ('w, (string \<times> sentinel_group) list) io" where
  "MastersAndSlaves R product sentinel timeout =
     sentinel_do R sentinel timeout (MastersAndSlavesClient R product)"

definition FlushConfig :: "'w redigo \<Rightarrow> string \<Rightarrow> int \<Rightarrow> ('w, unit) io" where
  "FlushConfig R sentinel timeout =
     sentinel_do R sentinel timeout
       (bindE (Client_Do R ''SENTINEL'' [''flushconfig'']) (\<lambda>_. ret ()))"

end
