(* ===== verification/Service.thy ===== *)
theory Service
  imports Config Mappers RedisSentinel
begin

section \<open>State of the service (topom/service.go, topom/stats.go)\<close>

text \<open>
  \<open>svc\<close> is the Go struct \<open>service\<close>: its configuration, the state of its mappers, its
  two pools of connections, the statistics of the redis servers and of the GSLB servers, the masters the sentinels report
  (\<open>None\<close> for the nil map), the servers the running sentinel watcher was given and the flags.
  \<open>s_world\<close> is everything outside the process. \<open>env\<close> holds the interfaces: the
  coordinator client, the redis connections, the scheduler, an HTTP GET (the status code and
  the result of reading the body) and the clock as the text of the current time.
  The service's mutex makes every operation one step, so an operation is a function on \<open>svc\<close>.
  \<^item> \<open>onGroups\<close>, \<open>onSentinel\<close>, \<open>onGslb\<close>, \<open>onTopom\<close>, \<open>onWorld\<close> run a method of a mapper,
    or a call that only touches the outside, on its part of the state.
  \<^item> \<open>assignGroup k g\<close>, \<open>assignSentinel\<close>, \<open>assignGslb\<close>: an assignment to fields of an
    object obtained from \<open>Info\<close> changes the object in the mapper's cache at once. The
    object under the key \<open>k\<close> is the only one the map refers to under that name
    (\<open>gm_ok\<close>), so writing the entry of \<open>k\<close> is writing the object.
\<close>

record redis_stats =
  rsError :: "error option"
  rsStats :: "(string \<times> string) list"
  rsSentinel :: "(string \<times> sentinel_group) list"
  rsUnixTime :: int
  rsTimeout :: bool

record gslb_stats =
  gsError :: "error option"
  gsUnixTime :: int
  gsTimeout :: bool

definition MasterAddr :: "redis_stats \<Rightarrow> string" where
  "MasterAddr s = (case map_of (rsStats s) ''master_addr'' of Some addr \<Rightarrow> addr | None \<Rightarrow> [])"

definition MasterLinkStatusUp :: string where "MasterLinkStatusUp = ''up''"
definition MasterLinkStatusDown :: string where "MasterLinkStatusDown = ''down''"

definition MasterLinkStatus :: "redis_stats \<Rightarrow> string" where
  "MasterLinkStatus s = (case map_of (rsStats s) ''master_link_status'' of Some addr \<Rightarrow> addr | None \<Rightarrow> [])"

record 'w env =
  en_Client :: "'w client"
  en_Redigo :: "'w redigo"
  en_Sched :: "'w sched"
  en_Http :: "string \<Rightarrow> ('w, int \<times> (error + string)) io"
  en_Now :: "'w \<Rightarrow> string \<times> 'w"

record 'w svc =
  s_config :: dashboard_config
  s_topom :: topom_mapper
  s_groups :: group_mapper
  s_sentinel :: sentinel_mapper
  s_gslb :: gslb_mapper
  s_tfs :: template_files
  s_statsPool :: pool
  s_haPool :: pool
  s_servers :: "(string \<times> redis_stats) list"
  s_haMasters :: "(string \<times> string) list option"
  s_haWatched :: "string list option"
  s_gslbStats :: "(string \<times> gslb_stats) list"
  s_started :: bool
  s_closed :: bool
  s_online :: bool
  s_world :: 'w

definition onGroups :: "(group_mapper \<times> 'w, 'a) io \<Rightarrow> ('w svc, 'a) io" where
  "onGroups m s = (case m (s_groups s, s_world s) of (r, (x, w)) \<Rightarrow> (r, s\<lparr>s_groups := x, s_world := w\<rparr>))"

definition onSentinel :: "(sentinel_mapper \<times> 'w, 'a) io \<Rightarrow> ('w svc, 'a) io" where
  "onSentinel m s = (case m (s_sentinel s, s_world s) of (r, (x, w)) \<Rightarrow> (r, s\<lparr>s_sentinel := x, s_world := w\<rparr>))"

definition onGslb :: "(gslb_mapper \<times> 'w, 'a) io \<Rightarrow> ('w svc, 'a) io" where
  "onGslb m s = (case m (s_gslb s, s_world s) of (r, (x, w)) \<Rightarrow> (r, s\<lparr>s_gslb := x, s_world := w\<rparr>))"

definition onTopom :: "(topom_mapper \<times> 'w, 'a) io \<Rightarrow> ('w svc, 'a) io" where
  "onTopom m s = (case m (s_topom s, s_world s) of (r, (x, w)) \<Rightarrow> (r, s\<lparr>s_topom := x, s_world := w\<rparr>))"

definition onWorld :: "('w, 'a) io \<Rightarrow> ('w svc, 'a) io" where
  "onWorld m s = (case m (s_world s) of (r, w) \<Rightarrow> (r, s\<lparr>s_world := w\<rparr>))"

definition assignGroup :: "string \<Rightarrow> group \<Rightarrow> ('w svc, unit) io" where
  "assignGroup k g = modifyE (\<lambda>s. s\<lparr>s_groups := (s_groups s)\<lparr>gmGroups := AList.update k g (gmGroups (s_groups s))\<rparr>\<rparr>)"

definition assignSentinel :: "sentinel \<Rightarrow> ('w svc, unit) io" where
  "assignSentinel sn = modifyE (\<lambda>s. s\<lparr>s_sentinel := (s_sentinel s)\<lparr>smSentinel := sn\<rparr>\<rparr>)"

definition assignGslb :: "string \<Rightarrow> gslb \<Rightarrow> ('w svc, unit) io" where
  "assignGslb k g = modifyE (\<lambda>s. s\<lparr>s_gslb := (s_gslb s)\<lparr>bmGslbs := AList.update k g (bmGslbs (s_gslb s))\<rparr>\<rparr>)"

definition groupsInfo :: "('w svc, groups) io" where
  "groupsInfo = onGroups groupMapper_Info"

definition sentinelInfo :: "('w svc, sentinel) io" where
  "sentinelInfo = onSentinel sentinelMapper_Info"

definition gslbsInfo :: "('w svc, gslbs) io" where
  "gslbsInfo = onGslb gslbMapper_Info"

definition updateGroup :: "'w env \<Rightarrow> group \<Rightarrow> ('w svc, unit) io" where
  "updateGroup E g = onGroups (groupMapper_Update (en_Client E) g)"

definition updateSentinel :: "'w env \<Rightarrow> sentinel \<Rightarrow> ('w svc, unit) io" where
  "updateSentinel E sn = onSentinel (sentinelMapper_Update (en_Client E) sn)"

definition updateGslb :: "'w env \<Rightarrow> gslb \<Rightarrow> ('w svc, unit) io" where
  "updateGslb E g = onGslb (gslbMapper_Update (en_Client E) g)"

lemma groupsInfo_eq [simp]: "groupsInfo = gets (\<lambda>s. gmGroups (s_groups s))"
  by (rule ext) (simp add: groupsInfo_def onGroups_def groupMapper_Info_def gets_def)

lemma sentinelInfo_eq [simp]: "sentinelInfo = gets (\<lambda>s. smSentinel (s_sentinel s))"
  by (rule ext) (simp add: sentinelInfo_def onSentinel_def sentinelMapper_Info_def gets_def)

lemma gslbsInfo_eq [simp]: "gslbsInfo = gets (\<lambda>s. bmGslbs (s_gslb s))"
  by (rule ext) (simp add: gslbsInfo_def onGslb_def gslbMapper_Info_def gets_def)

end
