(* ===== verification/GslbService.thy ===== *)
theory GslbService
  imports Service
begin

section \<open>GSLB backends (topom/gslb.go, topom/sorter.go, topom/client/gslb)\<close>

text \<open>
  The balancer servers of the product and the backends they are given. \<open>haproxyBackends\<close>
  derives the backends of haproxy from the groups and the last statistics of the redis
  servers; \<open>lvsBackends\<close> derives those of lvs from the cached haproxy object.
  \<^item> \<open>sort.Slice\<close> is a stable insertion here; Go leaves the order of equal keys open, as
    the order of the map is.
  \<^item> \<open>AddGSLB\<close> puts a new object into the live map before it checks anything else, and it
    appends to the slice of the cached object before \<open>Update\<close> compares the two.
  \<^item> Slices are values: an in-place removal that another slice of the same array could see
    is not modelled.
\<close>

subsection \<open>Sorting\<close>

fun insert_group :: "group \<Rightarrow> group list \<Rightarrow> group list" where
  "insert_group g [] = [g]"
| "insert_group g (h # hs) =
     (if gCreateTime h < gCreateTime g then g # h # hs else h # insert_group g hs)"

definition sortGroups :: "groups \<Rightarrow> group list" where
  "sortGroups groups = foldr insert_group (map snd groups) []"

definition sortTemplateFiles :: "template_files \<Rightarrow> string list" where
  "sortTemplateFiles tfs = sort (map fst tfs)"

lemma mset_insert_group: "mset (insert_group g gs) = add_mset g (mset gs)"
  by (induction gs) auto

lemma mset_sortGroups: "mset (sortGroups groups) = mset (map snd groups)"
proof -
  have "mset (foldr insert_group gs []) = mset gs" for gs
    by (induction gs) (auto simp: mset_insert_group)
  then show ?thesis by (simp add: sortGroups_def)
qed

lemma set_sortGroups: "set (sortGroups groups) = snd ` set groups"
  by (metis mset_sortGroups set_map set_mset_mset)

lemma sorted_insert_group:
  "sorted_wrt (\<lambda>a b. gCreateTime b \<le> gCreateTime a) gs \<Longrightarrow>
     sorted_wrt (\<lambda>a b. gCreateTime b \<le> gCreateTime a) (insert_group g gs)"
proof (induction gs)
  case (Cons h hs)
  have "set (insert_group g hs) = insert g (set hs)"
    by (metis mset_insert_group set_mset_add_mset_insert set_mset_mset)
  with Cons show ?case by (auto simp: not_less)
qed simp

lemma sorted_sortGroups: "sorted_wrt (\<lambda>a b. gCreateTime b \<le> gCreateTime a) (sortGroups groups)"
proof -
  have "sorted_wrt (\<lambda>a b. gCreateTime b \<le> gCreateTime a) (foldr insert_group gs [])" for gs
    by (induction gs) (auto simp: sorted_insert_group)
  then show ?thesis by (simp add: sortGroups_def)
qed

subsection \<open>Backends of haproxy\<close>

text \<open>\<open>doFunc\<close> of the source: the server joins the entry of the state.\<close>

definition add_backend :: "int \<Rightarrow> int \<Rightarrow> string \<Rightarrow> gslb_backends \<Rightarrow> gslb_backends" where
  "add_backend state port addr sg =
     (let b = (case map_of sg (ServeState_String state) of
                 Some b \<Rightarrow> b | None \<Rightarrow> \<lparr>bkServers = [], bkPort = port\<rparr>)
      in AList.update (ServeState_String state) (b\<lparr>bkServers := bkServers b @ [addr]\<rparr>) sg)"

text \<open>
  The loop over the servers of a group; \<open>first\<close> tells the master from the rest, \<open>None\<close>
  stands for \<open>bValid = false; break\<close>.
\<close>

definition usable :: "(string \<times> redis_stats) list \<Rightarrow> string \<Rightarrow> redis_stats option" where
  "usable stats addr =
     (case map_of stats addr of
        None \<Rightarrow> None
      | Some rs \<Rightarrow> if rsError rs \<noteq> None \<or> rsTimeout rs then None else Some rs)"

fun backend_loop :: "(string \<times> redis_stats) list \<Rightarrow> group \<Rightarrow> bool \<Rightarrow> group_server list \<Rightarrow> gslb_backends
    \<Rightarrow> gslb_backends option" where
  "backend_loop stats v first [] sg = Some sg"
| "backend_loop stats v first (server # ss) sg =
     (case usable stats (sAddr server) of
        None \<Rightarrow> backend_loop stats v False ss sg
      | Some rs \<Rightarrow>
          if \<not> first \<and> MasterAddr rs \<noteq> GetMaster v then None
          else if \<not> first \<and> MasterLinkStatus rs \<noteq> MasterLinkStatusUp then backend_loop stats v False ss sg
          else
            (let sg1 = add_backend ServeStateRead (gProxyReadPort v) (sAddr server) sg;
                 sg2 = (if first then add_backend ServerStateWrite (gProxyWritePort v) (sAddr server) sg1 else sg1)
             in backend_loop stats v False ss sg2))"

definition group_backend :: "(string \<times> redis_stats) list \<Rightarrow> group \<Rightarrow> gslb_backend_group option" where
  "group_backend stats v =
     (if gServers v = [] then None
      else (case backend_loop stats v True (gServers v) [] of
              None \<Rightarrow> None
            | Some sg \<Rightarrow> Some \<lparr>bgName = gName v, bgServers = [], bgServerGroup = sg\<rparr>))"

definition haproxyBackends :: "('w svc, gslb_backend_group list \<times> string list) io" where
  "haproxyBackends =
     bindE (gets s_servers) (\<lambda>stats.
     bindE (guardE (stats \<noteq> []) (ErrGSLB RedisStatsEmpty)) (\<lambda>_.
     bindE groupsInfo (\<lambda>groups.
     ret (List.map_filter (group_backend stats) (sortGroups groups), []))))"

subsection \<open>Backends of lvs\<close>

fun lvs_servers :: "string \<Rightarrow> string list \<Rightarrow> string list" where
  "lvs_servers sPort [] = []"
| "lvs_servers sPort (vv # vs) =
     (case SplitHostPort vv of
        Inl _ \<Rightarrow> lvs_servers sPort vs
      | Inr (ip, _) \<Rightarrow> JoinHostPort ip sPort # lvs_servers sPort vs)"

fun lvs_group :: "string list \<Rightarrow> gslb_backends \<Rightarrow> gslb_backends \<Rightarrow> gslb_backends" where
  "lvs_group servers [] sg = sg"
| "lvs_group servers ((state, v) # vs) sg =
     (let b = (case map_of sg state of Some b \<Rightarrow> b | None \<Rightarrow> \<lparr>bkServers = [], bkPort = bkPort v\<rparr>)
      in lvs_group servers vs
           (AList.update state (b\<lparr>bkServers := lvs_servers (Itoa (bkPort v)) servers\<rparr>) sg))"

definition lvsBackends :: "string \<Rightarrow> ('w svc, gslb_backend_group list \<times> string list) io" where
  "lvsBackends backendName =
     bindE gslbsInfo (\<lambda>gslbs.
     case map_of gslbs backendName of
       None \<Rightarrow> ret ([], [])
     | Some g \<Rightarrow>
         ret (map (\<lambda>bs. \<lparr>bgName = bgName bs, bgServers = [],
                bgServerGroup = lvs_group (glServers g) (bgServerGroup bs) []\<rparr>) (glBackends g),
              glServers g))"

definition getGSLBBackends :: "string \<Rightarrow> ('w svc, gslb_backend_group list \<times> string list) io" where
  "getGSLBBackends gslbName =
     (if gslbName = ''haproxy'' then haproxyBackends
      else if gslbName = ''lvs'' then lvsBackends ''haproxy''
      else fail (ErrGSLB (UnsupportedGSLB gslbName)))"

subsection \<open>Refreshing\<close>

text \<open>One round of the loop over the map: an error of \<open>Update\<close> is only logged.\<close>

definition refreshOne :: "'w env \<Rightarrow> string \<Rightarrow> ('w svc, unit) io" where
  "refreshOne E name =
     bindE gslbsInfo (\<lambda>gslbs.
     case map_of gslbs name of
       None \<Rightarrow> ret ()
     | Some v \<Rightarrow>
         bindE (getGSLBBackends name) (\<lambda>(backends, monitors).
         bindE (attempt (updateGslb E
                  \<lparr>glName = name, glServers = glServers v, glMonitors = monitors, glBackends = backends\<rparr>)) (\<lambda>_.
         ret ())))"

definition refreshGSLBBackendInfo :: "'w env \<Rightarrow> ('w svc, unit) io" where
  "refreshGSLBBackendInfo E = bindE gslbsInfo (\<lambda>gslbs. forE (map fst gslbs) (refreshOne E))"

subsection \<open>Adding and removing balancer servers\<close>

definition AddGSLB :: "'w env \<Rightarrow> string \<Rightarrow> string \<Rightarrow> ('w svc, unit) io" where
  "AddGSLB E gslbName addr =
     bindE (guardE (addr \<noteq> []) (ErrGSLB InvalidGSLBAddr)) (\<lambda>_.
     bindE gslbsInfo (\<lambda>gslbs.
     bindE (case map_of gslbs gslbName of
              Some g \<Rightarrow> ret g
            | None \<Rightarrow>
                bindE (assignGslb gslbName (zero_gslb\<lparr>glName := gslbName\<rparr>)) (\<lambda>_.
                ret (zero_gslb\<lparr>glName := gslbName\<rparr>))) (\<lambda>g.
     bindE (guardE (addr \<notin> set (glServers g)) (ErrGSLB (GSLBServerExists gslbName addr))) (\<lambda>_.
     let g' = g\<lparr>glServers := glServers g @ [addr]\<rparr> in
     bindE (assignGslb gslbName g') (\<lambda>_.
     bindE (updateGslb E g') (\<lambda>_.
     refreshGSLBBackendInfo E))))))"

definition DelGSLB :: "'w env \<Rightarrow> string \<Rightarrow> string \<Rightarrow> ('w svc, unit) io" where
  "DelGSLB E gslbName addr =
     bindE (guardE (addr \<noteq> []) (ErrGSLB InvalidGSLBAddr)) (\<lambda>_.
     bindE gslbsInfo (\<lambda>gslbs.
     bindE (lookupE gslbs gslbName (ErrGSLB (GSLBNotFound gslbName))) (\<lambda>g.
     let index = index_of (\<lambda>v. v = addr) (glServers g) in
     bindE (guardE (0 \<le> index) (ErrGSLB (GSLBServerNotFound gslbName addr))) (\<lambda>_.
     let g' = g\<lparr>glServers := remove_at (nat index) (glServers g)\<rparr> in
     bindE (assignGslb gslbName g') (\<lambda>_.
     bindE (updateGslb E g') (\<lambda>_.
     bindE (if glServers g' = [] then onGslb (gslbMapper_Delete (en_Client E) g') else ret ()) (\<lambda>_.
     refreshGSLBBackendInfo E)))))))"

definition gslb_Info :: "'w env \<Rightarrow> string \<Rightarrow> ('w, string) io" where
  "gslb_Info E addr =
     bindE (en_Http E (''http://'' @ addr @ ''/status'')) (\<lambda>(status, body).
     bindE (guardE (status = 200) (ErrExt ''http response status code not ok'')) (\<lambda>_.
     liftSum body))"

definition GSLBMonitorInfo :: "'w env \<Rightarrow> string \<Rightarrow> ('w svc, string) io" where
  "GSLBMonitorInfo E addr = onWorld (gslb_Info E addr)"

end
