(* ===== verification/SentinelService.thy ===== *)
theory SentinelService
  imports GslbService
begin

section \<open>Sentinels of the product (topom/sentinel.go)\<close>

text \<open>
  The list of sentinel servers, their resynchronisation, the watcher of the masters and the
  switch of a group's master that follows a failover.
  \<^item> \<open>reWatchSentinels\<close> replaces the running watcher: \<open>s_haWatched\<close> is the list given to
    the new one, \<open>None\<close> when there is none.
  \<^item> \<open>fetchMasters\<close> is what the watcher does on one trigger: at most ten rounds, until two
    have succeeded, each asking the sentinels and handing the answer to \<open>switchMasters\<close>.
  \<^item> \<open>switchMasters\<close> keeps an info cache over the groups; the state of
    \<open>trySwitchGroupMaster\<close> is the pair of that cache and the service.
\<close>

definition sentinel_product :: "('w svc, string \<times> string \<times> int) io" where
  "sentinel_product = gets (\<lambda>s. (ProductName (s_config s), ProductAuth (s_config s), SentinelClientTimeout (s_config s)))"

definition outOfSyncBySentinel :: "'w env \<Rightarrow> ('w svc, unit) io" where
  "outOfSyncBySentinel E =
     bindE sentinelInfo (\<lambda>sentinel.
     if snServers sentinel \<noteq> [] then
       bindE (assignSentinel (sentinel\<lparr>snOutOfSync := True\<rparr>)) (\<lambda>_.
       mapErr ErrUpdateSentinel (updateSentinel E (sentinel\<lparr>snOutOfSync := True\<rparr>)))
     else ret ())"

definition AddSentinel :: "'w env \<Rightarrow> string \<Rightarrow> ('w svc, unit) io" where
  "AddSentinel E addr =
     bindE (guardE (addr \<noteq> []) (ErrSentinel InvalidSentinelAddr)) (\<lambda>_.
     bindE sentinelInfo (\<lambda>sentinel.
     bindE (guardE (addr \<notin> set (snServers sentinel)) (ErrSentinel (SentinelExists addr))) (\<lambda>_.
     bindE sentinel_product (\<lambda>(product, auth, timeout).
     bindE (onWorld (FlushConfig (en_Redigo E) addr timeout)) (\<lambda>_.
     let sentinel' = sentinel\<lparr>snServers := snServers sentinel @ [addr], snOutOfSync := True\<rparr> in
     bindE (assignSentinel sentinel') (\<lambda>_.
     updateSentinel E sentinel'))))))"

definition DelSentinel :: "'w env \<Rightarrow> string \<Rightarrow> bool \<Rightarrow> ('w svc, unit) io" where
  "DelSentinel E addr force =
     bindE (guardE (addr \<noteq> []) (ErrSentinel InvalidSentinelAddr)) (\<lambda>_.
     bindE sentinelInfo (\<lambda>sentinel0.
     let index = index_of (\<lambda>v. v = addr) (snServers sentinel0) in
     bindE (guardE (0 \<le> index) (ErrSentinel (SentinelNotFound addr))) (\<lambda>_.
     let sentinel1 = sentinel0\<lparr>snOutOfSync := True\<rparr> in
     bindE (assignSentinel sentinel1) (\<lambda>_.
     bindE (updateSentinel E sentinel1) (\<lambda>_.
     bindE sentinel_product (\<lambda>(product, auth, timeout).
     bindE (attempt (onWorld (RemoveGroupsAll (en_Sched E) (en_Redigo E) product [addr] timeout))) (\<lambda>r.
     bindE (guardE (r = Inr () \<or> force) (ErrSentinel (RemoveSentinelFailed addr))) (\<lambda>_.
     let sentinel2 = sentinel1\<lparr>snServers := remove_at (nat index) (snServers sentinel1)\<rparr> in
     bindE (assignSentinel sentinel2) (\<lambda>_.
     updateSentinel E sentinel2)))))))))"

definition reWatchSentinels :: "string list \<Rightarrow> ('w svc, unit) io" where
  "reWatchSentinels servers =
     modifyE (\<lambda>s. if servers = [] then s\<lparr>s_haWatched := None, s_haMasters := None\<rparr>
                  else s\<lparr>s_haWatched := Some servers\<rparr>)"

definition monitor_config_of :: "dashboard_config \<Rightarrow> monitor_config" where
  "monitor_config_of c =
     \<lparr>mcQuorum = SentinelQuorum c, mcParallelSyncs = SentinelParallelSyncs c,
      mcDownAfter = SentinelDownAfter c, mcFailoverTimeout = SentinelFailoverTimeout c,
      mcNotificationScript = SentinelNotificationScript c,
      mcClientReconfigScript = SentinelClientReconfigScript c\<rparr>"

definition ResyncSentinels :: "'w env \<Rightarrow> ('w svc, unit) io" where
  "ResyncSentinels E =
     bindE groupsInfo (\<lambda>groups.
     bindE sentinelInfo (\<lambda>sentinel0.
     let sentinel1 = sentinel0\<lparr>snOutOfSync := True\<rparr> in
     bindE (assignSentinel sentinel1) (\<lambda>_.
     bindE (updateSentinel E sentinel1) (\<lambda>_.
     bindE sentinel_product (\<lambda>(product, auth, timeout).
     bindE (gets (\<lambda>s. monitor_config_of (s_config s))) (\<lambda>config.
     bindE (attempt (onWorld (RemoveGroupsAll (en_Sched E) (en_Redigo E) product (snServers sentinel1) timeout))) (\<lambda>_.
     bindE (onWorld (MonitorGroups (en_Sched E) (en_Redigo E) product auth (snServers sentinel1) timeout config
              (GetMasters groups))) (\<lambda>_.
     bindE (reWatchSentinels (snServers sentinel1)) (\<lambda>_.
     let sentinel2 = sentinel1\<lparr>snOutOfSync := False\<rparr> in
     bindE (assignSentinel sentinel2) (\<lambda>_.
     updateSentinel E sentinel2))))))))))"

definition SentinelInfo :: "'w env \<Rightarrow> string \<Rightarrow> ('w svc, string) io" where
  "SentinelInfo E addr =
     onWorld (with_client (en_Redigo E) addr [] time_Second
       (bindE (Client_Info (en_Redigo E)) (\<lambda>(text, _). ret text)))"

definition SentinelMonitoredInfo :: "'w env \<Rightarrow> string \<Rightarrow> ('w svc, (string \<times> sentinel_group) list) io" where
  "SentinelMonitoredInfo E addr =
     bindE sentinel_product (\<lambda>(product, auth, timeout).
     onWorld (MastersAndSlaves (en_Redigo E) product addr timeout))"

subsection \<open>Switching masters\<close>

definition runId :: "'w env \<Rightarrow> string \<Rightarrow> (info_cache \<times> 'w svc, string) io" where
  "runId E addr s =
     (case GetRunId (en_Redigo E) addr (fst s, s_world (snd s)) of
        (rid, (c, w)) \<Rightarrow> (Inr rid, (c, (snd s)\<lparr>s_world := w\<rparr>)))"

text \<open>The second loop of the search, from index \<open>i\<close> on.\<close>

fun find_run_id :: "'w env \<Rightarrow> string \<Rightarrow> int \<Rightarrow> group_server list \<Rightarrow> (info_cache \<times> 'w svc, int) io" where
  "find_run_id E masterAddr i [] = ret (- 1)"
| "find_run_id E masterAddr i (v # vs) =
     bindE (runId E masterAddr) (\<lambda>rid1.
     bindE (runId E (sAddr v)) (\<lambda>rid2.
     if rid1 \<noteq> [] \<and> rid1 = rid2 then ret i else find_run_id E masterAddr (i + 1) vs))"

definition find_master :: "'w env \<Rightarrow> group \<Rightarrow> string \<Rightarrow> (info_cache \<times> 'w svc, int) io" where
  "find_master E g masterAddr =
     (let i = index_of (\<lambda>v. sAddr v = masterAddr) (gServers g)
      in if i \<noteq> - 1 then ret i else find_run_id E masterAddr 0 (gServers g))"

definition switch_to :: "'w env \<Rightarrow> string \<Rightarrow> group \<Rightarrow> int \<Rightarrow> ('w svc, unit) io" where
  "switch_to E groupName g index =
     (let g' = g\<lparr>gServers := swap0 (nat index) (gServers g), gOutOfSync := True\<rparr> in
      bindE (assignGroup groupName g') (\<lambda>_.
      bindE (updateGroup E g') (\<lambda>_.
      refreshGSLBBackendInfo E)))"

definition trySwitchGroupMaster :: "'w env \<Rightarrow> string \<Rightarrow> string \<Rightarrow> (info_cache \<times> 'w svc, unit) io" where
  "trySwitchGroupMaster E groupName masterAddr =
     bindE (onW groupsInfo) (\<lambda>groups.
     bindE (lookupE groups groupName (ErrGroup (GroupNotFound groupName))) (\<lambda>g.
     bindE (find_master E g masterAddr) (\<lambda>index.
     if index = - 1 then
       bindE (runId E masterAddr) (\<lambda>_. fail (ErrSentinel (NoServerWithRunId groupName masterAddr)))
     else if index = 0 then ret ()
     else onW (switch_to E groupName g index))))"

definition switchMasters :: "'w env \<Rightarrow> (string \<times> string) list \<Rightarrow> ('w svc, unit) io" where
  "switchMasters E masters =
     bindE (gets s_closed) (\<lambda>closed.
     bindE (guardE (\<not> closed) ErrClosedTopom) (\<lambda>_.
     bindE (modifyE (\<lambda>s. s\<lparr>s_haMasters := Some masters\<rparr>)) (\<lambda>_ s.
     case forE masters (\<lambda>(groupName, masterAddr).
            bindE (attempt (trySwitchGroupMaster E groupName masterAddr)) (\<lambda>_. ret ()))
          (\<lparr>icAuth = ProductAuth (s_config s), icData = [], icTimeout = 100 * time_Millisecond\<rparr>, s) of
       (r, (_, s')) \<Rightarrow> (r, s'))))"

subsection \<open>The watcher\<close>

definition is_canceled :: "'w env \<Rightarrow> ('w svc, bool) io" where
  "is_canceled E = onWorld (\<lambda>w. case sc_Ctx (en_Sched E) w of (ctx, w') \<Rightarrow> (Inr (ctx \<noteq> None), w'))"

fun fetch_rounds :: "'w env \<Rightarrow> string list \<Rightarrow> nat \<Rightarrow> nat \<Rightarrow> ('w svc, unit) io" where
  "fetch_rounds E servers 0 success = ret ()"
| "fetch_rounds E servers (Suc i) success =
     bindE (is_canceled E) (\<lambda>canceled.
     if canceled \<or> success = 2 then ret ()
     else
       bindE sentinel_product (\<lambda>(product, _, _).
       bindE (attempt (onWorld (Masters (en_Sched E) (en_Redigo E) product servers (5 * time_Second)))) (\<lambda>r.
       case r of
         Inl _ \<Rightarrow> fetch_rounds E servers i success
       | Inr masters \<Rightarrow>
           bindE (is_canceled E) (\<lambda>canceled'.
           bindE (if canceled' then ret () else bindE (attempt (switchMasters E masters)) (\<lambda>_. ret ())) (\<lambda>_.
           fetch_rounds E servers i (Suc success))))))"

definition fetchMasters :: "'w env \<Rightarrow> string list \<Rightarrow> ('w svc, unit) io" where
  "fetchMasters E servers = fetch_rounds E servers 10 0"

end
