(* ===== verification/GroupService.thy ===== *)
theory GroupService
  imports SentinelService
begin

section \<open>Groups and their servers (topom/group.go)\<close>

text \<open>
  The operations on the groups of the product, with the promotion of a server as the state
  machine of the source: \<open>ActionNothing\<close>, \<open>ActionPreparing\<close>, \<open>ActionPrepared\<close>,
  \<open>ActionFinished\<close>, each case of the \<open>switch\<close> falling through to the next, so that a
  promotion that failed half way goes on from the state that was stored.
  \<^item> The first server of a group is its master.
  \<^item> \<open>ResyncGroupAll\<close> runs one goroutine per group, each on its own group; the model runs
    them in the order of the map. A goroutine that never calls \<open>Done\<close> makes \<open>Wait\<close> block
    for ever, which is the result \<open>None\<close>.
\<close>

subsection \<open>Creating and removing groups\<close>

definition ports_conflict :: "int \<Rightarrow> int \<Rightarrow> group \<Rightarrow> bool" where
  "ports_conflict rPort wPort g \<longleftrightarrow>
     (rPort = gProxyReadPort g \<or> rPort = gProxyWritePort g) \<or>
     (wPort = gProxyReadPort g \<or> wPort = gProxyWritePort g)"

definition time_Now :: "'w env \<Rightarrow> ('w svc, string) io" where
  "time_Now E = onWorld (\<lambda>w. case en_Now E w of (t, w') \<Rightarrow> (Inr t, w'))"

definition CreateGroup :: "'w env \<Rightarrow> string \<Rightarrow> int \<Rightarrow> int \<Rightarrow> ('w svc, unit) io" where
  "CreateGroup E groupName rPort wPort =
     bindE (guardE (groupName \<noteq> [] \<and> RuneCountInString groupName \<le> MAXGroupNameBytesLength)
              (ErrGroup (InvalidGroupName groupName))) (\<lambda>_.
     bindE (guardE (rPort \<noteq> wPort) (ErrGroup PortsEqual)) (\<lambda>_.
     bindE groupsInfo (\<lambda>groups.
     bindE (guardE (map_of groups groupName = None) (ErrGroup (GroupExists groupName))) (\<lambda>_.
     bindE (case find (\<lambda>(_, g). ports_conflict rPort wPort g) groups of
              None \<Rightarrow> ret ()
            | Some (_, g) \<Rightarrow> fail (ErrGroup (PortConflict groupName (gName g)))) (\<lambda>_.
     bindE (time_Now E) (\<lambda>now.
     onGroups (groupMapper_Create (en_Client E)
       \<lparr>gName = groupName, gServers = [], gPromotingIndex = 0, gPromotingState = ActionNothing,
        gOutOfSync = False, gProxyReadPort = rPort, gProxyWritePort = wPort, gCreateTime = now\<rparr>)))))))"

definition RemoveGroup :: "'w env \<Rightarrow> string \<Rightarrow> ('w svc, unit) io" where
  "RemoveGroup E groupName =
     bindE groupsInfo (\<lambda>groups.
     bindE (lookupE groups groupName (ErrGroup (GroupNotFound groupName))) (\<lambda>g.
     bindE (guardE (gServers g = []) (ErrGroup (GroupNotEmpty groupName))) (\<lambda>_.
     onGroups (groupMapper_Remove (en_Client E) g))))"

subsection \<open>Resynchronising\<close>

definition doSyncAction :: "'w env \<Rightarrow> string \<Rightarrow> string \<Rightarrow> ('w svc, unit) io" where
  "doSyncAction E addr master =
     bindE (gets (\<lambda>s. ProductAuth (s_config s))) (\<lambda>auth.
     onWorld (with_client (en_Redigo E) addr auth (10 * time_Second) (SetMaster (en_Redigo E) master)))"

definition doForceFullSyncAction :: "'w env \<Rightarrow> string \<Rightarrow> string \<Rightarrow> ('w svc, unit) io" where
  "doForceFullSyncAction E addr master =
     bindE (gets (\<lambda>s. ProductAuth (s_config s))) (\<lambda>auth.
     onWorld (with_client (en_Redigo E) addr auth (10 * time_Second)
       (ForceFullSyncFromMaster (en_Redigo E) master)))"

text \<open>The master that the loop of \<open>resyncGroup\<close> gives to each server.\<close>

definition sync_masters :: "group \<Rightarrow> (string \<times> string) list" where
  "sync_masters g =
     map (\<lambda>(index, server). (sAddr server, if index = 0 then ''NO:ONE'' else GetMaster g))
       (zip [0..<length (gServers g)] (gServers g))"

fun sync_servers :: "'w env \<Rightarrow> string \<Rightarrow> (string \<times> string) list \<Rightarrow> error list \<Rightarrow> ('w svc, error list) io" where
  "sync_servers E name [] multiErr = ret multiErr"
| "sync_servers E name ((addr, master) # ss) multiErr =
     bindE (attempt (doSyncAction E addr master)) (\<lambda>r.
     sync_servers E name ss
       (case r of Inl e \<Rightarrow> multiErr @ [ErrSyncAction name addr master e] | Inr _ \<Rightarrow> multiErr))"

definition resyncGroup :: "'w env \<Rightarrow> string \<Rightarrow> group \<Rightarrow> ('w svc, unit) io" where
  "resyncGroup E k g =
     (if gServers g = [] then ret ()
      else
        bindE (sync_servers E (gName g) (sync_masters g) []) (\<lambda>multiErr.
        if multiErr = [] then ret ()
        else
          bindE (assignGroup k (g\<lparr>gOutOfSync := True\<rparr>)) (\<lambda>_.
          bindE (attempt (updateGroup E (g\<lparr>gOutOfSync := True\<rparr>))) (\<lambda>r.
          fail (ErrMulti (case r of Inl e \<Rightarrow> multiErr @ [e] | Inr _ \<Rightarrow> multiErr))))))"

definition ResyncGroup :: "'w env \<Rightarrow> string \<Rightarrow> ('w svc, unit) io" where
  "ResyncGroup E groupName =
     bindE groupsInfo (\<lambda>groups.
     bindE (lookupE groups groupName (ErrGroup (GroupNotFound groupName))) (\<lambda>g0.
     let g = g0\<lparr>gOutOfSync := False\<rparr> in
     bindE (assignGroup groupName g) (\<lambda>_.
     bindE (updateGroup E g) (\<lambda>_.
     resyncGroup E groupName g))))"

text \<open>One goroutine: the value it gives to \<open>Done\<close>, or \<open>None\<close> when it never calls it.\<close>

definition resync_goroutine :: "'w env \<Rightarrow> string \<Rightarrow> group \<Rightarrow> ('w svc, error option) io" where
  "resync_goroutine E k g0 =
     (let g = g0\<lparr>gOutOfSync := False\<rparr> in
      bindE (assignGroup k g) (\<lambda>_.
      bindE (attempt (updateGroup E g)) (\<lambda>r.
      case r of
        Inl e \<Rightarrow> ret (Some (ErrResyncAll (gName g) e))
      | Inr _ \<Rightarrow>
          bindE (attempt (resyncGroup E k g)) (\<lambda>r'.
          ret (case r' of Inl e \<Rightarrow> Some e | Inr _ \<Rightarrow> None)))))"

fun resync_goroutines :: "'w env \<Rightarrow> groups \<Rightarrow> ('w svc, error option list) io" where
  "resync_goroutines E [] = ret []"
| "resync_goroutines E ((k, g) # gs) =
     bindE (resync_goroutine E k g) (\<lambda>d.
     bindE (resync_goroutines E gs) (\<lambda>ds. ret (d # ds)))"

text \<open>\<open>fut.Wait\<close>: \<open>None\<close> when some goroutine has not called \<open>Done\<close>.\<close>

definition ResyncGroupAll :: "'w env \<Rightarrow> 'w svc \<Rightarrow> (error + unit) option \<times> 'w svc" where
  "ResyncGroupAll E s =
     (case bindE groupsInfo (resync_goroutines E) s of (r, s') \<Rightarrow>
       (case r of
          Inl e \<Rightarrow> (Some (Inl e), s')
        | Inr ds \<Rightarrow>
            (case all_some ds of
               None \<Rightarrow> (None, s')
             | Some [] \<Rightarrow> (Some (Inr ()), s')
             | Some (e # _) \<Rightarrow> (Some (Inl e), s'))))"

subsection \<open>Adding and removing servers\<close>

definition AddGroupServer :: "'w env \<Rightarrow> string \<Rightarrow> string \<Rightarrow> ('w svc, unit) io" where
  "AddGroupServer E groupName addr =
     bindE (guardE (addr \<noteq> []) (ErrGroup InvalidServerAddr)) (\<lambda>_.
     bindE groupsInfo (\<lambda>groups.
     bindE (guardE (list_all (\<lambda>(_, g). addr \<notin> set (addrs g)) groups) (ErrGroup (ServerExists addr))) (\<lambda>_.
     bindE (lookupE groups groupName (ErrGroup (GroupNotFound groupName))) (\<lambda>g.
     bindE (outOfSyncBySentinel E) (\<lambda>_.
     let g' = g\<lparr>gServers := gServers g @ [\<lparr>sAddr = addr\<rparr>]\<rparr> in
     bindE (assignGroup groupName g') (\<lambda>_.
     bindE (updateGroup E g') (\<lambda>_.
     refreshGSLBBackendInfo E)))))))"

text \<open>What removing the server at index \<open>i\<close> makes of a group.\<close>

definition without_server :: "int \<Rightarrow> group \<Rightarrow> group" where
  "without_server i g =
     (let servers = remove_at (nat i) (gServers g)
      in g\<lparr>gServers := servers,
           gOutOfSync := (if servers = [] then False else if i \<noteq> 0 then True else gOutOfSync g)\<rparr>)"

definition DelGroupServer :: "'w env \<Rightarrow> string \<Rightarrow> string \<Rightarrow> ('w svc, unit) io" where
  "DelGroupServer E groupName addr =
     bindE groupsInfo (\<lambda>groups.
     bindE (lookupE groups groupName (ErrGroup (GroupNotFound groupName))) (\<lambda>g.
     let index = GetServerIndex g addr in
     bindE (guardE (index \<noteq> - 1) (ErrGroup (NoSuchServer groupName addr))) (\<lambda>_.
     bindE (guardE (\<not> (index = 0 \<and> 1 < length (gServers g))) (ErrGroup (RemoveMaster groupName))) (\<lambda>_.
     bindE (outOfSyncBySentinel E) (\<lambda>_.
     let g' = without_server index g in
     bindE (assignGroup groupName g') (\<lambda>_.
     bindE (updateGroup E g') (\<lambda>_.
     refreshGSLBBackendInfo E)))))))"

subsection \<open>Promoting a server\<close>

definition promoteFinished :: "'w env \<Rightarrow> group \<Rightarrow> ('w svc, unit) io" where
  "promoteFinished E g =
     updateGroup E
       \<lparr>gName = gName g, gServers = gServers g, gPromotingIndex = 0, gPromotingState = ActionNothing,
        gOutOfSync = False, gProxyReadPort = gProxyReadPort g, gProxyWritePort = gProxyWritePort g,
        gCreateTime = gCreateTime g\<rparr>"

definition promote_sentinel :: "'w env \<Rightarrow> group \<Rightarrow> ('w svc, unit) io" where
  "promote_sentinel E g =
     bindE sentinelInfo (\<lambda>sentinel.
     if snServers sentinel \<noteq> [] then
       bindE (assignSentinel (sentinel\<lparr>snOutOfSync := True\<rparr>)) (\<lambda>_.
       bindE (updateSentinel E (sentinel\<lparr>snOutOfSync := True\<rparr>)) (\<lambda>_.
       bindE sentinel_product (\<lambda>(product, auth, timeout).
       bindE (attempt (onWorld (RemoveGroups (en_Sched E) (en_Redigo E) product (snServers sentinel) timeout [gName g]))) (\<lambda>_.
       modifyE (\<lambda>s. s\<lparr>s_haMasters := map_option (AList.delete (gName g)) (s_haMasters s)\<rparr>)))))
     else ret ())"

definition promotePrepared :: "'w env \<Rightarrow> string \<Rightarrow> group \<Rightarrow> ('w svc, unit) io" where
  "promotePrepared E k g =
     bindE (promote_sentinel E g) (\<lambda>_.
     let g' = g\<lparr>gServers := swap0 (nat (gPromotingIndex g)) (gServers g),
                gPromotingIndex := 0, gPromotingState := ActionFinished\<rparr> in
     bindE (assignGroup k g') (\<lambda>_.
     bindE (updateGroup E g') (\<lambda>_.
     bindE (attempt (resyncGroup E k g')) (\<lambda>_.
     promoteFinished E g'))))"

definition promotePreparing :: "'w env \<Rightarrow> string \<Rightarrow> group \<Rightarrow> ('w svc, unit) io" where
  "promotePreparing E k g =
     (let g' = g\<lparr>gPromotingState := ActionPrepared\<rparr> in
      bindE (assignGroup k g') (\<lambda>_.
      bindE (updateGroup E g') (\<lambda>_.
      promotePrepared E k g')))"

definition promoteNothing :: "'w env \<Rightarrow> string \<Rightarrow> group \<Rightarrow> int \<Rightarrow> ('w svc, unit) io" where
  "promoteNothing E k g index =
     (let g' = g\<lparr>gPromotingIndex := index, gPromotingState := ActionPreparing\<rparr> in
      bindE (assignGroup k g') (\<lambda>_.
      bindE (updateGroup E g') (\<lambda>_.
      promotePreparing E k g')))"

definition GroupPromoteServer :: "'w env \<Rightarrow> string \<Rightarrow> string \<Rightarrow> ('w svc, unit) io" where
  "GroupPromoteServer E groupName addr =
     bindE groupsInfo (\<lambda>groups.
     bindE (lookupE groups groupName (ErrGroup (GroupNotFound groupName))) (\<lambda>g.
     let index = GetServerIndex g addr in
     bindE (guardE (index \<noteq> - 1) (ErrGroup (NoSuchServer groupName addr))) (\<lambda>_.
     bindE (if gPromotingState g \<noteq> ActionNothing
            then guardE (index = gPromotingIndex g) (ErrGroup (PromotingIndex (gName g) (gPromotingIndex g)))
            else guardE (index \<noteq> 0) (ErrGroup (PromoteMaster (gName g)))) (\<lambda>_.
     if gPromotingState g = ActionNothing then promoteNothing E groupName g index
     else if gPromotingState g = ActionPreparing then promotePreparing E groupName g
     else if gPromotingState g = ActionPrepared then promotePrepared E groupName g
     else if gPromotingState g = ActionFinished then promoteFinished E g
     else fail (ErrGroup (ActionStateInvalid (gName g)))))))"

definition GroupForceFullSyncServer :: "'w env \<Rightarrow> string \<Rightarrow> string \<Rightarrow> ('w svc, unit) io" where
  "GroupForceFullSyncServer E groupName addr =
     bindE groupsInfo (\<lambda>groups.
     bindE (lookupE groups groupName (ErrGroup (GroupNotFound groupName))) (\<lambda>g.
     let index = GetServerIndex g addr in
     bindE (guardE (index \<noteq> - 1) (ErrGroup (NoSuchServer groupName addr))) (\<lambda>_.
     bindE (guardE (index \<noteq> 0) (ErrGroup (MasterNotAllowed groupName addr))) (\<lambda>_.
     bindE (guardE (gPromotingState g = ActionNothing) (ErrGroup (GroupPromoting (gName g)))) (\<lambda>_.
     doForceFullSyncAction E (sAddr (gServers g ! nat index)) (GetMaster g))))))"

definition ServerInfo :: "'w env \<Rightarrow> string \<Rightarrow> ('w svc, string) io" where
  "ServerInfo E addr =
     bindE (gets (\<lambda>s. ProductAuth (s_config s))) (\<lambda>auth.
     onWorld (with_client (en_Redigo E) addr auth (3 * time_Second)
       (bindE (EnableKeySpace (en_Redigo E)) (\<lambda>_.
        bindE (InfoFull (en_Redigo E)) (\<lambda>(text, _). ret text)))))"

definition service_Info :: "('w svc, groups) io" where
  "service_Info = groupsInfo"

end
