(* ===== verification/Lifecycle.thy ===== *)
theory Lifecycle
  imports GroupService
begin

section \<open>Life of the service, statistics and views (topom/service.go, topom/stats.go)\<close>

text \<open>
  Starting and closing the service, the collection of the statistics and the read-only views.
  \<^item> \<open>Start\<close> tries to create the product's node until it succeeds or the service is closed.
    The number of tries is bounded by \<open>fuel\<close>; \<open>None\<close> is a \<open>Start\<close> that is still trying.
  \<^item> The goroutines of a collection of statistics run one after the other; the collection is
    stored when all have answered.
\<close>

subsection \<open>Creation, start and close\<close>

definition NewService :: "dashboard_config \<Rightarrow> topom_mapper \<Rightarrow> group_mapper \<Rightarrow> sentinel_mapper \<Rightarrow> gslb_mapper
    \<Rightarrow> template_files \<Rightarrow> 'w \<Rightarrow> 'w svc" where
  "NewService config tm gm sm bm tfs w =
     \<lparr>s_config = config, s_topom = tm, s_groups = gm, s_sentinel = sm, s_gslb = bm, s_tfs = tfs,
      s_statsPool = NewPool (ProductAuth config) (5 * time_Second),
      s_haPool = NewPool [] (5 * time_Second),
      s_servers = [], s_haMasters = None, s_haWatched = None, s_gslbStats = [],
      s_started = False, s_closed = False, s_online = False, s_world = w\<rparr>"

definition onStatsPool :: "(pool \<times> 'w, 'a) io \<Rightarrow> ('w svc, 'a) io" where
  "onStatsPool m s = (case m (s_statsPool s, s_world s) of (r, (p, w)) \<Rightarrow> (r, s\<lparr>s_statsPool := p, s_world := w\<rparr>))"

definition onHaPool :: "(pool \<times> 'w, 'a) io \<Rightarrow> ('w svc, 'a) io" where
  "onHaPool m s = (case m (s_haPool s, s_world s) of (r, (p, w)) \<Rightarrow> (r, s\<lparr>s_haPool := p, s_world := w\<rparr>))"

definition service_Close :: "'w env \<Rightarrow> ('w svc, unit) io" where
  "service_Close E =
     bindE (gets s_closed) (\<lambda>closed.
     if closed then ret ()
     else
       bindE (modifyE (\<lambda>s. s\<lparr>s_closed := True\<rparr>)) (\<lambda>_.
       bindE (attempt (onStatsPool (Pool_Close (en_Redigo E)))) (\<lambda>_.
       bindE (attempt (onHaPool (Pool_Close (en_Redigo E)))) (\<lambda>_.
       bindE (attempt (onTopom (topomMapper_Delete (en_Client E)))) (\<lambda>r.
       bindE (gets (\<lambda>s. ProductName (s_config s))) (\<lambda>product.
       bindE (guardE (r = Inr ()) (ErrDeleteTopom product)) (\<lambda>_.
       modifyE (\<lambda>s. s\<lparr>s_online := False\<rparr>)))))))) "

definition IsOnline :: "'w svc \<Rightarrow> bool" where
  "IsOnline s = s_online s"

definition is_done :: "'w env \<Rightarrow> 'w svc \<Rightarrow> bool \<times> 'w svc" where
  "is_done E s = (case sc_Done (en_Sched E) (s_world s) of (d, w) \<Rightarrow> (d, s\<lparr>s_world := w\<rparr>))"

text \<open>\<open>Some True\<close>: the node is created; \<open>Some False\<close>: the service was closed meanwhile.\<close>

fun start_loop :: "'w env \<Rightarrow> nat \<Rightarrow> 'w svc \<Rightarrow> bool option \<times> 'w svc" where
  "start_loop E 0 s = (None, s)"
| "start_loop E (Suc fuel) s =
     (case is_done E s of (d, s1) \<Rightarrow>
      if d then (Some False, s1)
      else (case onTopom (topomMapper_Create (en_Client E)) s1 of (r, s2) \<Rightarrow>
            (case r of
               Inr _ \<Rightarrow> (Some True, s2)
             | Inl _ \<Rightarrow>
                 (case is_done E s2 of (d', s3) \<Rightarrow>
                  if d' then (Some False, s3) else start_loop E fuel s3))))"

definition service_Start :: "'w env \<Rightarrow> nat \<Rightarrow> 'w svc \<Rightarrow> (error + unit) option \<times> 'w svc" where
  "service_Start E fuel s =
     (if s_closed s then (Some (Inl ErrClosedTopom), s)
      else if s_started s then (Some (Inr ()), s)
      else (case start_loop E fuel (s\<lparr>s_started := True\<rparr>) of (r, s1) \<Rightarrow>
            (case r of
               None \<Rightarrow> (None, s1)
             | Some False \<Rightarrow> (Some (Inr ()), s1)
             | Some True \<Rightarrow>
                 (case bindE (modifyE (\<lambda>s. s\<lparr>s_online := True\<rparr>)) (\<lambda>_.
                       bindE sentinelInfo (\<lambda>sentinel. reWatchSentinels (snServers sentinel))) s1 of
                    (r', s2) \<Rightarrow> (Some r', s2)))))"

subsection \<open>Statistics\<close>

definition zero_redis_stats :: redis_stats where
  "zero_redis_stats = \<lparr>rsError = None, rsStats = [], rsSentinel = [], rsUnixTime = 0, rsTimeout = False\<rparr>"

definition timer :: "'w env \<Rightarrow> ('w svc, bool) io" where
  "timer E = onWorld (\<lambda>w. case sc_After (en_Sched E) w of (b, w') \<Rightarrow> (Inr b, w'))"

definition unix_now :: "'w env \<Rightarrow> ('w svc, int) io" where
  "unix_now E = gets (\<lambda>s. rd_Now (en_Redigo E) (s_world s) div time_Second)"

definition newRedisStats :: "'w env \<Rightarrow> ('w svc, (string \<times> string) list \<times> (string \<times> sentinel_group) list) io
    \<Rightarrow> ('w svc, redis_stats) io" where
  "newRedisStats E do =
     bindE (attempt do) (\<lambda>r.
     bindE (timer E) (\<lambda>fired.
     ret (if fired then zero_redis_stats\<lparr>rsTimeout := True\<rparr>
          else (case r of
                  Inl e \<Rightarrow> zero_redis_stats\<lparr>rsError := Some e\<rparr>
                | Inr (stats, sen) \<Rightarrow> zero_redis_stats\<lparr>rsStats := stats, rsSentinel := sen\<rparr>))))"

definition server_stats :: "'w env \<Rightarrow> string \<Rightarrow> ('w svc, (string \<times> string) list \<times> (string \<times> sentinel_group) list) io" where
  "server_stats E addr =
     bindE (onStatsPool (Pool_InfoFull (en_Redigo E) addr)) (\<lambda>(_, m). ret (m, []))"

definition sentinel_stats :: "'w env \<Rightarrow> string \<Rightarrow> ('w svc, (string \<times> string) list \<times> (string \<times> sentinel_group) list) io" where
  "sentinel_stats E addr =
     bindE (gets (\<lambda>s. ProductName (s_config s))) (\<lambda>product.
     onHaPool (with_pooled (en_Redigo E) addr
       (bindE (Client_Info (en_Redigo E)) (\<lambda>(_, m).
        bindE (MastersAndSlavesClient (en_Redigo E) product) (\<lambda>p. ret (m, p))))))"

fun goStats :: "'w env \<Rightarrow> (string \<times> ('w svc, (string \<times> string) list \<times> (string \<times> sentinel_group) list) io) list
    \<Rightarrow> (string \<times> redis_stats) list \<Rightarrow> ('w svc, (string \<times> redis_stats) list) io" where
  "goStats E [] vmap = ret vmap"
| "goStats E ((addr, do) # ds) vmap =
     bindE (newRedisStats E do) (\<lambda>stats.
     bindE (unix_now E) (\<lambda>t.
     goStats E ds (AList.update addr (stats\<lparr>rsUnixTime := t\<rparr>) vmap)))"

definition refreshRedisStats :: "'w env \<Rightarrow> ('w svc, unit) io" where
  "refreshRedisStats E =
     bindE groupsInfo (\<lambda>groups.
     bindE sentinelInfo (\<lambda>sentinel.
     bindE (goStats E (map (\<lambda>a. (a, server_stats E a)) (concat (map (addrs \<circ> snd) groups)) @
                       map (\<lambda>a. (a, sentinel_stats E a)) (snServers sentinel)) []) (\<lambda>stats.
     modifyE (\<lambda>s. s\<lparr>s_servers := stats\<rparr>))))"

definition newGSLBStats :: "'w env \<Rightarrow> string \<Rightarrow> ('w svc, gslb_stats) io" where
  "newGSLBStats E addr =
     bindE (attempt (onWorld (gslb_Info E addr))) (\<lambda>r.
     bindE (timer E) (\<lambda>fired.
     ret (if fired then \<lparr>gsError = None, gsUnixTime = 0, gsTimeout = True\<rparr>
          else \<lparr>gsError = (case r of Inl e \<Rightarrow> Some e | Inr _ \<Rightarrow> None), gsUnixTime = 0, gsTimeout = False\<rparr>)))"

fun goGSLBStats :: "'w env \<Rightarrow> string list \<Rightarrow> (string \<times> gslb_stats) list \<Rightarrow> ('w svc, (string \<times> gslb_stats) list) io" where
  "goGSLBStats E [] vmap = ret vmap"
| "goGSLBStats E (addr # as) vmap =
     bindE (newGSLBStats E addr) (\<lambda>stats.
     bindE (unix_now E) (\<lambda>t.
     goGSLBStats E as (AList.update addr (stats\<lparr>gsUnixTime := t\<rparr>) vmap)))"

definition refreshGSLBStats :: "'w env \<Rightarrow> ('w svc, unit) io" where
  "refreshGSLBStats E =
     bindE gslbsInfo (\<lambda>gslbs.
     bindE (goGSLBStats E (concat (map (glServers \<circ> snd) gslbs)) []) (\<lambda>stats.
     modifyE (\<lambda>s. s\<lparr>s_gslbStats := stats\<rparr>)))"

text \<open>One round of \<open>doStats\<close>: the errors are logged.\<close>

definition doStats_round :: "'w env \<Rightarrow> ('w svc, unit) io" where
  "doStats_round E =
     bindE (attempt (refreshRedisStats E)) (\<lambda>_.
     bindE (attempt (refreshGSLBStats E)) (\<lambda>_.
     bindE (attempt (refreshGSLBBackendInfo E)) (\<lambda>_. ret ())))"

text \<open>The loop: each \<open>d\<close> is what one look at the channel \<open>done\<close> finds, before a round and while waiting.\<close>

fun doStats :: "'w env \<Rightarrow> bool list \<Rightarrow> 'w svc \<Rightarrow> 'w svc" where
  "doStats E [] s = s"
| "doStats E [d] s = (if d then s else snd (doStats_round E s))"
| "doStats E (d # d' # ds) s =
     (if d then s
      else if d' then snd (doStats_round E s)
      else doStats E ds (snd (doStats_round E s)))"

subsection \<open>Views\<close>

record protocol_group =
  pgName :: string
  pgServers :: "string list"
  pgPromotingIndex :: int
  pgPromotingState :: string
  pgOutOfSync :: bool
  pgProxyReadPort :: int
  pgProxyWritePort :: int

record protocol_stats =
  psClosed :: bool
  psGroups :: "protocol_group list"
  psGroupStats :: "(string \<times> redis_stats) list"
  psSentinel :: sentinel
  psHAStats :: "(string \<times> redis_stats) list"
  psHAMasters :: "(string \<times> string) list"
  psGslbs :: "(string \<times> string list) list"
  psGslbStats :: "(string \<times> gslb_stats) list"
  psFileNames :: "string list"

definition protocol_group_of :: "group \<Rightarrow> protocol_group" where
  "protocol_group_of g =
     \<lparr>pgName = gName g, pgServers = addrs g, pgPromotingIndex = gPromotingIndex g,
      pgPromotingState = gPromotingState g, pgOutOfSync = gOutOfSync g,
      pgProxyReadPort = gProxyReadPort g, pgProxyWritePort = gProxyWritePort g\<rparr>"

text \<open>The statistics of the addresses that have any, in a map.\<close>

fun stats_at :: "(string \<times> 'a) list \<Rightarrow> string list \<Rightarrow> (string \<times> 'a) list \<Rightarrow> (string \<times> 'a) list" where
  "stats_at stats [] m = m"
| "stats_at stats (a # as) m =
     stats_at stats as (case map_of stats a of Some v \<Rightarrow> AList.update a v m | None \<Rightarrow> m)"

definition service_Stats :: "('w svc, protocol_stats) io" where
  "service_Stats =
     bindE groupsInfo (\<lambda>groups.
     bindE sentinelInfo (\<lambda>sentinel.
     bindE gslbsInfo (\<lambda>gslbs.
     gets (\<lambda>s.
       \<lparr>psClosed = s_closed s,
        psGroups = map protocol_group_of (sortGroups groups),
        psGroupStats = stats_at (s_servers s) (concat (map (addrs \<circ> snd) groups)) [],
        psSentinel = sentinel,
        psHAStats = stats_at (s_servers s) (snServers sentinel) [],
        psHAMasters = (case s_haMasters s of None \<Rightarrow> [] | Some m \<Rightarrow> m),
        psGslbs = foldl (\<lambda>m g. AList.update (glName g) (glServers g) m) [] (map snd gslbs),
        psGslbStats = stats_at (s_gslbStats s) (concat (map (glServers \<circ> snd) gslbs)) [],
        psFileNames = sortTemplateFiles (s_tfs s)\<rparr>))))"

definition service_Topom :: "('w svc, topom) io" where
  "service_Topom = onTopom topomMapper_Info"

record overview =
  ovConfig :: dashboard_config
  ovModel :: topom
  ovStats :: protocol_stats

definition Overview :: "('w svc, overview) io" where
  "Overview =
     bindE service_Topom (\<lambda>topom.
     bindE service_Stats (\<lambda>stats.
     gets (\<lambda>s. \<lparr>ovConfig = s_config s, ovModel = topom, ovStats = stats\<rparr>)))"

definition ViewTemplateFile :: "string \<Rightarrow> ('w svc, string) io" where
  "ViewTemplateFile fileName =
     bindE (gets s_tfs) (\<lambda>tfs.
     bindE (lookupE tfs fileName (ErrTemplateNotFound fileName)) (\<lambda>tf. ret (tfData tf)))"

end
