(* ===== verification/ServiceInvariant.thy ===== *)
theory ServiceInvariant
  imports Lifecycle
begin

section \<open>The invariant of the service\<close>

text \<open>
  What every operation keeps, also when it returns an error half way:
  \<^item> \<open>groups_inv\<close>: each group is cached once and under its own name, no two ports of the
    product are equal, no address serves twice, the promotion state is one the state machine
    knows and points nowhere when no promotion is under way;
  \<^item> \<open>sentinel_inv\<close>: no sentinel is listed twice;
  \<^item> \<open>gslb_inv\<close>: each GSLB is cached once and under its own name, without repeated servers.
  The triples below carry an arbitrary assertion \<open>P\<close> on the three caches, so they serve the
  invariant and the exact effects alike.
\<close>

subsection \<open>The invariants\<close>

definition ports :: "group \<Rightarrow> int list" where
  "ports g = [gProxyReadPort g, gProxyWritePort g]"

definition ports_ok :: "groups \<Rightarrow> bool" where
  "ports_ok gs \<longleftrightarrow> distinct (concat (map (ports \<circ> snd) gs))"

definition addrs_ok :: "groups \<Rightarrow> bool" where
  "addrs_ok gs \<longleftrightarrow> distinct (concat (map (addrs \<circ> snd) gs))"

definition promo_wf :: "group \<Rightarrow> bool" where
  "promo_wf g \<longleftrightarrow>
     0 \<le> gPromotingIndex g \<and>
     gPromotingState g \<in> {ActionNothing, ActionPreparing, ActionPrepared, ActionFinished} \<and>
     (gPromotingState g \<in> {ActionNothing, ActionFinished} \<longrightarrow> gPromotingIndex g = 0)"

definition groups_inv :: "group_mapper \<Rightarrow> bool" where
  "groups_inv m \<longleftrightarrow>
     gm_ok m \<and> ports_ok (gmGroups m) \<and> addrs_ok (gmGroups m) \<and> list_all (promo_wf \<circ> snd) (gmGroups m)"

definition sentinel_inv :: "sentinel_mapper \<Rightarrow> bool" where
  "sentinel_inv m \<longleftrightarrow> distinct (snServers (smSentinel m))"

definition gslb_named :: "(string \<times> gslb) \<Rightarrow> bool" where
  "gslb_named e \<longleftrightarrow> glName (snd e) = fst e \<and> distinct (glServers (snd e))"

definition gslb_inv :: "gslb_mapper \<Rightarrow> bool" where
  "gslb_inv m \<longleftrightarrow> distinct (map fst (bmGslbs m)) \<and> list_all gslb_named (bmGslbs m)"

definition svc_inv :: "'w svc \<Rightarrow> bool" where
  "svc_inv s \<longleftrightarrow> groups_inv (s_groups s) \<and> sentinel_inv (s_sentinel s) \<and> gslb_inv (s_gslb s)"

definition gm_put :: "string \<Rightarrow> group \<Rightarrow> group_mapper \<Rightarrow> group_mapper" where
  "gm_put k g m = m\<lparr>gmGroups := AList.update k g (gmGroups m)\<rparr>"

definition gm_at :: "group_mapper \<Rightarrow> string \<Rightarrow> group option" where
  "gm_at m k = map_of (gmGroups m) k"

text \<open>The changes in place that the operations make to a cached group.\<close>

definition same_identity :: "group \<Rightarrow> group \<Rightarrow> bool" where
  "same_identity g g' \<longleftrightarrow>
     gName g' = gName g \<and> ports g' = ports g \<and> mset (addrs g') \<subseteq># mset (addrs g) \<and> promo_wf g'"

lemma gm_ok_put_at:
  "gm_ok m \<Longrightarrow> gm_at m k = Some g \<Longrightarrow> gName g' = gName g \<Longrightarrow> gm_ok (gm_put k g' m)"
  using named_map_of [of m k g]
  by (simp add: gm_ok_def gm_put_def gm_at_def list_all_update named_def)

lemma groups_inv_put:
  assumes "groups_inv m" and "gm_at m k = Some g" and "same_identity g g'"
  shows "groups_inv (gm_put k g' m)"
proof -
  have k: "map_of (gmGroups m) k = Some g" using assms(2) by (simp add: gm_at_def)
  from mset_concat_update [OF k, of ports g'] assms(3)
  have "mset (concat (map (ports \<circ> snd) (AList.update k g' (gmGroups m)))) =
      mset (concat (map (ports \<circ> snd) (gmGroups m)))"
    by (simp add: same_identity_def)
  then have "ports_ok (gmGroups (gm_put k g' m))"
    using assms(1) by (auto simp: groups_inv_def ports_ok_def gm_put_def dest: mset_eq_imp_distinct_iff)
  moreover have "addrs_ok (gmGroups (gm_put k g' m))"
  proof -
    from assms(3) have "mset (addrs g') \<subseteq># mset (addrs g)" by (simp add: same_identity_def)
    then have "mset (concat (map (addrs \<circ> snd) (AList.update k g' (gmGroups m)))) \<subseteq>#
        mset (concat (map (addrs \<circ> snd) (gmGroups m)))"
      using mset_concat_update [OF k, of addrs g']
      by (metis subset_mset.add_le_cancel_left subset_mset.add_le_cancel_right union_commute)
    with assms(1) show ?thesis
      by (auto simp: groups_inv_def addrs_ok_def gm_put_def intro: distinct_subseteq)
  qed
  moreover have "gm_ok (gm_put k g' m)"
    using assms by (auto simp: groups_inv_def same_identity_def intro: gm_ok_put_at)
  moreover have "list_all (promo_wf \<circ> snd) (gmGroups (gm_put k g' m))"
    using assms by (auto simp: groups_inv_def same_identity_def gm_put_def intro: list_all_update)
  ultimately show ?thesis by (simp add: groups_inv_def)
qed

lemma groups_inv_add_server:
  assumes "groups_inv m" and "gm_at m k = Some g" and "\<forall>e \<in> set (gmGroups m). a \<notin> set (addrs (snd e))"
    and "addrs g' = addrs g @ [a]" and "gName g' = gName g" and "ports g' = ports g" and "promo_wf g'"
  shows "groups_inv (gm_put k g' m)"
proof -
  have k: "map_of (gmGroups m) k = Some g" using assms(2) by (simp add: gm_at_def)
  from mset_concat_update [OF k, of addrs g'] assms(4)
  have "mset (concat (map (addrs \<circ> snd) (AList.update k g' (gmGroups m)))) =
      mset (a # concat (map (addrs \<circ> snd) (gmGroups m)))"
    by simp
  moreover have "distinct (a # concat (map (addrs \<circ> snd) (gmGroups m)))"
    using assms(1,3) by (auto simp: groups_inv_def addrs_ok_def)
  ultimately have "distinct (concat (map (addrs \<circ> snd) (AList.update k g' (gmGroups m))))"
    by (metis mset_eq_imp_distinct_iff)
  then have "addrs_ok (gmGroups (gm_put k g' m))" by (simp add: addrs_ok_def gm_put_def)
  moreover from mset_concat_update [OF k, of ports g'] assms(6)
  have "mset (concat (map (ports \<circ> snd) (AList.update k g' (gmGroups m)))) =
      mset (concat (map (ports \<circ> snd) (gmGroups m)))"
    by simp
  then have "ports_ok (gmGroups (gm_put k g' m))"
    using assms(1) by (auto simp: groups_inv_def ports_ok_def gm_put_def dest: mset_eq_imp_distinct_iff)
  ultimately show ?thesis
    using assms gm_ok_put_at [OF _ assms(2,5)]
    by (auto simp: groups_inv_def gm_put_def intro: list_all_update)
qed

lemma groups_inv_new:
  assumes "groups_inv m" and "gm_at m (gName g) = None" and "CHR ''/'' \<notin> set (gName g)"
    and "gServers g = []" and "promo_wf g" and "gProxyReadPort g \<noteq> gProxyWritePort g"
    and "\<forall>e \<in> set (gmGroups m). set (ports g) \<inter> set (ports (snd e)) = {}"
  shows "groups_inv (gm_put (gName g) g m)"
proof -
  have n: "map_of (gmGroups m) (gName g) = None" using assms(2) by (simp add: gm_at_def)
  have "ports_ok (gmGroups (gm_put (gName g) g m))"
    using assms(1,6,7) by (auto simp: ports_ok_def gm_put_def concat_update_new [OF n] groups_inv_def ports_def)
  moreover have "addrs_ok (gmGroups (gm_put (gName g) g m))"
    using assms(1,4) by (simp add: addrs_ok_def gm_put_def concat_update_new [OF n] groups_inv_def addrs_def)
  ultimately show ?thesis
    using assms by (simp add: groups_inv_def gm_put_def gm_ok_def list_all_update named_def)
qed

lemma groups_inv_delete:
  assumes "groups_inv m"
  shows "groups_inv (m\<lparr>gmGroups := AList.delete k (gmGroups m)\<rparr>)"
  using assms
  by (auto simp: groups_inv_def gm_ok_def ports_ok_def addrs_ok_def list_all_delete
      intro: distinct_subseteq [OF _ mset_concat_delete])

lemma groups_invD:
  assumes "groups_inv m" and "gm_at m k = Some g"
  shows "gName g = k" and "promo_wf g" and "distinct (addrs g)" and "CHR ''/'' \<notin> set k"
proof -
  have mem: "(k, g) \<in> set (gmGroups m)" using assms(2) by (simp add: gm_at_def map_of_SomeD)
  show "gName g = k" and "CHR ''/'' \<notin> set k"
    using assms named_map_of [of m k g] by (simp_all add: groups_inv_def gm_at_def)
  show "promo_wf g" using assms(1) mem by (auto simp: groups_inv_def list_all_iff)
  show "distinct (addrs g)" using assms(1) mem by (auto simp: groups_inv_def addrs_ok_def distinct_concat_iff)
qed

lemma gslb_inv_put:
  "gslb_inv m \<Longrightarrow> glName g = k \<Longrightarrow> distinct (glServers g) \<Longrightarrow>
     gslb_inv (m\<lparr>bmGslbs := AList.update k g (bmGslbs m)\<rparr>)"
  by (simp add: gslb_inv_def list_all_update gslb_named_def)

lemma gslb_invD: "gslb_inv m \<Longrightarrow> map_of (bmGslbs m) k = Some g \<Longrightarrow> glName g = k \<and> distinct (glServers g)"
  by (auto simp: gslb_inv_def gslb_named_def list_all_iff dest!: map_of_SomeD)

subsection \<open>Triples over the caches\<close>

text \<open>
  \<open>P\<close> speaks of the three caches. \<open>updateGroup E g\<close>, when \<open>g\<close> is the object that is cached
  already, leaves the caches as they are whatever the coordinator answers; the same holds for
  the sentinel and the GSLBs.
\<close>

type_synonym caches = "group_mapper \<Rightarrow> sentinel_mapper \<Rightarrow> gslb_mapper \<Rightarrow> bool"

abbreviation of_caches :: "caches \<Rightarrow> 'w svc \<Rightarrow> bool" where
  "of_caches P s \<equiv> P (s_groups s) (s_sentinel s) (s_gslb s)"

lemma keeps_onWorld: "keeps (of_caches P) (onWorld m)"
  by (auto simp: hoare_def onWorld_def split: prod.splits sum.splits)

lemma keeps_modify_caches:
  "(\<And>s. s_groups (f s) = s_groups s) \<Longrightarrow> (\<And>s. s_sentinel (f s) = s_sentinel s) \<Longrightarrow>
   (\<And>s. s_gslb (f s) = s_gslb s) \<Longrightarrow> keeps (of_caches P) (modifyE f)"
  by (simp add: hoare_def modifyE_def)

lemma assignGroup_triple:
  "hoare (of_caches (\<lambda>m. P (gm_put k g m))) (assignGroup k g) (\<lambda>_. of_caches P) (of_caches P)"
  by (simp add: hoare_def assignGroup_def modifyE_def gm_put_def)

lemma assignSentinel_triple:
  "hoare (of_caches (\<lambda>m sm. P m (sm\<lparr>smSentinel := sn\<rparr>))) (assignSentinel sn) (\<lambda>_. of_caches P) (of_caches P)"
  by (simp add: hoare_def assignSentinel_def modifyE_def)

lemma assignGslb_triple:
  "hoare (of_caches (\<lambda>m sm bm. P m sm (bm\<lparr>bmGslbs := AList.update k g (bmGslbs bm)\<rparr>))) (assignGslb k g)
     (\<lambda>_. of_caches P) (of_caches P)"
  by (simp add: hoare_def assignGslb_def modifyE_def)

text \<open>\<open>Update\<close> puts its argument into the cache when it succeeds and changes nothing otherwise.\<close>

lemma updateGroup_cases:
  assumes "updateGroup E g s = (r, s')"
  shows "s_sentinel s' = s_sentinel s \<and> s_gslb s' = s_gslb s \<and>
    s_groups s' = (if r = Inr () then gm_put (gName g) g (s_groups s) else s_groups s)"
proof -
  obtain x w where "cl_Update (en_Client E) (GroupPath (gmProduct (s_groups s)) (gName g)) (Group_Encode g) (s_world s) = (x, w)"
    by fastforce
  with assms show ?thesis
    by (cases x) (auto simp: updateGroup_def onGroups_def groupMapper_Update_def groupMapper_put_def
      io_defs gm_put_def)
qed

lemma updateSentinel_cases:
  assumes "updateSentinel E sn s = (r, s')"
  shows "s_groups s' = s_groups s \<and> s_gslb s' = s_gslb s \<and>
    s_sentinel s' = (if r = Inr () then (s_sentinel s)\<lparr>smSentinel := sn\<rparr> else s_sentinel s)"
proof -
  obtain x w where "cl_Update (en_Client E) (SentinelPath (smProduct (s_sentinel s))) (Sentinel_Encode sn) (s_world s) = (x, w)"
    by fastforce
  with assms show ?thesis
    by (cases x) (auto simp: updateSentinel_def onSentinel_def sentinelMapper_Update_def io_defs)
qed

lemma updateGslb_cases:
  assumes "updateGslb E g s = (r, s')"
  shows "s_groups s' = s_groups s \<and> s_sentinel s' = s_sentinel s \<and>
    (s_gslb s' = s_gslb s \<or>
     s_gslb s' = (s_gslb s)\<lparr>bmGslbs := AList.update (glName g) g (bmGslbs (s_gslb s))\<rparr>)"
proof -
  obtain x w where "cl_Update (en_Client E) (GSLBPath (glName g) (bmProduct (s_gslb s))) (GSLB_Encode g) (s_world s) = (x, w)"
    by fastforce
  then show ?thesis
    using assms unfolding updateGslb_def onGslb_def gslbMapper_Update_def
    by (cases x; cases "case map_of (bmGslbs (s_gslb s)) (glName g) of Some a \<Rightarrow> DeepEqual_GSLB a g | None \<Rightarrow> False")
      (simp_all add: io_defs, auto)
qed

text \<open>\<open>gslbMapper.Update\<close> of the very object that is cached finds no difference and writes nothing.\<close>

lemma updateGslb_same: "map_of (bmGslbs (s_gslb s)) (glName g) = Some g \<Longrightarrow> updateGslb E g s = (Inr (), s)"
  by (simp add: updateGslb_def onGslb_def gslbMapper_Update_def io_defs)

lemma gm_put_id: "gm_at m k = Some g \<Longrightarrow> gm_put k g m = m"
  by (simp add: gm_at_def gm_put_def map_of_update_id)

lemma gm_at_put [simp]: "gm_at (gm_put k g m) k' = (if k' = k then Some g else gm_at m k')"
  by (simp add: gm_at_def gm_put_def)

lemma updateGroup_triple:
  "hoare (of_caches (\<lambda>m sm bm. P m sm bm \<and> P (gm_put (gName g) g m) sm bm)) (updateGroup E g)
     (\<lambda>_. of_caches P) (of_caches P)"
  by (rule hoareI) (auto dest!: updateGroup_cases split: if_splits)

lemma updateGroup_cached:
  "keeps (of_caches (\<lambda>m sm bm. P m sm bm \<and> gm_at m (gName g) = Some g)) (updateGroup E g)"
  by (rule hoareI) (auto dest!: updateGroup_cases simp: gm_put_id split: if_splits)

lemma updateSentinel_cached:
  "keeps (of_caches (\<lambda>m sm bm. P m sm bm \<and> smSentinel sm = sn)) (updateSentinel E sn)"
proof -
  have "(sm::sentinel_mapper)\<lparr>smSentinel := sn\<rparr> = sm" if "smSentinel sm = sn" for sm
    using that by simp
  then show ?thesis by (auto simp: hoare_def dest!: updateSentinel_cases split: prod.split sum.split if_splits)
qed

lemma updateGslb_triple:
  "hoare (of_caches (\<lambda>m sm bm. P m sm bm \<and> P m sm (bm\<lparr>bmGslbs := AList.update (glName g) g (bmGslbs bm)\<rparr>)))
     (updateGslb E g) (\<lambda>_. of_caches P) (of_caches P)"
  by (rule hoareI) (auto dest!: updateGslb_cases)

end
