(* ===== verification/ServiceEffects.thy ===== *)
theory ServiceEffects
  imports ServiceInvariant
begin

section \<open>Effects of the shared steps on the caches\<close>

text \<open>
  Triples for the steps that several operations share: refreshing the GSLBs, marking the
  sentinels out of sync and resynchronising a group. Each is stated for any assertion on the
  parts of the caches that the step does not touch.
\<close>

subsection \<open>Refreshing the GSLBs\<close>

lemma haproxyBackends_pure: "snd (haproxyBackends s) = s"
  by (simp add: haproxyBackends_def io_defs split: prod.split sum.split)

lemma lvsBackends_pure: "snd (lvsBackends n s) = s"
  by (simp add: lvsBackends_def io_defs split: option.split)

lemma getGSLBBackends_pure: "snd (getGSLBBackends n s) = s"
  by (simp add: getGSLBBackends_def haproxyBackends_pure lvsBackends_pure fail_def)

lemma refreshOne_keeps:
  "keeps (of_caches (\<lambda>m sm bm. P m sm \<and> gslb_inv bm)) (refreshOne E name)"
proof (rule hoare_at, unfold refreshOne_def gslbsInfo_eq, rule at_gets)
  fix s :: "'a svc"
  let ?I = "of_caches (\<lambda>m sm bm. P m sm \<and> gslb_inv bm)"
  assume I: "?I s"
  show "hoare (\<lambda>t. t = s)
     (case map_of (bmGslbs (s_gslb s)) name of None \<Rightarrow> ret ()
      | Some v \<Rightarrow> bindE (getGSLBBackends name) (\<lambda>(backends, monitors).
          bindE (attempt (updateGslb E \<lparr>glName = name, glServers = glServers v, glMonitors = monitors,
            glBackends = backends\<rparr>)) (\<lambda>_. ret ()))) (\<lambda>_. ?I) ?I"
  proof (cases "map_of (bmGslbs (s_gslb s)) name")
    case None
    with I show ?thesis by (auto intro: at_ret)
  next
    case (Some v)
    with I have d: "distinct (glServers v)" using gslb_invD by blast
    have u: "keeps ?I (updateGslb E \<lparr>glName = name, glServers = glServers v, glMonitors = mon, glBackends = b\<rparr>)"
      for b mon
      by (rule hoare_weaken [OF updateGslb_triple [of "\<lambda>m sm bm. P m sm \<and> gslb_inv bm"]])
        (auto simp: d intro!: gslb_inv_put)
    have "keeps ?I (bindE (getGSLBBackends name) (\<lambda>(b, mon).
        bindE (attempt (updateGslb E \<lparr>glName = name, glServers = glServers v, glMonitors = mon,
          glBackends = b\<rparr>)) (\<lambda>_. ret ())))"
      by (rule keeps_bind [OF keeps_pure [OF getGSLBBackends_pure]])
        (auto split: prod.split intro!: keeps_bind keeps_attempt keeps_ret u)
    then show ?thesis using I by (simp add: Some at_pre)
  qed
qed

lemma refresh_keeps:
  "keeps (of_caches (\<lambda>m sm bm. P m sm \<and> gslb_inv bm)) (refreshGSLBBackendInfo E)"
  unfolding refreshGSLBBackendInfo_def gslbsInfo_eq
  by (intro keeps_bind keeps_gets keeps_forE refreshOne_keeps)

subsection \<open>Sentinels out of sync\<close>

lemma sentinel_product_keeps: "keeps P sentinel_product"
  by (simp add: sentinel_product_def keeps_gets)

lemma markSentinel_triple:
  "hoare (of_caches (\<lambda>m sm. P m (sm\<lparr>smSentinel := sn\<rparr>)))
     (bindE (assignSentinel sn) (\<lambda>_. updateSentinel E sn)) (\<lambda>_. of_caches P) (of_caches P)"
proof -
  have upd: "(sm :: sentinel_mapper)\<lparr>smSentinel := sn\<rparr>\<lparr>smSentinel := sn\<rparr> = sm\<lparr>smSentinel := sn\<rparr>" for sm by simp
  have "hoare (of_caches (\<lambda>m sm. P m (sm\<lparr>smSentinel := sn\<rparr>)))
     (bindE (assignSentinel sn) (\<lambda>_. updateSentinel E sn))
     (\<lambda>_. of_caches (\<lambda>m sm bm. P m sm bm \<and> smSentinel sm = sn))
     (of_caches (\<lambda>m sm bm. P m sm bm \<and> smSentinel sm = sn))"
    by (rule hoare_bind [OF _ updateSentinel_cached])
      (rule hoare_weaken [OF assignSentinel_triple [of "\<lambda>m sm bm. P m sm bm \<and> smSentinel sm = sn"]], auto)
  then show ?thesis by (rule hoare_weaken) auto
qed

lemma outOfSync_keeps:
  "keeps (of_caches (\<lambda>m sm bm. P m (snServers (smSentinel sm)) bm)) (outOfSyncBySentinel E)"
proof (rule hoare_at, unfold outOfSyncBySentinel_def sentinelInfo_eq, rule at_gets, rule hoare_if)
  fix s :: "'a svc"
  let ?I = "of_caches (\<lambda>m sm bm. P m (snServers (smSentinel sm)) bm)"
  let ?sn = "(smSentinel (s_sentinel s))\<lparr>snOutOfSync := True\<rparr>"
  assume I: "?I s"
  from I show "hoare (\<lambda>t. t = s) (ret ()) (\<lambda>_. ?I) ?I" by (auto intro: at_ret)
  have eq: "bindE (assignSentinel ?sn) (\<lambda>_. mapErr ErrUpdateSentinel (updateSentinel E ?sn)) =
      mapErr ErrUpdateSentinel (bindE (assignSentinel ?sn) (\<lambda>_. updateSentinel E ?sn))"
    by (rule ext) (simp add: bindE_def mapErr_def assignSentinel_def modifyE_def)
  show "hoare (\<lambda>t. t = s) (bindE (assignSentinel ?sn) (\<lambda>_. mapErr ErrUpdateSentinel (updateSentinel E ?sn)))
      (\<lambda>_. ?I) ?I"
    unfolding eq
    by (rule hoare_mapErr, rule at_pre [OF markSentinel_triple]) (use I in simp)
qed

subsection \<open>Resynchronising a group\<close>

lemma doSync_keeps: "keeps (of_caches P) (doSyncAction E addr master)"
  unfolding doSyncAction_def by (intro keeps_bind keeps_gets keeps_onWorld)

lemma sync_servers_keeps: "keeps (of_caches P) (sync_servers E name ss errs)"
  by (induction ss arbitrary: errs) (auto intro!: keeps_ret keeps_bind keeps_attempt doSync_keeps)

text \<open>Assign to the cached group, then write it through: the assertion holds with the new object.\<close>

lemma storeGroup_triple:
  assumes "gName g = k"
  shows "hoare (of_caches (\<lambda>m. P (gm_put k g m)))
     (bindE (assignGroup k g) (\<lambda>_. updateGroup E g)) (\<lambda>_. of_caches P) (of_caches P)"
proof -
  have "hoare (of_caches (\<lambda>m. P (gm_put k g m)))
     (bindE (assignGroup k g) (\<lambda>_. updateGroup E g))
     (\<lambda>_. of_caches (\<lambda>m sm bm. P m sm bm \<and> gm_at m (gName g) = Some g))
     (of_caches (\<lambda>m sm bm. P m sm bm \<and> gm_at m (gName g) = Some g))"
    by (rule hoare_bind [OF _ updateGroup_cached])
      (rule hoare_weaken [OF assignGroup_triple [of "\<lambda>m sm bm. P m sm bm \<and> gm_at m (gName g) = Some g"]],
        auto simp: assms)
  then show ?thesis by (rule hoare_weaken) auto
qed

text \<open>The same in front of more steps.\<close>

lemma storeGroup_then:
  assumes "gName g = k" and "\<And>x. hoare (of_caches P) (f x) Q (of_caches R)" and "\<And>m sm bm. P m sm bm \<Longrightarrow> R m sm bm"
  shows "hoare (of_caches (\<lambda>m. P (gm_put k g m)))
     (bindE (assignGroup k g) (\<lambda>_. bindE (updateGroup E g) f)) Q (of_caches R)"
  unfolding bindE_assoc [symmetric]
  by (rule hoare_bind [OF _ assms(2)], rule hoare_weaken [OF storeGroup_triple [OF assms(1), of P]])
    (auto intro: assms(3))

lemma resyncGroup_triple:
  assumes "gName g = k"
  shows "hoare (of_caches (\<lambda>m sm bm. P m sm bm \<and> P (gm_put k (g\<lparr>gOutOfSync := True\<rparr>) m) sm bm))
     (resyncGroup E k g) (\<lambda>_. of_caches P) (of_caches P)"
proof -
  let ?g = "g\<lparr>gOutOfSync := True\<rparr>"
  let ?W = "of_caches (\<lambda>m sm bm. P m sm bm \<and> P (gm_put k ?g m) sm bm)"
  have S: "hoare ?W (sync_servers E (gName g) (sync_masters g) []) (\<lambda>_. ?W) (of_caches P)"
    by (rule hoare_weaken [OF sync_servers_keeps
          [where P = "\<lambda>m sm bm. P m sm bm \<and> P (gm_put k ?g m) sm bm"]]) auto
  have R: "hoare ?W (ret ()) (\<lambda>_. of_caches P) (of_caches P)"
    by (rule hoareI) (auto simp: ret_def)
  have T: "hoare ?W (bindE (assignGroup k ?g) (\<lambda>_. bindE (attempt (updateGroup E ?g))
      (\<lambda>r. fail (ErrMulti (case r of Inl e \<Rightarrow> errs @ [e] | Inr _ \<Rightarrow> errs))))) (\<lambda>_. of_caches P) (of_caches P)"
    for errs
  proof -
    have eq: "bindE (assignGroup k ?g) (\<lambda>_. bindE (attempt (updateGroup E ?g))
         (\<lambda>r. fail (ErrMulti (case r of Inl e \<Rightarrow> errs @ [e] | Inr _ \<Rightarrow> errs)))) =
       bindE (attempt (bindE (assignGroup k ?g) (\<lambda>_. updateGroup E ?g)))
         (\<lambda>r. fail (ErrMulti (case r of Inl e \<Rightarrow> errs @ [e] | Inr _ \<Rightarrow> errs)))"
      by (rule ext) (simp add: bindE_def attempt_def assignGroup_def modifyE_def)
    have H: "hoare (of_caches (\<lambda>m sm bm. P (gm_put k ?g m) sm bm))
       (attempt (bindE (assignGroup k ?g) (\<lambda>_. updateGroup E ?g))) (\<lambda>_. of_caches P) (of_caches P)"
      by (rule hoare_attempt [OF storeGroup_triple]) (auto simp: assms)
    show ?thesis unfolding eq by (rule hoare_bind [OF hoare_weaken [OF H] keeps_fail]) auto
  qed
  show ?thesis unfolding resyncGroup_def by (intro hoare_if hoare_bind [OF S] R T)
qed

end
