(* ===== verification/GroupEffects.thy ===== *)
theory GroupEffects
  imports ServiceEffects
begin

section \<open>Effects of the operations on groups\<close>

text \<open>
  For each operation of GroupService, from a state \<open>s\<close> that satisfies the invariant: the
  group cache after a normal return, exactly, and the invariant after an error.
  \<open>at_groups M\<close> says that the group cache is \<open>M\<close> and that the invariants of the other two
  caches hold.
\<close>

definition at_groups :: "group_mapper \<Rightarrow> 'w svc \<Rightarrow> bool" where
  "at_groups M s \<longleftrightarrow> s_groups s = M \<and> sentinel_inv (s_sentinel s) \<and> gslb_inv (s_gslb s)"

lemma svc_inv_at: "svc_inv s \<longleftrightarrow> groups_inv (s_groups s) \<and> at_groups (s_groups s) s"
  by (auto simp: svc_inv_def at_groups_def)

lemma at_groupsD: "at_groups M s \<Longrightarrow> s_groups s = M"
  by (simp add: at_groups_def)

lemma at_groups_inv: "groups_inv M \<Longrightarrow> at_groups M s \<Longrightarrow> svc_inv s"
  by (auto simp: svc_inv_def at_groups_def)

lemma at_groups_both: "groups_inv M \<Longrightarrow> at_groups M s \<Longrightarrow> svc_inv s \<and> s_groups s = M"
  by (auto simp: svc_inv_def at_groups_def)

lemma outOfSync_at:
  assumes "\<And>t. at_groups M t \<Longrightarrow> R t"
  shows "hoare (at_groups M) (outOfSyncBySentinel E) (\<lambda>_. at_groups M) R"
  by (rule hoare_weaken [OF outOfSync_keeps [where P = "\<lambda>m sv bm. m = M \<and> distinct sv \<and> gslb_inv bm"]])
    (auto simp: at_groups_def sentinel_inv_def intro!: assms)

lemma refresh_at:
  assumes "\<And>t. at_groups M t \<Longrightarrow> R t"
  shows "hoare (at_groups M) (refreshGSLBBackendInfo E) (\<lambda>_. at_groups M) R"
  by (rule hoare_weaken [OF refresh_keeps [where P = "\<lambda>m sm. m = M \<and> sentinel_inv sm"]])
    (auto simp: at_groups_def intro!: assms)

lemma onWorld_at:
  assumes "\<And>t. at_groups M t \<Longrightarrow> R t"
  shows "hoare (at_groups M) (onWorld m) (\<lambda>_. at_groups M) R"
  by (rule hoare_weaken [OF keeps_onWorld [where P = "\<lambda>m sm bm. m = M \<and> sentinel_inv sm \<and> gslb_inv bm"]])
    (auto simp: at_groups_def intro!: assms)

lemma store_at:
  assumes "gName g = k" and "\<And>t. at_groups (gm_put k g M) t \<Longrightarrow> R t"
  shows "hoare (at_groups M) (bindE (assignGroup k g) (\<lambda>_. updateGroup E g)) (\<lambda>_. at_groups (gm_put k g M)) R"
  by (rule hoare_weaken [OF storeGroup_triple
        [where P = "\<lambda>m sm bm. m = gm_put k g M \<and> sentinel_inv sm \<and> gslb_inv bm", OF assms(1)]])
    (auto simp: at_groups_def intro!: assms)

lemma store_at_then:
  assumes "gName g = k" and "\<And>t. at_groups (gm_put k g M) t \<Longrightarrow> R t"
    and "\<And>x. hoare (at_groups (gm_put k g M)) (f x) Q R"
  shows "hoare (at_groups M) (bindE (assignGroup k g) (\<lambda>_. bindE (updateGroup E g) f)) Q R"
  unfolding bindE_assoc [symmetric] by (rule hoare_bind [OF store_at [OF assms(1,2)] assms(3)])

lemma gm_put_put [simp]: "gm_put k g (gm_put k h m) = gm_put k g m"
  by (simp add: gm_put_def)

lemma update_at:
  assumes "gName g = k" and "at_groups M s"
    and "\<And>t. at_groups (gm_put k g M) t \<Longrightarrow> Q () t" and "\<And>t. at_groups M t \<Longrightarrow> R t"
  shows "hoare (\<lambda>t. t = s) (updateGroup E g) Q R"
proof (rule hoareI)
  fix u x t
  assume "u = s" and "updateGroup E g u = (Inr x, t)"
  then have "at_groups (gm_put k g M) t"
    using assms(1,2) updateGroup_cases [of E g s "Inr x" t] by (auto simp: at_groups_def)
  then show "Q x t" using assms(3) by simp
next
  fix u e t
  assume "u = s" and "updateGroup E g u = (Inl e, t)"
  then have "at_groups M t"
    using assms(1,2) updateGroup_cases [of E g s "Inl e" t] by (auto simp: at_groups_def)
  then show "R t" by (rule assms(4))
qed

subsection \<open>Adding and removing servers\<close>

lemma gm_at_map_of: "map_of (gmGroups m) k = gm_at m k"
  by (simp add: gm_at_def)

lemma AddGroupServer_spec:
  assumes "svc_inv s"
  shows "hoare (\<lambda>t. t = s) (AddGroupServer E k a)
    (\<lambda>_ t. svc_inv t \<and> a \<noteq> [] \<and> (\<forall>e \<in> set (gmGroups (s_groups s)). a \<notin> set (addrs (snd e))) \<and>
      (\<exists>g. gm_at (s_groups s) k = Some g \<and>
         s_groups t = gm_put k (g\<lparr>gServers := gServers g @ [\<lparr>sAddr = a\<rparr>]\<rparr>) (s_groups s)))
    svc_inv"
  unfolding AddGroupServer_def groupsInfo_eq Let_def
proof (intro at_guard at_gets at_lookup assms)
  fix g
  assume a: "a \<noteq> []" and fresh: "list_all (\<lambda>(_, g). a \<notin> set (addrs g)) (gmGroups (s_groups s))"
    and g: "map_of (gmGroups (s_groups s)) k = Some g"
  let ?g = "g\<lparr>gServers := gServers g @ [\<lparr>sAddr = a\<rparr>]\<rparr>" and ?M = "s_groups s"
  from fresh have fresh': "\<forall>e \<in> set (gmGroups ?M). a \<notin> set (addrs (snd e))"
    by (auto simp: list_all_iff)
  have inv: "groups_inv ?M" "at_groups ?M s" using assms by (auto simp: svc_inv_at)
  have g': "gm_at ?M k = Some g" using g by (simp add: gm_at_def)
  note gD = groups_invD [OF inv(1) g']
  have M': "groups_inv (gm_put k ?g ?M)"
    by (rule groups_inv_add_server [OF inv(1) g' fresh'])
      (use gD in \<open>auto simp: addrs_def ports_def promo_wf_def\<close>)
  have "hoare (at_groups ?M) (bindE (outOfSyncBySentinel E) (\<lambda>_. bindE (assignGroup k ?g) (\<lambda>_.
      bindE (updateGroup E ?g) (\<lambda>_. refreshGSLBBackendInfo E)))) (\<lambda>_. at_groups (gm_put k ?g ?M)) svc_inv"
    by (intro hoare_bind [OF outOfSync_at] store_at_then refresh_at)
      (use gD inv M' in \<open>auto intro: at_groups_inv\<close>)
  then have "hoare (\<lambda>t. t = s) (bindE (outOfSyncBySentinel E) (\<lambda>_. bindE (assignGroup k ?g) (\<lambda>_.
      bindE (updateGroup E ?g) (\<lambda>_. refreshGSLBBackendInfo E)))) (\<lambda>_. at_groups (gm_put k ?g ?M)) svc_inv"
    using inv(2) by (rule at_pre)
  then show "hoare (\<lambda>t. t = s) (bindE (outOfSyncBySentinel E) (\<lambda>_. bindE (assignGroup k ?g) (\<lambda>_.
      bindE (updateGroup E ?g) (\<lambda>_. refreshGSLBBackendInfo E))))
    (\<lambda>_ t. svc_inv t \<and> a \<noteq> [] \<and> (\<forall>e \<in> set (gmGroups ?M). a \<notin> set (addrs (snd e))) \<and>
      (\<exists>g. gm_at ?M k = Some g \<and> s_groups t = gm_put k (g\<lparr>gServers := gServers g @ [\<lparr>sAddr = a\<rparr>]\<rparr>) ?M)) svc_inv"
    by (rule hoare_weaken) (use a fresh' g' at_groups_inv [OF M'] in \<open>auto dest: at_groupsD\<close>)
qed

lemma addrs_without: "addrs (without_server i g) = remove_at (nat i) (addrs g)"
  by (simp add: without_server_def addrs_def Let_def map_remove_at)

lemma mset_remove_at_le: "mset (remove_at i xs) \<subseteq># mset xs"
proof (cases "i < length xs")
  case False
  then show ?thesis by (simp add: remove_at_def)
qed (simp add: mset_remove_at)

lemma same_identity_without: "promo_wf g \<Longrightarrow> same_identity g (without_server i g)"
  unfolding same_identity_def addrs_without
  by (simp add: mset_remove_at_le) (simp add: without_server_def Let_def ports_def promo_wf_def)

lemma DelGroupServer_spec:
  assumes "svc_inv s"
  shows "hoare (\<lambda>t. t = s) (DelGroupServer E k a)
    (\<lambda>_ t. svc_inv t \<and>
      (\<exists>g. gm_at (s_groups s) k = Some g \<and> a \<in> set (addrs g) \<and>
         (GetServerIndex g a = 0 \<longrightarrow> length (gServers g) = 1) \<and>
         s_groups t = gm_put k (without_server (GetServerIndex g a) g) (s_groups s)))
    svc_inv"
  unfolding DelGroupServer_def groupsInfo_eq Let_def
proof (intro at_guard at_gets at_lookup assms)
  fix g
  assume g: "map_of (gmGroups (s_groups s)) k = Some g" and idx: "GetServerIndex g a \<noteq> - 1"
    and master: "\<not> (GetServerIndex g a = 0 \<and> 1 < length (gServers g))"
  let ?g = "without_server (GetServerIndex g a) g" and ?M = "s_groups s"
  have inv: "groups_inv ?M" "at_groups ?M s" using assms by (auto simp: svc_inv_at)
  have g': "gm_at ?M k = Some g" using g by (simp add: gm_at_def)
  note gD = groups_invD [OF inv(1) g']
  have M': "groups_inv (gm_put k ?g ?M)"
    by (rule groups_inv_put [OF inv(1) g' same_identity_without [OF gD(2)]])
  have a: "a \<in> set (addrs g)" using idx GetServerIndex_none by blast
  then have len: "GetServerIndex g a = 0 \<longrightarrow> length (gServers g) = 1"
    using master by (cases "gServers g") (auto simp: addrs_def)
  have "gName ?g = k" using gD by (simp add: without_server_def Let_def)
  then have "hoare (at_groups ?M) (bindE (outOfSyncBySentinel E) (\<lambda>_. bindE (assignGroup k ?g) (\<lambda>_.
      bindE (updateGroup E ?g) (\<lambda>_. refreshGSLBBackendInfo E)))) (\<lambda>_. at_groups (gm_put k ?g ?M)) svc_inv"
    by (intro hoare_bind [OF outOfSync_at] store_at_then refresh_at)
      (use inv M' in \<open>auto intro: at_groups_inv\<close>)
  then show "hoare (\<lambda>t. t = s) (bindE (outOfSyncBySentinel E) (\<lambda>_. bindE (assignGroup k ?g) (\<lambda>_.
      bindE (updateGroup E ?g) (\<lambda>_. refreshGSLBBackendInfo E))))
    (\<lambda>_ t. svc_inv t \<and>
      (\<exists>g. gm_at ?M k = Some g \<and> a \<in> set (addrs g) \<and>
         (GetServerIndex g a = 0 \<longrightarrow> length (gServers g) = 1) \<and>
         s_groups t = gm_put k (without_server (GetServerIndex g a) g) ?M)) svc_inv"
    by (rule hoare_weaken) (use g' a len inv in \<open>auto dest!: at_groups_both [OF M']\<close>)
qed

subsection \<open>Creating, removing and resynchronising groups\<close>

lemma onGroups_Create:
  assumes "onGroups (groupMapper_Create C g) s = (r, t)"
  shows "s_sentinel t = s_sentinel s \<and> s_gslb t = s_gslb s \<and>
    s_groups t = (if r = Inr () then gm_put (gName g) g (s_groups s) else s_groups s)"
proof -
  obtain x w where "cl_Update C (GroupPath (gmProduct (s_groups s)) (gName g)) (Group_Encode g) (s_world s) = (x, w)"
    by fastforce
  with assms show ?thesis
    by (cases x) (auto simp: onGroups_def groupMapper_Create_def groupMapper_put_def io_defs gm_put_def)
qed

lemma onGroups_Remove:
  assumes "onGroups (groupMapper_Remove C g) s = (r, t)"
  shows "s_sentinel t = s_sentinel s \<and> s_gslb t = s_gslb s \<and>
    s_groups t = (if r = Inr () then (s_groups s)\<lparr>gmGroups := AList.delete (gName g) (gmGroups (s_groups s))\<rparr>
                  else s_groups s)"
proof -
  obtain x w where "cl_Delete C (GroupPath (gmProduct (s_groups s)) (gName g)) (s_world s) = (x, w)"
    by fastforce
  with assms show ?thesis
    by (cases x) (auto simp: onGroups_def groupMapper_Remove_def io_defs)
qed

lemma create_at:
  "gName g = k \<Longrightarrow>
     hoare (at_groups M) (onGroups (groupMapper_Create C g)) (\<lambda>_. at_groups (gm_put k g M)) (at_groups M)"
  by (rule hoareI) (auto dest!: onGroups_Create simp: at_groups_def)

text \<open>The group that \<open>CreateGroup\<close> makes.\<close>

definition fresh_group :: "string \<Rightarrow> int \<Rightarrow> int \<Rightarrow> string \<Rightarrow> group" where
  "fresh_group name rPort wPort now =
     \<lparr>gName = name, gServers = [], gPromotingIndex = 0, gPromotingState = ActionNothing,
      gOutOfSync = False, gProxyReadPort = rPort, gProxyWritePort = wPort, gCreateTime = now\<rparr>"

definition may_create :: "groups \<Rightarrow> string \<Rightarrow> int \<Rightarrow> int \<Rightarrow> bool" where
  "may_create gs name rPort wPort \<longleftrightarrow>
     name \<noteq> [] \<and> RuneCountInString name \<le> MAXGroupNameBytesLength \<and> rPort \<noteq> wPort \<and>
     map_of gs name = None \<and> list_all (\<lambda>(_, g). \<not> ports_conflict rPort wPort g) gs"

lemma gName_fresh [simp]: "gName (fresh_group n r w now) = n"
  by (simp add: fresh_group_def)

lemma CreateGroup_spec:
  assumes "svc_inv s" and "CHR ''/'' \<notin> set n"
  shows "hoare (\<lambda>t. t = s) (CreateGroup E n r w)
    (\<lambda>_ t. svc_inv t \<and> may_create (gmGroups (s_groups s)) n r w \<and>
      (\<exists>now. s_groups t = gm_put n (fresh_group n r w now) (s_groups s)))
    (\<lambda>t. svc_inv t \<and> s_groups t = s_groups s)" (is "hoare _ _ (\<lambda>_. ?Q) ?R")
  unfolding CreateGroup_def groupsInfo_eq fresh_group_def [symmetric]
proof (intro at_gets at_guard)
  let ?M = "s_groups s"
  have inv: "groups_inv ?M" "at_groups ?M s" using assms by (auto simp: svc_inv_at)
  show R: "?R s" "?R s" "?R s" using assms by simp_all
  assume n: "n \<noteq> [] \<and> RuneCountInString n \<le> MAXGroupNameBytesLength" and ne: "r \<noteq> w"
    and new: "map_of (gmGroups ?M) n = None"
  let ?f = "find (\<lambda>(_, g). ports_conflict r w g) (gmGroups ?M)"
  let ?rest = "bindE (time_Now E) (\<lambda>now. onGroups (groupMapper_Create (en_Client E) (fresh_group n r w now)))"
  have RM: "?R t" if "at_groups ?M t" for t using at_groups_both [OF inv(1) that] by simp
  have "hoare (\<lambda>t. t = s) ?rest (\<lambda>_. ?Q) ?R" if "?f = None"
  proof -
    from that have free: "list_all (\<lambda>(_, g). \<not> ports_conflict r w g) (gmGroups ?M)"
      by (auto simp: find_None_iff list_all_iff)
    with n ne new have may: "may_create (gmGroups ?M) n r w" by (simp add: may_create_def)
    have dis: "\<forall>e \<in> set (gmGroups ?M). set (ports (fresh_group n r w now)) \<inter> set (ports (snd e)) = {}" for now
      using free by (auto simp: fresh_group_def ports_def list_all_iff ports_conflict_def)
    have put: "groups_inv (gm_put n (fresh_group n r w now) ?M)" for now
      using groups_inv_new [OF inv(1) _ _ _ _ _ dis [of now]] new assms(2) ne
      by (simp add: fresh_group_def gm_at_def promo_wf_def)
    have C: "hoare (at_groups ?M) (onGroups (groupMapper_Create (en_Client E) (fresh_group n r w now))) (\<lambda>_. ?Q) ?R"
      for now
      by (rule hoare_weaken [OF create_at [of "fresh_group n r w now" n ?M]])
        (use may RM in \<open>auto dest: at_groups_both [OF put]\<close>)
    show ?thesis
      unfolding time_Now_def by (rule at_pre [OF hoare_bind [OF onWorld_at [OF RM] C] inv(2)])
  qed
  moreover have "hoare (\<lambda>t. t = s) (fail e) (\<lambda>_. ?Q) ?R" for e :: error
    by (rule at_fail) (rule R)
  ultimately show "hoare (\<lambda>t. t = s)
     (bindE (case ?f of None \<Rightarrow> ret () | Some (_, g) \<Rightarrow> fail (ErrGroup (PortConflict n (gName g)))) (\<lambda>_. ?rest))
     (\<lambda>_. ?Q) ?R"
    by (auto split: option.split)
qed

lemma RemoveGroup_spec:
  assumes "svc_inv s"
  shows "hoare (\<lambda>t. t = s) (RemoveGroup E n)
    (\<lambda>_ t. svc_inv t \<and> (\<exists>g. gm_at (s_groups s) n = Some g \<and> gServers g = []) \<and>
      gmProduct (s_groups t) = gmProduct (s_groups s) \<and>
      map_of (gmGroups (s_groups t)) = (map_of (gmGroups (s_groups s)))(n := None))
    (\<lambda>t. svc_inv t \<and> s_groups t = s_groups s)"
  unfolding RemoveGroup_def groupsInfo_eq
proof (intro at_gets at_guard at_lookup)
  let ?M = "s_groups s"
  have inv: "groups_inv ?M" using assms by (simp add: svc_inv_def)
  show "svc_inv s \<and> s_groups s = ?M" "svc_inv s \<and> s_groups s = ?M" using assms by simp_all
  fix g
  assume g0: "map_of (gmGroups ?M) n = Some g" and empty: "gServers g = []"
  then have g: "gm_at ?M n = Some g" by (simp add: gm_at_def)
  show "hoare (\<lambda>t. t = s) (onGroups (groupMapper_Remove (en_Client E) g))
    (\<lambda>_ t. svc_inv t \<and> (\<exists>g. gm_at ?M n = Some g \<and> gServers g = []) \<and> gmProduct (s_groups t) = gmProduct ?M \<and>
      map_of (gmGroups (s_groups t)) = (map_of (gmGroups ?M))(n := None))
    (\<lambda>t. svc_inv t \<and> s_groups t = ?M)"
    by (rule hoareI) (use assms g empty groups_invD(1) [OF inv g] groups_inv_delete [OF inv, of n] in
      \<open>auto dest!: onGroups_Remove simp: svc_inv_def\<close>)
qed

subsection \<open>The server that goes\<close>

lemma removed_server:
  assumes "a \<in> set (addrs g)" and "distinct (addrs g)"
  shows "a \<notin> set (remove_at (nat (GetServerIndex g a)) (addrs g))"
proof -
  let ?i = "nat (GetServerIndex g a)"
  from assms(1) GetServerIndex_none [of g a] have "GetServerIndex g a \<noteq> - 1" by simp
  note some = GetServerIndex_some [OF this]
  then have i: "?i < length (addrs g)" and a: "addrs g ! ?i = a" by (simp_all add: addrs_def)
  have "count (mset (remove_at ?i (addrs g))) a = 0"
    using mset_remove_at [OF i] a assms by (simp add: count_mset_0_iff distinct_count_atmost_1)
  then show ?thesis by (simp add: count_mset_0_iff)
qed

lemma master_index: "a \<in> set (addrs g) \<Longrightarrow> GetMaster g = a \<Longrightarrow> GetServerIndex g a = 0"
  by (cases "gServers g") (auto simp: GetMaster_def addrs_def GetServerIndex_def index_of_def)

end
