(* ===== verification/Promotion.thy ===== *)
theory Promotion
  imports GroupEffects
begin

section \<open>Promoting a server\<close>

text \<open>
  What \<open>GroupPromoteServer\<close> does to the group from each state of the promotion.
  \<^item> \<open>promoted\<close> is the group at the end: the server is first, no promotion is under way, the
    group counts as synchronised.
  \<^item> \<open>progress\<close> relates the group before the call to what is cached after a call that ended in
    an error: the promotion stands in one of the later states and remembers its server.
\<close>

subsection \<open>Shared steps\<close>

lemma mark_at_then:
  assumes "distinct (snServers sn)" and "\<And>t. at_groups M t \<Longrightarrow> R t"
    and "\<And>x. hoare (at_groups M) (f x) Q R"
  shows "hoare (at_groups M) (bindE (assignSentinel sn) (\<lambda>_. bindE (updateSentinel E sn) f)) Q R"
  unfolding bindE_assoc [symmetric]
  by (rule hoare_bind [OF hoare_weaken [OF markSentinel_triple
        [where P = "\<lambda>m sm bm. m = M \<and> sentinel_inv sm \<and> gslb_inv bm"]] assms(3)])
    (auto simp: at_groups_def sentinel_inv_def assms(1) intro!: assms(2))

lemma attempt_at:
  assumes "hoare (at_groups M) m (\<lambda>_. at_groups M) (at_groups M)"
  shows "hoare (at_groups M) (attempt m) (\<lambda>_. at_groups M) R"
  by (rule hoare_attempt [OF assms]) auto

lemma gets_at: "hoare (at_groups M) (gets f) (\<lambda>_. at_groups M) R"
  by (simp add: hoare_def gets_def)

lemma product_at: "hoare (at_groups M) sentinel_product (\<lambda>_. at_groups M) R"
  by (simp add: sentinel_product_def gets_at)

lemma modify_at:
  "(\<And>s. s_groups (f s) = s_groups s) \<Longrightarrow> (\<And>s. s_sentinel (f s) = s_sentinel s) \<Longrightarrow>
   (\<And>s. s_gslb (f s) = s_gslb s) \<Longrightarrow> hoare (at_groups M) (modifyE f) (\<lambda>_. at_groups M) R"
  by (simp add: hoare_def modifyE_def at_groups_def)

lemma hoare_prod: "(\<And>a b. p = (a, b) \<Longrightarrow> hoare P (f a b) Q R) \<Longrightarrow> hoare P (case p of (a, b) \<Rightarrow> f a b) Q R"
  by (cases p) simp

lemma promote_sentinel_at:
  assumes "\<And>t. at_groups M t \<Longrightarrow> R t"
  shows "hoare (at_groups M) (promote_sentinel E g) (\<lambda>_. at_groups M) R"
proof (rule hoare_at, unfold promote_sentinel_def sentinelInfo_eq, rule at_gets, rule hoare_if)
  fix s :: "'a svc"
  assume s: "at_groups M s"
  let ?sn = "smSentinel (s_sentinel s)"
  from s show "hoare (\<lambda>t. t = s) (ret ()) (\<lambda>_. at_groups M) R" by (auto intro: at_ret)
  have d: "distinct (snServers (?sn\<lparr>snOutOfSync := True\<rparr>))" using s by (simp add: at_groups_def sentinel_inv_def)
  show "hoare (\<lambda>t. t = s)
     (bindE (assignSentinel (?sn\<lparr>snOutOfSync := True\<rparr>)) (\<lambda>_.
      bindE (updateSentinel E (?sn\<lparr>snOutOfSync := True\<rparr>)) (\<lambda>_.
      bindE sentinel_product (\<lambda>(product, auth, timeout).
      bindE (attempt (onWorld (RemoveGroups (en_Sched E) (en_Redigo E) product (snServers ?sn) timeout [gName g]))) (\<lambda>_.
      modifyE (\<lambda>s. s\<lparr>s_haMasters := map_option (AList.delete (gName g)) (s_haMasters s)\<rparr>))))))
     (\<lambda>_. at_groups M) R"
    by (rule at_pre [where P = "at_groups M"], intro mark_at_then d assms hoare_bind [OF product_at] hoare_prod
        hoare_bind [OF attempt_at] modify_at onWorld_at) (auto simp: s)
qed

lemma resync_at:
  assumes "gName g = k"
  shows "hoare (at_groups (gm_put k g M)) (attempt (resyncGroup E k g))
    (\<lambda>_ t. at_groups (gm_put k g M) t \<or> at_groups (gm_put k (g\<lparr>gOutOfSync := True\<rparr>) M) t) R"
proof -
  let ?P = "\<lambda>m sm bm. m \<in> {gm_put k g M, gm_put k (g\<lparr>gOutOfSync := True\<rparr>) M} \<and> sentinel_inv sm \<and> gslb_inv bm"
  have "hoare (of_caches (\<lambda>m sm bm. ?P m sm bm \<and> ?P (gm_put k (g\<lparr>gOutOfSync := True\<rparr>) m) sm bm))
    (resyncGroup E k g) (\<lambda>_. of_caches ?P) (of_caches ?P)"
    by (rule resyncGroup_triple [OF assms])
  then have "hoare (at_groups (gm_put k g M)) (resyncGroup E k g) (\<lambda>_. of_caches ?P) (of_caches ?P)"
    by (rule hoare_weaken) (auto simp: at_groups_def)
  then show ?thesis by (rule hoare_attempt) (auto simp: at_groups_def)
qed

subsection \<open>The end of a promotion\<close>

definition promoted :: "group_server list \<Rightarrow> group \<Rightarrow> group" where
  "promoted servers g =
     \<lparr>gName = gName g, gServers = servers, gPromotingIndex = 0, gPromotingState = ActionNothing,
      gOutOfSync = False, gProxyReadPort = gProxyReadPort g, gProxyWritePort = gProxyWritePort g,
      gCreateTime = gCreateTime g\<rparr>"

text \<open>The servers in their final order.\<close>

definition promotion_target :: "group \<Rightarrow> string \<Rightarrow> group_server list" where
  "promotion_target g addr =
     (if gPromotingState g = ActionFinished then gServers g
      else swap0 (nat (GetServerIndex g addr)) (gServers g))"

definition in_promotion :: "group \<Rightarrow> string \<Rightarrow> bool" where
  "in_promotion g addr \<longleftrightarrow>
     gPromotingState g \<in> {ActionPreparing, ActionPrepared, ActionFinished} \<and>
     GetServerIndex g addr = gPromotingIndex g \<and> GetServerIndex g addr \<noteq> - 1"

definition progress :: "group \<Rightarrow> string \<Rightarrow> group \<Rightarrow> bool" where
  "progress g addr g' \<longleftrightarrow>
     in_promotion g' addr \<and> same_identity g g' \<and> gCreateTime g' = gCreateTime g \<and>
     promotion_target g' addr = promotion_target g addr"

lemma promoteFinished_at:
  assumes "gName g = k" and "gServers g = servers"
    and "\<And>t. at_groups M t \<Longrightarrow> R t"
  shows "hoare (at_groups M) (promoteFinished E g) (\<lambda>_. at_groups (gm_put k (promoted servers g) M)) R"
  unfolding promoteFinished_def assms(2) promoted_def [symmetric]
  by (rule hoare_at, rule update_at) (auto simp: assms promoted_def)

lemma hoare_disj: "hoare P m Q R \<Longrightarrow> hoare P' m Q R \<Longrightarrow> hoare (\<lambda>s. P s \<or> P' s) m Q R"
  by (auto simp: hoare_def)

lemma promoted_simps [simp]:
  "promoted ss (g\<lparr>gServers := x\<rparr>) = promoted ss g" "promoted ss (g\<lparr>gPromotingIndex := i\<rparr>) = promoted ss g"
  "promoted ss (g\<lparr>gPromotingState := st\<rparr>) = promoted ss g" "promoted ss (g\<lparr>gOutOfSync := b\<rparr>) = promoted ss g"
  by (simp_all add: promoted_def)

text \<open>The group between the swap and the end.\<close>

definition swapped :: "group \<Rightarrow> group" where
  "swapped h = h\<lparr>gServers := swap0 (nat (gPromotingIndex h)) (gServers h),
     gPromotingIndex := 0, gPromotingState := ActionFinished\<rparr>"

lemma promotePrepared_at:
  assumes k: "gName h = k" and R: "\<And>t. at_groups M t \<Longrightarrow> R t"
    and R': "\<And>t b. at_groups (gm_put k ((swapped h)\<lparr>gOutOfSync := b\<rparr>) M) t \<Longrightarrow> R t"
  shows "hoare (at_groups M) (promotePrepared E k h)
    (\<lambda>_. at_groups (gm_put k (promoted (swap0 (nat (gPromotingIndex h)) (gServers h)) h) M)) R"
proof -
  let ?g = "swapped h" and ?ss = "swap0 (nat (gPromotingIndex h)) (gServers h)"
  have k': "gName ?g = k" and ss: "gServers ?g = ?ss" using k by (simp_all add: swapped_def)
  have R1: "at_groups (gm_put k ?g M) t \<Longrightarrow> R t" for t using R' [of "gOutOfSync ?g"] by simp
  have fin: "hoare (at_groups (gm_put k x M)) (promoteFinished E ?g)
      (\<lambda>_. at_groups (gm_put k (promoted ?ss h) M)) R" if "\<And>t. at_groups (gm_put k x M) t \<Longrightarrow> R t" for x
    using promoteFinished_at [OF k' ss, of "gm_put k x M" R, OF that] by (simp add: swapped_def)
  have "hoare (at_groups M) (bindE (promote_sentinel E h) (\<lambda>_. bindE (assignGroup k ?g) (\<lambda>_.
      bindE (updateGroup E ?g) (\<lambda>_. bindE (attempt (resyncGroup E k ?g)) (\<lambda>_. promoteFinished E ?g)))))
      (\<lambda>_. at_groups (gm_put k (promoted ?ss h) M)) R"
    by (intro hoare_bind [OF promote_sentinel_at] store_at_then k' hoare_bind [OF resync_at] hoare_disj fin)
      (auto intro: R R1 R')
  then show ?thesis by (simp add: promotePrepared_def swapped_def Let_def)
qed

lemma promotePreparing_at:
  assumes k: "gName h = k" and R: "\<And>t. at_groups M t \<Longrightarrow> R t"
    and R1: "\<And>t. at_groups (gm_put k (h\<lparr>gPromotingState := ActionPrepared\<rparr>) M) t \<Longrightarrow> R t"
    and R2: "\<And>t b. at_groups (gm_put k ((swapped h)\<lparr>gOutOfSync := b\<rparr>) M) t \<Longrightarrow> R t"
  shows "hoare (at_groups M) (promotePreparing E k h)
    (\<lambda>_. at_groups (gm_put k (promoted (swap0 (nat (gPromotingIndex h)) (gServers h)) h) M)) R"
proof -
  let ?h = "h\<lparr>gPromotingState := ActionPrepared\<rparr>"
  have sw: "swapped ?h = swapped h" by (simp add: swapped_def)
  have "hoare (at_groups (gm_put k ?h M)) (promotePrepared E k ?h)
      (\<lambda>_. at_groups (gm_put k (promoted (swap0 (nat (gPromotingIndex h)) (gServers h)) h) M)) R"
    using promotePrepared_at [of ?h k "gm_put k ?h M" R E] k R1 R2 by (simp add: sw)
  then show ?thesis
    unfolding promotePreparing_def Let_def by (intro store_at_then) (auto intro: k R1)
qed

lemma promoteNothing_at:
  assumes k: "gName h = k" and R: "\<And>t. at_groups M t \<Longrightarrow> R t"
    and R0: "\<And>t. at_groups (gm_put k (h\<lparr>gPromotingIndex := i, gPromotingState := ActionPreparing\<rparr>) M) t \<Longrightarrow> R t"
    and R1: "\<And>t. at_groups (gm_put k (h\<lparr>gPromotingIndex := i, gPromotingState := ActionPrepared\<rparr>) M) t \<Longrightarrow> R t"
    and R2: "\<And>t b. at_groups (gm_put k ((swapped (h\<lparr>gPromotingIndex := i\<rparr>))\<lparr>gOutOfSync := b\<rparr>) M) t \<Longrightarrow> R t"
  shows "hoare (at_groups M) (promoteNothing E k h i)
    (\<lambda>_. at_groups (gm_put k (promoted (swap0 (nat i) (gServers h)) h) M)) R"
proof -
  let ?h = "h\<lparr>gPromotingIndex := i, gPromotingState := ActionPreparing\<rparr>"
  have sw: "swapped ?h = swapped (h\<lparr>gPromotingIndex := i\<rparr>)" by (simp add: swapped_def)
  have "hoare (at_groups (gm_put k ?h M)) (promotePreparing E k ?h)
      (\<lambda>_. at_groups (gm_put k (promoted (swap0 (nat i) (gServers h)) h) M)) R"
    using promotePreparing_at [of ?h k "gm_put k ?h M" R E] k R0 R1 R2 by (simp add: sw)
  then show ?thesis
    unfolding promoteNothing_def Let_def by (intro store_at_then) (auto intro: k R0)
qed

subsection \<open>The whole promotion\<close>

definition may_promote :: "group \<Rightarrow> string \<Rightarrow> bool" where
  "may_promote g addr \<longleftrightarrow>
     GetServerIndex g addr \<noteq> - 1 \<and>
     (if gPromotingState g = ActionNothing then GetServerIndex g addr \<noteq> 0 else in_promotion g addr)"

lemma GetServerIndex_servers: "gServers g = gServers h \<Longrightarrow> GetServerIndex g a = GetServerIndex h a"
  by (simp add: GetServerIndex_def)

lemma GetServerIndex_swap0:
  assumes "GetServerIndex g a \<noteq> - 1"
  shows "GetServerIndex (g\<lparr>gServers := swap0 (nat (GetServerIndex g a)) (gServers g)\<rparr>) a = 0"
proof -
  note some = GetServerIndex_some [OF assms]
  let ?ss = "swap0 (nat (GetServerIndex g a)) (gServers g)"
  have "?ss \<noteq> []" using some(2) by (metis length_swap0 length_0_conv not_less_zero)
  moreover have "sAddr (?ss ! 0) = a" using swap0_nth0 [OF some(2)] some(3) by simp
  ultimately show ?thesis by (cases ?ss) (auto simp: GetServerIndex_def index_of_def)
qed

lemma progress_state:
  assumes "promo_wf g" and "GetServerIndex g a \<noteq> - 1" and "gPromotingState g \<noteq> ActionFinished"
    and "st \<in> {ActionPreparing, ActionPrepared}"
  shows "progress g a (g\<lparr>gPromotingIndex := GetServerIndex g a, gPromotingState := st\<rparr>)"
  using assms GetServerIndex_some(1) [OF assms(2)]
    GetServerIndex_servers [of "g\<lparr>gPromotingIndex := GetServerIndex g a, gPromotingState := st\<rparr>" g a]
  by (auto simp: progress_def in_promotion_def same_identity_def promotion_target_def ports_def addrs_def
      promo_wf_def action_defs)

lemma progress_swapped:
  assumes "GetServerIndex g a \<noteq> - 1" and "gPromotingState g \<noteq> ActionFinished"
  shows "progress g a ((swapped (g\<lparr>gPromotingIndex := GetServerIndex g a\<rparr>))\<lparr>gOutOfSync := b\<rparr>)"
proof -
  let ?g = "(swapped (g\<lparr>gPromotingIndex := GetServerIndex g a\<rparr>))\<lparr>gOutOfSync := b\<rparr>"
  note some = GetServerIndex_some [OF assms(1)]
  have "GetServerIndex ?g a = 0"
    using GetServerIndex_swap0 [OF assms(1)]
      GetServerIndex_servers [of ?g "g\<lparr>gServers := swap0 (nat (GetServerIndex g a)) (gServers g)\<rparr>" a]
    by (simp add: swapped_def)
  moreover have "mset (addrs ?g) = mset (addrs g)"
    using some(2) by (simp add: addrs_def swapped_def map_swap0 mset_swap0)
  ultimately show ?thesis
    using assms by (simp add: progress_def in_promotion_def same_identity_def promotion_target_def ports_def
      promo_wf_def swapped_def)
qed

lemma same_identity_promoted:
  assumes "may_promote g a"
  shows "same_identity g (promoted (promotion_target g a) g)"
proof -
  from assms have "nat (GetServerIndex g a) < length (gServers g)"
    using GetServerIndex_some(2) by (simp add: may_promote_def)
  then have "mset (addrs (promoted (promotion_target g a) g)) = mset (addrs g)"
    by (simp add: addrs_def promoted_def promotion_target_def map_swap0 mset_swap0)
  then show ?thesis by (simp add: same_identity_def ports_def promo_wf_def promoted_def)
qed

lemma same_identity_refl: "promo_wf g \<Longrightarrow> same_identity g g"
  by (simp add: same_identity_def)

lemma GroupPromoteServer_spec:
  assumes "svc_inv s"
  shows "hoare (\<lambda>t. t = s) (GroupPromoteServer E k a)
    (\<lambda>_ t. svc_inv t \<and> (\<exists>g. gm_at (s_groups s) k = Some g \<and> may_promote g a \<and>
       s_groups t = gm_put k (promoted (promotion_target g a) g) (s_groups s)))
    (\<lambda>t. svc_inv t \<and> (s_groups t = s_groups s \<or>
       (\<exists>g g'. gm_at (s_groups s) k = Some g \<and> progress g a g' \<and> s_groups t = gm_put k g' (s_groups s))))"
    (is "hoare _ _ (\<lambda>_. ?Q) ?R")
  unfolding GroupPromoteServer_def groupsInfo_eq Let_def
proof (intro at_gets at_lookup at_guard)
  let ?M = "s_groups s"
  have inv: "groups_inv ?M" "at_groups ?M s" using assms by (auto simp: svc_inv_at)
  show R0: "?R s" "?R s" using assms by simp_all
  fix g
  assume g0: "map_of (gmGroups ?M) k = Some g" and idx: "GetServerIndex g a \<noteq> - 1"
  from g0 have g: "gm_at ?M k = Some g" by (simp add: gm_at_def)
  note gD = groups_invD [OF inv(1) g]
  let ?i = "GetServerIndex g a"
  have RM: "?R t" if "at_groups ?M t" for t
    using at_groups_both [OF inv(1) that] by simp
  have Rg: "?R t" if "progress g a g'" and "at_groups (gm_put k g' ?M) t" for t g'
    using at_groups_both [OF groups_inv_put [OF inv(1) g, of g'] that(2)] that(1) g by (auto simp: progress_def)
  have Qf: "hoare (at_groups ?M) m (\<lambda>_. ?Q) ?R"
    if "hoare (at_groups ?M) m (\<lambda>_. at_groups (gm_put k (promoted (promotion_target g a) g) ?M)) ?R"
      and "may_promote g a" for m :: "('a svc, unit) io"
    by (rule hoare_weaken [OF that(1)])
      (use at_groups_both [OF groups_inv_put [OF inv(1) g same_identity_promoted [OF that(2)]]] g that(2) in auto)
  note rules = promoteNothing_at promotePreparing_at promotePrepared_at promoteFinished_at
  show "hoare (\<lambda>t. t = s)
     (bindE (if gPromotingState g \<noteq> ActionNothing
             then guardE (?i = gPromotingIndex g) (ErrGroup (PromotingIndex (gName g) (gPromotingIndex g)))
             else guardE (?i \<noteq> 0) (ErrGroup (PromoteMaster (gName g)))) (\<lambda>_.
      if gPromotingState g = ActionNothing then promoteNothing E k g ?i
      else if gPromotingState g = ActionPreparing then promotePreparing E k g
      else if gPromotingState g = ActionPrepared then promotePrepared E k g
      else if gPromotingState g = ActionFinished then promoteFinished E g
      else fail (ErrGroup (ActionStateInvalid (gName g))))) (\<lambda>_. ?Q) ?R"
  proof (cases "gPromotingState g = ActionNothing")
    case True
    then have nf: "gPromotingState g \<noteq> ActionFinished" by (simp add: action_defs)
    have may: "may_promote g a" if "?i \<noteq> 0" using that True idx by (simp add: may_promote_def)
    have p1: "progress g a (g\<lparr>gPromotingIndex := ?i, gPromotingState := ActionPreparing\<rparr>)"
      and p2: "progress g a (g\<lparr>gPromotingIndex := ?i, gPromotingState := ActionPrepared\<rparr>)"
      using progress_state [OF gD(2) idx nf] by simp_all
    have "hoare (at_groups ?M) (promoteNothing E k g ?i)
        (\<lambda>_. at_groups (gm_put k (promoted (promotion_target g a) g) ?M)) ?R"
      using promoteNothing_at [OF gD(1) RM Rg [OF p1] Rg [OF p2] Rg [OF progress_swapped [OF idx nf]]] nf
      by (simp add: promotion_target_def)
    with True show ?thesis
      by (simp only: simp_thms if_False if_True, intro at_guard R0 at_pre [OF Qf inv(2)] may)
  next
    case False
    have prog: "hoare (at_groups ?M) (if gPromotingState g = ActionPreparing then promotePreparing E k g
        else if gPromotingState g = ActionPrepared then promotePrepared E k g
        else if gPromotingState g = ActionFinished then promoteFinished E g
        else fail (ErrGroup (ActionStateInvalid (gName g)))) (\<lambda>_. ?Q) ?R" if i: "?i = gPromotingIndex g"
    proof -
      have gi: "g\<lparr>gPromotingIndex := ?i\<rparr> = g" using i by simp
      have may: "may_promote g a"
        using gD(2) i False idx by (auto simp: may_promote_def in_promotion_def promo_wf_def)
      show ?thesis
      proof (cases "gPromotingState g = ActionFinished")
        case True
        then have "promotion_target g a = gServers g" by (simp add: promotion_target_def)
        with True False show ?thesis
          using Qf [OF promoteFinished_at [OF gD(1) _ RM] may] by (simp add: action_defs)
      next
        case nf: False
        have st: "gPromotingState g = ActionPreparing \<or> gPromotingState g = ActionPrepared"
          using gD(2) nf False by (auto simp: promo_wf_def)
        have pg: "progress g a (g\<lparr>gPromotingState := ActionPrepared\<rparr>)"
          using progress_state [OF gD(2) idx nf, of ActionPrepared] i by (simp add: gi)
        have ps: "progress g a ((swapped g)\<lparr>gOutOfSync := b\<rparr>)" for b
          using progress_swapped [OF idx nf, of b] by (simp add: gi)
        have target: "promotion_target g a = swap0 (nat (gPromotingIndex g)) (gServers g)"
          using nf i by (simp add: promotion_target_def)
        from st show ?thesis
        proof
          assume "gPromotingState g = ActionPreparing"
          then show ?thesis
            using Qf [OF _ may, unfolded target, OF promotePreparing_at [OF gD(1) RM Rg [OF pg] Rg [OF ps]]] by simp
        next
          assume "gPromotingState g = ActionPrepared"
          then show ?thesis
            using Qf [OF _ may, unfolded target, OF promotePrepared_at [OF gD(1) RM Rg [OF ps]]]
            by (simp add: action_defs)
        qed
      qed
    qed
    from False show ?thesis
      by (simp only: simp_thms if_False if_True, intro at_guard R0 at_pre [OF prog inv(2)])
  qed
qed

end
