(* ===== verification/SentinelEffects.thy ===== *)
theory SentinelEffects
  imports Promotion
begin

section \<open>Effects of the sentinel operations and of a failover\<close>

text \<open>
  \<open>sn_at M sn s\<close>: the group cache is \<open>M\<close>, the sentinel object is \<open>sn\<close>. The operations on
  sentinels leave the groups alone; the switch of a master that follows a failover changes the
  order of the servers of its group and nothing else but the out-of-sync mark.
\<close>

definition sn_at :: "group_mapper \<Rightarrow> sentinel \<Rightarrow> 'w svc \<Rightarrow> bool" where
  "sn_at M sn s \<longleftrightarrow> s_groups s = M \<and> smSentinel (s_sentinel s) = sn \<and> gslb_inv (s_gslb s)"

lemma sn_at_inv: "groups_inv M \<Longrightarrow> distinct (snServers sn) \<Longrightarrow> sn_at M sn s \<Longrightarrow> svc_inv s"
  by (simp add: sn_at_def svc_inv_def sentinel_inv_def)

lemma svc_inv_sn_at: "svc_inv s \<Longrightarrow> sn_at (s_groups s) (smSentinel (s_sentinel s)) s"
  by (simp add: sn_at_def svc_inv_def)

lemma sn_rule:
  assumes "svc_inv s" and "\<And>x t. sn_at (s_groups s) sn t \<Longrightarrow> Q x t"
    and "hoare (sn_at (s_groups s) (smSentinel (s_sentinel s))) m (\<lambda>_. sn_at (s_groups s) sn) R"
  shows "hoare (\<lambda>t. t = s) m Q R"
  by (rule at_rule [OF svc_inv_sn_at [OF assms(1)] assms(2,3)])

lemma onWorld_sn:
  assumes "\<And>t. sn_at M sn t \<Longrightarrow> R t"
  shows "hoare (sn_at M sn) (onWorld m) (\<lambda>_. sn_at M sn) R"
  by (rule hoare_weaken [OF keeps_onWorld [where P = "\<lambda>m sm bm. m = M \<and> smSentinel sm = sn \<and> gslb_inv bm"]])
    (auto simp: sn_at_def intro!: assms)

lemma attempt_onWorld_sn: "hoare (sn_at M sn) (attempt (onWorld m)) (\<lambda>_. sn_at M sn) R"
  by (rule hoare_attempt [OF onWorld_sn]) auto

lemma gets_sn: "hoare (sn_at M sn) (gets f) (\<lambda>_. sn_at M sn) R"
  by (simp add: hoare_def gets_def)

lemma product_sn: "hoare (sn_at M sn) sentinel_product (\<lambda>_. sn_at M sn) R"
  by (simp add: sentinel_product_def gets_sn)

lemma guard_sn:
  assumes "\<And>t. sn_at M sn t \<Longrightarrow> R t" and "c \<Longrightarrow> hoare (sn_at M sn) f Q R"
  shows "hoare (sn_at M sn) (bindE (guardE c e) (\<lambda>_. f)) Q R"
  using assms by (cases c) (auto simp: hoare_def fail_def)

lemma mark_sn:
  assumes "\<And>t. sn_at M sn t \<Longrightarrow> R t"
  shows "hoare (sn_at M sn0) (bindE (assignSentinel sn) (\<lambda>_. updateSentinel E sn)) (\<lambda>_. sn_at M sn) R"
  by (rule hoare_weaken [OF markSentinel_triple
        [where P = "\<lambda>m sm bm. m = M \<and> smSentinel sm = sn \<and> gslb_inv bm"]])
    (auto simp: sn_at_def intro!: assms)

lemma mark_sn_then:
  assumes "\<And>t. sn_at M sn t \<Longrightarrow> R t" and "\<And>x. hoare (sn_at M sn) (f x) Q R"
  shows "hoare (sn_at M sn0) (bindE (assignSentinel sn) (\<lambda>_. bindE (updateSentinel E sn) f)) Q R"
  unfolding bindE_assoc [symmetric] by (rule hoare_bind [OF mark_sn assms(2)]) (rule assms(1))

subsection \<open>Adding and removing sentinels, resynchronising them\<close>

lemma AddSentinel_spec:
  assumes "svc_inv s"
  shows "hoare (\<lambda>t. t = s) (AddSentinel E a)
    (\<lambda>_ t. svc_inv t \<and> s_groups t = s_groups s \<and> a \<noteq> [] \<and> a \<notin> set (snServers (smSentinel (s_sentinel s))) \<and>
       smSentinel (s_sentinel t) =
         \<lparr>snServers = snServers (smSentinel (s_sentinel s)) @ [a], snOutOfSync = True\<rparr>)
    svc_inv" (is "hoare _ _ (\<lambda>_. ?Q) _")
  unfolding AddSentinel_def sentinelInfo_eq Let_def
proof (intro at_gets at_guard assms, goal_cases)
  case 1
  let ?M = "s_groups s" and ?sn = "smSentinel (s_sentinel s)"
  let ?sn' = "?sn\<lparr>snServers := snServers ?sn @ [a], snOutOfSync := True\<rparr>"
  have inv: "groups_inv ?M" "distinct (snServers ?sn)" using assms by (simp_all add: svc_inv_def sentinel_inv_def)
  have d': "distinct (snServers ?sn')" using inv 1 by simp
  show ?case
    by (rule sn_rule [OF assms, where sn = ?sn'], use 1 sn_at_inv [OF inv(1) d'] in \<open>fastforce simp: sn_at_def\<close>,
        intro hoare_bind [OF product_sn] hoare_prod hoare_bind [OF onWorld_sn] mark_sn)
      (auto intro: sn_at_inv [OF inv] sn_at_inv [OF inv(1) d'])
qed

lemma DelSentinel_spec:
  assumes "svc_inv s"
  shows "hoare (\<lambda>t. t = s) (DelSentinel E a force)
    (\<lambda>_ t. svc_inv t \<and> s_groups t = s_groups s \<and> a \<in> set (snServers (smSentinel (s_sentinel s))) \<and>
       snOutOfSync (smSentinel (s_sentinel t)) \<and>
       mset (snServers (smSentinel (s_sentinel t))) = mset (snServers (smSentinel (s_sentinel s))) - {#a#})
    svc_inv" (is "hoare _ _ (\<lambda>_. ?Q) _")
  unfolding DelSentinel_def sentinelInfo_eq Let_def
proof (intro at_gets at_guard assms, goal_cases)
  case 1
  let ?M = "s_groups s" and ?sn = "smSentinel (s_sentinel s)"
  let ?i = "index_of (\<lambda>v. v = a) (snServers ?sn)" and ?sn1 = "?sn\<lparr>snOutOfSync := True\<rparr>"
  let ?sn2 = "?sn1\<lparr>snServers := remove_at (nat ?i) (snServers ?sn1)\<rparr>"
  from 1 have some: "nat ?i < length (snServers ?sn)" "snServers ?sn ! nat ?i = a"
    using index_of_some [of "\<lambda>v. v = a" "snServers ?sn"] by auto
  then have mem: "a \<in> set (snServers ?sn)" by (metis nth_mem)
  have inv: "groups_inv ?M" "distinct (snServers ?sn)" using assms by (simp_all add: svc_inv_def sentinel_inv_def)
  have d1: "distinct (snServers ?sn1)" using inv(2) by simp
  have m: "mset (snServers ?sn2) = mset (snServers ?sn) - {#a#}" using some by (simp add: mset_remove_at)
  then have d2: "distinct (snServers ?sn2)" using inv(2) by (auto intro: distinct_subseteq)
  show ?case
    by (rule sn_rule [OF assms, where sn = ?sn2], use mem m sn_at_inv [OF inv(1) d2] in \<open>fastforce simp: sn_at_def\<close>,
        intro mark_sn_then hoare_bind [OF product_sn] hoare_prod hoare_bind [OF attempt_onWorld_sn] guard_sn mark_sn)
      (auto intro: sn_at_inv [OF inv(1) d1] sn_at_inv [OF inv(1) d2])
qed

lemma ResyncSentinels_spec:
  assumes "svc_inv s"
  shows "hoare (\<lambda>t. t = s) (ResyncSentinels E)
    (\<lambda>_ t. svc_inv t \<and> s_groups t = s_groups s \<and>
       smSentinel (s_sentinel t) = (smSentinel (s_sentinel s))\<lparr>snOutOfSync := False\<rparr>)
    (\<lambda>t. svc_inv t \<and> snServers (smSentinel (s_sentinel t)) = snServers (smSentinel (s_sentinel s)))"
    (is "hoare _ _ (\<lambda>_. ?Q) ?R")
  unfolding ResyncSentinels_def sentinelInfo_eq groupsInfo_eq Let_def
proof (intro at_gets, goal_cases)
  case 1
  let ?M = "s_groups s" and ?sn = "smSentinel (s_sentinel s)"
  let ?sn1 = "?sn\<lparr>snOutOfSync := True\<rparr>" and ?sn2 = "?sn\<lparr>snOutOfSync := True\<rparr>\<lparr>snOutOfSync := False\<rparr>"
  have inv: "groups_inv ?M" "distinct (snServers ?sn)" using assms by (simp_all add: svc_inv_def sentinel_inv_def)
  have R: "?R t" if "sn_at ?M (?sn\<lparr>snOutOfSync := b\<rparr>) t" for t b
    using sn_at_inv [OF inv(1) _ that] that inv(2) by (simp add: sn_at_def)
  have Q: "?Q t" if "sn_at ?M ?sn2 t" for t
    using R [of False t] that by (simp add: sn_at_def)
  have watch: "hoare (sn_at ?M sn) (reWatchSentinels xs) (\<lambda>_. sn_at ?M sn) ?R" for sn xs
    by (simp add: reWatchSentinels_def hoare_def modifyE_def sn_at_def)
  show ?case
    by (rule sn_rule [OF assms, where sn = ?sn2], erule Q,
        intro mark_sn_then hoare_bind [OF product_sn] hoare_prod hoare_bind [OF gets_sn]
          hoare_bind [OF attempt_onWorld_sn] hoare_bind [OF onWorld_sn] hoare_bind [OF watch] mark_sn R)
      (auto intro: R)
qed

end
