(* ===== verification/Failover.thy ===== *)
theory Failover
  imports SentinelEffects
begin

section \<open>Failover: switching masters\<close>

text \<open>
  The state of \<open>trySwitchGroupMaster\<close> is the info cache with the service; \<open>cached_at M\<close> says
  that the service's group cache is \<open>M\<close>. The search for the new master touches only the world
  and the info cache, and it finds an index of the group.
\<close>

definition cached_at :: "group_mapper \<Rightarrow> info_cache \<times> 'w svc \<Rightarrow> bool" where
  "cached_at M cs \<longleftrightarrow> at_groups M (snd cs)"

lemma runId_at: "hoare (cached_at M) (runId E a) (\<lambda>_. cached_at M) R"
  by (auto simp: hoare_iff runId_def cached_at_def at_groups_def split: prod.split)

lemma onW_cached:
  "hoare (at_groups M) m (\<lambda>_. at_groups M') R \<Longrightarrow>
     hoare (cached_at M) (onW m) (\<lambda>_. cached_at M') (\<lambda>cs. R (snd cs))"
  by (auto simp: hoare_iff onW_def cached_at_def case_prod_beta split: sum.splits)

text \<open>An index the search gives is \<open>-1\<close> or an index of the list, counted from \<open>i\<close>.\<close>

lemma find_run_id_at:
  "hoare (cached_at M) (find_run_id E a i ss)
     (\<lambda>j cs. cached_at M cs \<and> (j = - 1 \<or> (i \<le> j \<and> j < i + int (length ss)))) R"
proof (induction ss arbitrary: i)
  case Nil
  show ?case by (simp add: hoare_def ret_def)
next
  case (Cons v vs)
  have weak: "hoare (cached_at M) (find_run_id E a (i + 1) vs)
     (\<lambda>j cs. cached_at M cs \<and> (j = - 1 \<or> (i \<le> j \<and> j < i + int (length (v # vs))))) R"
    by (rule hoare_weaken [OF Cons.IH]) auto
  have here: "hoare (cached_at M) (ret i)
     (\<lambda>j cs. cached_at M cs \<and> (j = - 1 \<or> (i \<le> j \<and> j < i + int (length (v # vs))))) R"
    by (simp add: hoare_def ret_def)
  show ?case
    unfolding find_run_id.simps by (intro hoare_bind [OF runId_at] hoare_if weak here)
qed

definition found_at :: "group \<Rightarrow> string \<Rightarrow> int \<Rightarrow> bool" where
  "found_at g a j \<longleftrightarrow>
     (j = - 1 \<or> (0 \<le> j \<and> nat j < length (gServers g))) \<and>
     (a \<in> set (addrs g) \<longrightarrow> j = GetServerIndex g a)"

lemma find_master_at:
  "hoare (cached_at M) (find_master E g a) (\<lambda>j cs. cached_at M cs \<and> found_at g a j) R"
proof -
  let ?i = "index_of (\<lambda>v. sAddr v = a) (gServers g)"
  have "hoare (cached_at M) (find_run_id E a 0 (gServers g)) (\<lambda>j cs. cached_at M cs \<and> found_at g a j) R"
    if "?i = - 1"
  proof -
    from that have "a \<notin> set (addrs g)" by (auto simp: index_of_none addrs_def)
    then show ?thesis
      by (intro hoare_weaken [OF find_run_id_at [of M E a 0 "gServers g" R]]) (auto simp: found_at_def)
  qed
  moreover have "hoare (cached_at M) (ret ?i) (\<lambda>j cs. cached_at M cs \<and> found_at g a j) R" if "?i \<noteq> - 1"
    using index_of_some(1,2) [OF that] by (simp add: hoare_def ret_def found_at_def GetServerIndex_def)
  ultimately show ?thesis unfolding find_master_def Let_def by (intro hoare_if) auto
qed

text \<open>The group after a switch to the server at index \<open>i\<close>.\<close>

definition switched :: "nat \<Rightarrow> group \<Rightarrow> group" where
  "switched i g = g\<lparr>gServers := swap0 i (gServers g), gOutOfSync := True\<rparr>"

lemma same_identity_switched:
  "promo_wf g \<Longrightarrow> i < length (gServers g) \<Longrightarrow> same_identity g (switched i g)"
  by (simp add: same_identity_def switched_def ports_def addrs_def promo_wf_def map_swap0 mset_swap0)

lemma switch_to_at:
  assumes "groups_inv M" and "gm_at M k = Some g" and "nat i < length (gServers g)"
  shows "hoare (at_groups M) (switch_to E k g i) (\<lambda>_. at_groups (gm_put k (switched (nat i) g) M))
    (at_groups (gm_put k (switched (nat i) g) M))"
  unfolding switch_to_def Let_def switched_def [symmetric]
  using groups_invD(1) [OF assms(1,2)]
  by (intro store_at_then refresh_at) (auto simp: switched_def)

text \<open>
  The group caches that a switch can lead to: at most the group \<open>k\<close> has changed, and when the
  reported address is one of the group's own, its server is the master now.
\<close>

definition may_switch :: "group_mapper \<Rightarrow> string \<Rightarrow> string \<Rightarrow> group_mapper \<Rightarrow> bool" where
  "may_switch M k a M' \<longleftrightarrow>
     (M' = M \<or> (\<exists>g i. gm_at M k = Some g \<and> i < length (gServers g) \<and> M' = gm_put k (switched i g) M)) \<and>
     (\<forall>g. gm_at M k = Some g \<longrightarrow> a \<in> set (addrs g) \<longrightarrow> (\<exists>g'. gm_at M' k = Some g' \<and> GetMaster g' = a))"

lemma may_switch_inv: "groups_inv M \<Longrightarrow> may_switch M k a M' \<Longrightarrow> groups_inv M'"
  by (auto simp: may_switch_def intro!: groups_inv_put same_identity_switched groups_invD(2))

definition switch_post :: "group_mapper \<Rightarrow> string \<Rightarrow> string \<Rightarrow> info_cache \<times> 'w svc \<Rightarrow> bool" where
  "switch_post M k a cs \<longleftrightarrow> (\<exists>M'. may_switch M k a M' \<and> cached_at M' cs)"

lemma GetMaster_nth: "gServers g \<noteq> [] \<Longrightarrow> GetMaster g = sAddr (gServers g ! 0)"
  by (cases "gServers g") (simp_all add: GetMaster_def)

lemma GetMaster_switched: "i < length (gServers g) \<Longrightarrow> GetMaster (switched i g) = sAddr (gServers g ! i)"
proof -
  assume i: "i < length (gServers g)"
  then have "swap0 i (gServers g) \<noteq> []" by (metis length_swap0 list.size(3) not_less_zero)
  with swap0_nth0 [OF i] show ?thesis by (simp add: GetMaster_nth switched_def)
qed

lemma found_master:
  assumes "found_at g a j" and "a \<in> set (addrs g)"
  shows "j \<noteq> - 1" and "nat j < length (gServers g)" and "sAddr (gServers g ! nat j) = a"
    and "j = 0 \<longrightarrow> GetMaster g = a"
proof -
  from assms have j: "j = GetServerIndex g a" "GetServerIndex g a \<noteq> - 1"
    by (auto simp: found_at_def GetServerIndex_none)
  note some = GetServerIndex_some [OF j(2), folded j(1)]
  from j some(2,3) show "j \<noteq> - 1" "nat j < length (gServers g)" "sAddr (gServers g ! nat j) = a" by auto
  from some(2,3) show "j = 0 \<longrightarrow> GetMaster g = a" by (auto simp: GetMaster_nth)
qed

text \<open>What follows the search, for the index \<open>j\<close> it found.\<close>

definition after_search :: "'w env \<Rightarrow> string \<Rightarrow> string \<Rightarrow> group \<Rightarrow> int \<Rightarrow> (info_cache \<times> 'w svc, unit) io" where
  "after_search E k a g j =
     (if j = - 1 then bindE (runId E a) (\<lambda>_. fail (ErrSentinel (NoServerWithRunId k a)))
      else if j = 0 then ret () else onW (switch_to E k g j))"

lemma after_search_at:
  assumes "groups_inv M" and g: "gm_at M k = Some g" and j: "found_at g a j"
  shows "hoare (cached_at M) (after_search E k a g j) (\<lambda>_. switch_post M k a) (switch_post M k a)"
  unfolding after_search_def
proof (intro hoare_if, goal_cases)
  case 1
  then have "a \<notin> set (addrs g)" using found_master(1) [OF j] by blast
  with g have stay: "switch_post M k a cs" if "cached_at M cs" for cs :: "info_cache \<times> 'a svc"
    using that by (auto simp: switch_post_def may_switch_def)
  show ?case by (intro hoare_bind [OF runId_at], rule hoareI) (auto simp: fail_def stay)
next
  case 2
  with g found_master(4) [OF j] have stay: "switch_post M k a cs" if "cached_at M cs" for cs :: "info_cache \<times> 'a svc"
    using that by (auto simp: switch_post_def may_switch_def)
  show ?case by (rule hoareI) (auto simp: ret_def stay)
next
  case 3
  with j have len: "nat j < length (gServers g)" by (simp add: found_at_def)
  then have "may_switch M k a (gm_put k (switched (nat j) g) M)"
    using g found_master(3) [OF j] by (auto simp: may_switch_def GetMaster_switched)
  then show ?case
    by (intro hoare_weaken [OF onW_cached [OF switch_to_at [OF assms(1) g len]]])
      (auto simp: switch_post_def cached_at_def)
qed

lemma trySwitch_at:
  assumes "groups_inv M"
  shows "hoare (cached_at M) (trySwitchGroupMaster E k a) (\<lambda>_. switch_post M k a) (switch_post M k a)"
proof (rule hoare_at)
  fix s :: "info_cache \<times> 'a svc"
  assume s: "cached_at M s"
  have info: "onW groupsInfo = gets (\<lambda>cs :: info_cache \<times> 'a svc. gmGroups (s_groups (snd cs)))"
    by (rule ext) (simp add: onW_def gets_def)
  have M: "s_groups (snd s) = M" using s by (simp add: cached_at_def at_groups_def)
  show "hoare (\<lambda>t. t = s) (trySwitchGroupMaster E k a) (\<lambda>_. switch_post M k a) (switch_post M k a)"
  proof (cases "gm_at M k")
    case None
    then have "switch_post M k a s" using s by (auto simp: switch_post_def may_switch_def)
    moreover have "map_of (gmGroups M) k = None" using None by (simp add: gm_at_def)
    ultimately show ?thesis
      unfolding trySwitchGroupMaster_def info by (intro at_gets at_lookup) (auto simp: M)
  next
    case (Some g)
    then have "map_of (gmGroups M) k = Some g" by (simp add: gm_at_def)
    then have eq: "trySwitchGroupMaster E k a s = bindE (find_master E g a) (after_search E k a g) s"
      unfolding trySwitchGroupMaster_def info after_search_def [abs_def]
      by (simp add: bindE_gets bindE_lookup M)
    have "hoare (\<lambda>t. t = s) (bindE (find_master E g a) (after_search E k a g)) (\<lambda>_. switch_post M k a) (switch_post M k a)"
    proof (rule at_pre [OF hoare_bind [OF find_master_at] s])
      fix j
      show "hoare (\<lambda>cs. cached_at M cs \<and> found_at g a j) (after_search E k a g j)
          (\<lambda>_. switch_post M k a) (switch_post M k a)"
        using after_search_at [OF assms Some, of a j E] by (simp add: hoare_def)
    qed
    then show ?thesis by (simp add: hoare_def eq)
  qed
qed

subsection \<open>All masters\<close>

text \<open>
  What a whole report leads to: every group keeps its servers up to their order, and each
  reported address that is one of its group's own is the master of it.
\<close>

definition same_group :: "group \<Rightarrow> group \<Rightarrow> bool" where
  "same_group g g' \<longleftrightarrow>
     mset (addrs g') = mset (addrs g) \<and> gName g' = gName g \<and> ports g' = ports g \<and>
     gPromotingState g' = gPromotingState g"

definition same_servers :: "group_mapper \<Rightarrow> group_mapper \<Rightarrow> bool" where
  "same_servers M M' \<longleftrightarrow> (\<forall>k. rel_option same_group (gm_at M k) (gm_at M' k))"

definition reported :: "group_mapper \<Rightarrow> (string \<times> string) list \<Rightarrow> group_mapper \<Rightarrow> bool" where
  "reported M masters M' \<longleftrightarrow>
     (\<forall>(k, a) \<in> set masters. \<forall>g. gm_at M k = Some g \<longrightarrow> a \<in> set (addrs g) \<longrightarrow>
        (\<exists>g'. gm_at M' k = Some g' \<and> GetMaster g' = a))"

lemma same_group_refl: "same_group g g"
  by (simp add: same_group_def)

lemma same_servers_refl: "same_servers M M"
  by (simp add: same_servers_def option.rel_refl same_group_refl)

lemma same_servers_trans:
  assumes "same_servers M M'" and "same_servers M' M''"
  shows "same_servers M M''"
  unfolding same_servers_def
proof
  fix k
  from assms have "rel_option same_group (gm_at M k) (gm_at M' k)" "rel_option same_group (gm_at M' k) (gm_at M'' k)"
    by (simp_all add: same_servers_def)
  then show "rel_option same_group (gm_at M k) (gm_at M'' k)"
    by (cases "gm_at M k"; cases "gm_at M' k"; cases "gm_at M'' k") (simp_all add: same_group_def)
qed

lemma may_switch_same: "may_switch M k a M' \<Longrightarrow> same_servers M M'"
  by (auto simp: may_switch_def same_servers_def option.rel_refl same_group_def switched_def ports_def addrs_def
      map_swap0 mset_swap0)

lemma may_switch_other: "may_switch M k a M' \<Longrightarrow> k' \<noteq> k \<Longrightarrow> gm_at M' k' = gm_at M k'"
  by (auto simp: may_switch_def)

lemma report_step:
  assumes "may_switch M k a M'" and "reported M' masters M''" and "k \<notin> fst ` set masters"
    and "\<forall>k'. k' \<notin> fst ` set masters \<longrightarrow> gm_at M'' k' = gm_at M' k'"
  shows "reported M ((k, a) # masters) M''"
proof -
  have k: "gm_at M'' k = gm_at M' k" using assms(3,4) by blast
  have "\<exists>g'. gm_at M'' k = Some g' \<and> GetMaster g' = a" if "gm_at M k = Some g" "a \<in> set (addrs g)" for g
    using assms(1) that unfolding may_switch_def k by blast
  moreover have "\<exists>g'. gm_at M'' k' = Some g' \<and> GetMaster g' = a'"
    if "(k', a') \<in> set masters" "gm_at M k' = Some g" "a' \<in> set (addrs g)" for k' a' g
  proof -
    from that(1) assms(3) have "k' \<noteq> k" by force
    with may_switch_other [OF assms(1)] that(2) have "gm_at M' k' = Some g" by simp
    with assms(2) that(1,3) show ?thesis unfolding reported_def by blast
  qed
  ultimately show ?thesis unfolding reported_def by (simp split: prod.split) blast
qed

definition report_post :: "group_mapper \<Rightarrow> (string \<times> string) list \<Rightarrow> info_cache \<times> 'w svc \<Rightarrow> bool" where
  "report_post M masters cs \<longleftrightarrow>
     (\<exists>M'. groups_inv M' \<and> same_servers M M' \<and> reported M masters M' \<and>
        (\<forall>k. k \<notin> fst ` set masters \<longrightarrow> gm_at M' k = gm_at M k) \<and> cached_at M' cs)"

lemma switch_all_at:
  assumes "groups_inv M" and "distinct (map fst masters)"
  shows "hoare (cached_at M) (forE masters (\<lambda>(k, a). bindE (attempt (trySwitchGroupMaster E k a)) (\<lambda>_. ret ())))
    (\<lambda>_. report_post M masters) (report_post M masters)"
  using assms
proof (induction masters arbitrary: M)
  case Nil
  then show ?case
    by (auto simp: hoare_def ret_def report_post_def reported_def same_servers_refl)
next
  case (Cons m masters)
  obtain k a where m: "m = (k, a)" by fastforce
  have one: "hoare (cached_at M) (bindE (attempt (trySwitchGroupMaster E k a)) (\<lambda>_. ret ()))
      (\<lambda>_. switch_post M k a) (report_post M (m # masters))"
  proof (rule hoare_bind)
    show "hoare (cached_at M) (attempt (trySwitchGroupMaster E k a)) (\<lambda>_. switch_post M k a) (report_post M (m # masters))"
      by (rule hoare_attempt [OF trySwitch_at [OF Cons.prems(1)]])
  qed (simp add: hoare_def ret_def)
  have more: "hoare (switch_post M k a)
      (forE masters (\<lambda>(k, a). bindE (attempt (trySwitchGroupMaster E k a)) (\<lambda>_. ret ())))
      (\<lambda>_. report_post M (m # masters)) (report_post M (m # masters))"
  proof (rule hoare_at)
    fix s :: "info_cache \<times> 'a svc"
    assume "switch_post M k a s"
    then obtain M' where M': "may_switch M k a M'" and s: "cached_at M' s" by (auto simp: switch_post_def)
    have post: "report_post M (m # masters) cs" if rp: "report_post M' masters cs" for cs :: "info_cache \<times> 'a svc"
    proof -
      from rp obtain M'' where "groups_inv M''" and ss: "same_servers M' M''" and r: "reported M' masters M''"
        and o: "\<forall>k. k \<notin> fst ` set masters \<longrightarrow> gm_at M'' k = gm_at M' k" and "cached_at M'' cs"
        by (auto simp: report_post_def)
      moreover have "reported M (m # masters) M''"
        using report_step [OF M' r _ o] Cons.prems(2) by (simp add: m)
      moreover have "\<forall>k'. k' \<notin> fst ` set (m # masters) \<longrightarrow> gm_at M'' k' = gm_at M k'"
        using o may_switch_other [OF M'] by (simp add: m)
      ultimately show ?thesis
        using same_servers_trans [OF may_switch_same [OF M'] ss] by (auto simp: report_post_def)
    qed
    show "hoare (\<lambda>t. t = s) (forE masters (\<lambda>(k, a). bindE (attempt (trySwitchGroupMaster E k a)) (\<lambda>_. ret ())))
        (\<lambda>_. report_post M (m # masters)) (report_post M (m # masters))"
      by (rule hoare_weaken [OF Cons.IH [OF may_switch_inv [OF Cons.prems(1) M']]])
        (use Cons.prems(2) post s in auto)
  qed
  show ?case using hoare_bind [OF one more] by (simp add: m)
qed

lemma switchMasters_spec:
  assumes "svc_inv s" and "distinct (map fst masters)"
  shows "hoare (\<lambda>t. t = s) (switchMasters E masters)
    (\<lambda>_ t. svc_inv t \<and> \<not> s_closed s \<and> same_servers (s_groups s) (s_groups t) \<and>
       reported (s_groups s) masters (s_groups t) \<and>
       (\<forall>k. k \<notin> fst ` set masters \<longrightarrow> gm_at (s_groups t) k = gm_at (s_groups s) k))
    svc_inv" (is "hoare _ _ (\<lambda>_. ?Q) _")
  unfolding switchMasters_def
proof (intro at_gets at_guard assms(1))
  assume open': "\<not> s_closed s"
  let ?M = "s_groups s" and ?s = "s\<lparr>s_haMasters := Some masters\<rparr>"
  let ?c = "\<lparr>icAuth = ProductAuth (s_config s), icData = [], icTimeout = 100 * time_Millisecond\<rparr>"
  let ?m = "forE masters (\<lambda>(k, a). bindE (attempt (trySwitchGroupMaster E k a)) (\<lambda>_. ret ()))"
  have inv: "groups_inv ?M" using assms(1) by (simp add: svc_inv_def)
  have at: "cached_at ?M (?c, ?s)" using assms(1) by (simp add: cached_at_def at_groups_def svc_inv_def)
  obtain r c t where run: "?m (?c, ?s) = (r, (c, t))" by (metis surj_pair)
  have "report_post ?M masters (c, t)"
    using hoareD [OF switch_all_at [OF inv assms(2), of E] at] run by (cases r) simp_all
  then have post: "?Q t"
    using open' by (auto simp: report_post_def cached_at_def dest: at_groups_both)
  show "hoare (\<lambda>t. t = s) (bindE (modifyE (\<lambda>s. s\<lparr>s_haMasters := Some masters\<rparr>)) (\<lambda>_ s.
       case ?m (\<lparr>icAuth = ProductAuth (s_config s), icData = [], icTimeout = 100 * time_Millisecond\<rparr>, s) of
         (r, (_, s')) \<Rightarrow> (r, s'))) (\<lambda>_. ?Q) svc_inv"
    using post by (simp add: hoare_def bindE_modify run split: sum.split)
qed

end
