(* ===== verification/ServiceSystem.thy ===== *)
theory ServiceSystem
  imports Failover
begin

section \<open>The service as a whole: steps, reachable states, the invariant\<close>

text \<open>
  Every operation of the service keeps \<open>svc_inv\<close>, so every state it can reach satisfies it.
  \<open>step\<close> is one operation under the mutex, or a change of the world or of the statistics
  outside it, or a reordering of a Go map.
\<close>

subsection \<open>Resynchronising\<close>

lemma resync_ok_at: "hoare (at_groups M) (resyncGroup E k g) (\<lambda>_. at_groups M) (\<lambda>_. True)"
proof -
  have S: "hoare (at_groups M) (sync_servers E n ss errs) (\<lambda>_. at_groups M) (\<lambda>_. True)" for n ss errs
    by (rule hoare_weaken [OF sync_servers_keeps [where P = "\<lambda>m sm bm. m = M \<and> sentinel_inv sm \<and> gslb_inv bm"]])
      (auto simp: at_groups_def)
  show ?thesis
    unfolding resyncGroup_def
    by (intro hoare_if hoare_bind [OF S])
      (auto simp: hoare_iff ret_def bindE_def fail_def split: prod.split sum.split)
qed

lemma resync_both_at:
  assumes "gName g = k"
  shows "hoare (at_groups (gm_put k g M)) (resyncGroup E k g) (\<lambda>_. at_groups (gm_put k g M))
    (\<lambda>t. at_groups (gm_put k g M) t \<or> at_groups (gm_put k (g\<lparr>gOutOfSync := True\<rparr>) M) t)"
proof -
  have "hoare (at_groups (gm_put k g M)) (resyncGroup E k g) (\<lambda>_ _. True)
    (\<lambda>t. at_groups (gm_put k g M) t \<or> at_groups (gm_put k (g\<lparr>gOutOfSync := True\<rparr>) M) t)"
    using resync_at [OF assms, of M E "\<lambda>_. False"]
    by (auto simp: hoare_iff attempt_def case_prod_beta split: sum.split)
  from hoare_conj [OF resync_ok_at this] show ?thesis by (rule hoare_weaken) auto
qed

lemma same_identity_oos: "promo_wf g \<Longrightarrow> same_identity g (g\<lparr>gOutOfSync := b\<rparr>)"
  by (simp add: same_identity_def ports_def addrs_def promo_wf_def)

lemma ResyncGroup_spec:
  assumes "svc_inv s"
  shows "hoare (\<lambda>t. t = s) (ResyncGroup E k)
    (\<lambda>_ t. svc_inv t \<and> (\<exists>g. gm_at (s_groups s) k = Some g \<and>
       s_groups t = gm_put k (g\<lparr>gOutOfSync := False\<rparr>) (s_groups s)))
    (\<lambda>t. svc_inv t \<and> (s_groups t = s_groups s \<or> (\<exists>g b. gm_at (s_groups s) k = Some g \<and>
       s_groups t = gm_put k (g\<lparr>gOutOfSync := b\<rparr>) (s_groups s))))" (is "hoare _ _ (\<lambda>_. ?Q) ?R")
  unfolding ResyncGroup_def groupsInfo_eq Let_def
proof (intro at_gets at_lookup, goal_cases)
  case 1
  then show ?case using assms by simp
next
  case (2 g)
  let ?M = "s_groups s" and ?g = "g\<lparr>gOutOfSync := False\<rparr>"
  have inv: "groups_inv ?M" "at_groups ?M s" using assms by (auto simp: svc_inv_at)
  from 2 have g: "gm_at ?M k = Some g" by (simp add: gm_at_def)
  note gD = groups_invD [OF inv(1) g]
  have R: "?R t" if "at_groups (gm_put k (g\<lparr>gOutOfSync := b\<rparr>) ?M) t" for t b
    using at_groups_both [OF groups_inv_put [OF inv(1) g same_identity_oos [OF gD(2)]] that] g by blast
  have Q: "?Q t" if "at_groups (gm_put k ?g ?M) t" for t
    using at_groups_both [OF groups_inv_put [OF inv(1) g same_identity_oos [OF gD(2)]] that] g by blast
  have k: "gName ?g = k" using gD(1) by simp
  have "hoare (at_groups (gm_put k ?g ?M)) (resyncGroup E k ?g) (\<lambda>_. at_groups (gm_put k ?g ?M)) ?R"
    by (rule hoare_weaken [OF resync_both_at [OF k]]) (use R [of False] R [of True] in auto)
  then have "hoare (at_groups ?M) (bindE (assignGroup k ?g) (\<lambda>_. bindE (updateGroup E ?g) (\<lambda>_. resyncGroup E k ?g)))
      (\<lambda>_. at_groups (gm_put k ?g ?M)) ?R"
    by (intro store_at_then k R [of False])
  then show ?case by (rule hoare_weaken) (use inv(2) Q in auto)
qed

text \<open>
  A goroutine of \<open>ResyncGroupAll\<close> works on its own group: \<open>pending\<close> says that the groups
  still to come are cached as they were when the loop began.
\<close>

definition pending :: "groups \<Rightarrow> 'w svc \<Rightarrow> bool" where
  "pending gs s \<longleftrightarrow>
     svc_inv s \<and> distinct (map fst gs) \<and> (\<forall>(k, g) \<in> set gs. gm_at (s_groups s) k = Some g)"

lemma resync_goroutine_pending:
  assumes "pending ((k, g) # gs) s"
  shows "hoare (\<lambda>t. t = s) (resync_goroutine E k g) (\<lambda>_. pending gs) (\<lambda>_. False)"
proof -
  let ?M = "s_groups s" and ?g = "g\<lparr>gOutOfSync := False\<rparr>"
  have inv: "groups_inv ?M" "at_groups ?M s" using assms by (auto simp: pending_def svc_inv_at)
  have g: "gm_at ?M k = Some g" using assms by (simp add: pending_def)
  note gD = groups_invD [OF inv(1) g]
  have P: "pending gs t" if "at_groups (gm_put k (g\<lparr>gOutOfSync := b\<rparr>) ?M) t" for t :: "'a svc" and b
    using at_groups_both [OF groups_inv_put [OF inv(1) g same_identity_oos [OF gD(2)]] that] assms
    by (force simp: pending_def)
  have k: "gName ?g = k" using gD(1) by simp
  have eq: "resync_goroutine E k g =
      bindE (attempt (bindE (assignGroup k ?g) (\<lambda>_. updateGroup E ?g))) (\<lambda>r.
      case r of
        Inl e \<Rightarrow> ret (Some (ErrResyncAll (gName ?g) e))
      | Inr _ \<Rightarrow> bindE (attempt (resyncGroup E k ?g)) (\<lambda>r'. ret (case r' of Inl e \<Rightarrow> Some e | Inr _ \<Rightarrow> None)))"
    by (rule ext) (simp add: resync_goroutine_def Let_def bindE_def attempt_def assignGroup_def modifyE_def
      case_prod_beta split: sum.split)
  have S: "hoare (at_groups ?M) (attempt (bindE (assignGroup k ?g) (\<lambda>_. updateGroup E ?g)))
      (\<lambda>_. at_groups (gm_put k ?g ?M)) (\<lambda>_. False)"
    by (rule hoare_attempt [OF store_at [OF k]]) auto
  have T: "hoare (at_groups (gm_put k ?g ?M))
      (case r of
        Inl e \<Rightarrow> ret (Some (ErrResyncAll (gName ?g) e))
      | Inr _ \<Rightarrow> bindE (attempt (resyncGroup E k ?g)) (\<lambda>r'. ret (case r' of Inl e \<Rightarrow> Some e | Inr _ \<Rightarrow> None)))
      (\<lambda>_. pending gs) (\<lambda>_. False)" for r :: "error + unit"
  proof (cases r)
    case (Inl e)
    then show ?thesis using P [of False] by (simp add: hoare_def ret_def)
  next
    case (Inr u)
    have "hoare (\<lambda>t. at_groups (gm_put k ?g ?M) t \<or> at_groups (gm_put k (?g\<lparr>gOutOfSync := True\<rparr>) ?M) t)
        (ret x) (\<lambda>_. pending gs) (\<lambda>_ :: 'a svc. False)" for x :: "error option"
      using P [of False] P [of True] by (auto simp: hoare_def ret_def)
    then show ?thesis using Inr by (simp add: hoare_bind [OF resync_at [OF k]])
  qed
  show ?thesis unfolding eq by (rule at_pre [OF hoare_bind [OF S T]]) (rule inv(2))
qed

lemma resync_goroutines_pending:
  "hoare (pending gs) (resync_goroutines E gs) (\<lambda>ds t. svc_inv t \<and> length ds = length gs) (\<lambda>_. False)"
proof (induction gs)
  case Nil
  then show ?case by (simp add: hoare_def ret_def pending_def)
next
  case (Cons e gs)
  obtain k g where e: "e = (k, g)" by fastforce
  have "hoare (pending gs) (bindE (resync_goroutines E gs) (\<lambda>ds. ret (d # ds)))
      (\<lambda>ds t. svc_inv t \<and> length ds = length (e # gs)) (\<lambda>_. False)" for d
    by (rule hoare_bind [OF Cons.IH]) (simp add: hoare_def ret_def)
  then show ?case
    unfolding e resync_goroutines.simps
    by (rule hoare_bind [rotated]) (rule hoare_at, rule resync_goroutine_pending)
qed

lemma ResyncGroupAll_inv:
  assumes "svc_inv s"
  shows "svc_inv (snd (ResyncGroupAll E s))"
    and "fst (ResyncGroupAll E s) = Some (Inr ()) \<longleftrightarrow> gmGroups (s_groups s) = []"
proof -
  let ?gs = "gmGroups (s_groups s)"
  have "pending ?gs s"
    using assms by (auto simp: pending_def svc_inv_def groups_inv_def gm_ok_def gm_at_def)
  moreover obtain r t where run: "resync_goroutines E ?gs s = (r, t)" by fastforce
  ultimately obtain ds where r: "r = Inr ds" "svc_inv t" "length ds = length ?gs"
    using hoareD [OF resync_goroutines_pending, of ?gs s E] by (cases r) auto
  have all: "all_some xs = Some ys \<Longrightarrow> length ys = length xs" for xs :: "error option list" and ys
    by (induction xs arbitrary: ys rule: all_some.induct) auto
  have eq: "ResyncGroupAll E s = (case all_some ds of None \<Rightarrow> (None, t)
      | Some [] \<Rightarrow> (Some (Inr ()), t) | Some (e # _) \<Rightarrow> (Some (Inl e), t))"
    by (simp add: ResyncGroupAll_def bindE_gets run r(1))
  from r(2) show "svc_inv (snd (ResyncGroupAll E s))"
    by (auto simp: eq split: option.split list.split)
  show "fst (ResyncGroupAll E s) = Some (Inr ()) \<longleftrightarrow> ?gs = []"
    using r(3) all [of ds] by (cases "all_some ds"; cases ds) (auto simp: eq split: list.split)
qed

subsection \<open>GSLBs\<close>

abbreviation gslb_frame :: "(group_mapper \<Rightarrow> sentinel_mapper \<Rightarrow> bool) \<Rightarrow> 'w svc \<Rightarrow> bool" where
  "gslb_frame P \<equiv> of_caches (\<lambda>m sm bm. P m sm \<and> gslb_inv bm)"

lemma assignGslb_keeps:
  "glName g = k \<Longrightarrow> distinct (glServers g) \<Longrightarrow> keeps (gslb_frame P) (assignGslb k g)"
  by (rule hoare_weaken [OF assignGslb_triple [where P = "\<lambda>m sm bm. P m sm \<and> gslb_inv bm"]])
    (auto intro: gslb_inv_put)

lemma updateGslb_keeps: "distinct (glServers g) \<Longrightarrow> keeps (gslb_frame P) (updateGslb E g)"
  by (rule hoare_weaken [OF updateGslb_triple [where P = "\<lambda>m sm bm. P m sm \<and> gslb_inv bm"]])
    (auto intro: gslb_inv_put)

lemma gslb_inv_delete: "gslb_inv m \<Longrightarrow> gslb_inv (m\<lparr>bmGslbs := AList.delete k (bmGslbs m)\<rparr>)"
  by (simp add: gslb_inv_def list_all_delete)

lemma deleteGslb_keeps: "keeps (gslb_frame P) (onGslb (gslbMapper_Delete C g))"
proof (rule keepsI)
  fix s :: "'a svc"
  obtain x w where "cl_Delete C (GSLBPath (glName g) (bmProduct (s_gslb s))) (s_world s) = (x, w)" by fastforce
  moreover assume "gslb_frame P s"
  ultimately show "gslb_frame P (snd (onGslb (gslbMapper_Delete C g) s))"
    by (cases x) (auto simp: onGslb_def gslbMapper_Delete_def io_defs gslb_inv_delete)
qed

lemma AddGSLB_keeps: "keeps (gslb_frame P) (AddGSLB E n a)"
proof (rule hoare_at, unfold AddGSLB_def gslbsInfo_eq, intro at_guard at_gets)
  fix s :: "'a svc"
  assume I: "gslb_frame P s"
  show "gslb_frame P s" by (rule I)
  let ?g0 = "zero_gslb\<lparr>glName := n\<rparr>"
  let ?rest = "\<lambda>g. bindE (guardE (a \<notin> set (glServers g)) (ErrGSLB (GSLBServerExists n a))) (\<lambda>_.
     let g' = g\<lparr>glServers := glServers g @ [a]\<rparr> in
     bindE (assignGslb n g') (\<lambda>_. bindE (updateGslb E g') (\<lambda>_. refreshGSLBBackendInfo E)))"
  have rest: "keeps (gslb_frame P) (?rest g)" if "glName g = n" "distinct (glServers g)" for g
  proof (cases "a \<in> set (glServers g)")
    case True
    then show ?thesis by (simp add: keeps_fail)
  next
    case False
    with that show ?thesis
      by (auto simp: Let_def intro!: keeps_bind assignGslb_keeps updateGslb_keeps refresh_keeps)
  qed
  show "hoare (\<lambda>t. t = s) (bindE (case map_of (bmGslbs (s_gslb s)) n of
       Some g \<Rightarrow> ret g | None \<Rightarrow> bindE (assignGslb n ?g0) (\<lambda>_. ret ?g0)) ?rest)
     (\<lambda>_. gslb_frame P) (gslb_frame P)"
  proof (cases "map_of (bmGslbs (s_gslb s)) n")
    case None
    have "keeps (gslb_frame P) (bindE (assignGslb n ?g0) (\<lambda>_. ?rest ?g0))"
      by (intro keeps_bind assignGslb_keeps rest) (simp_all add: zero_gslb_def)
    then show ?thesis using I by (simp add: None bindE_assoc at_pre)
  next
    case (Some g)
    with I gslb_invD have "glName g = n \<and> distinct (glServers g)" by blast
    then show ?thesis using I rest [of g] by (simp add: Some at_pre)
  qed
qed

lemma DelGSLB_keeps: "keeps (gslb_frame P) (DelGSLB E n a)"
proof (rule hoare_at, unfold DelGSLB_def gslbsInfo_eq Let_def, intro at_guard at_gets at_lookup)
  fix s :: "'a svc"
  assume I: "gslb_frame P s"
  show "gslb_frame P s" "gslb_frame P s" "gslb_frame P s" by (rule I)+
  fix g :: gslb
  let ?i = "index_of (\<lambda>v. v = a) (glServers g)"
  let ?g = "g\<lparr>glServers := remove_at (nat ?i) (glServers g)\<rparr>"
  assume "map_of (bmGslbs (s_gslb s)) n = Some g"
  with I gslb_invD have "glName g = n \<and> distinct (glServers g)" by blast
  then have g: "glName ?g = n" "distinct (glServers ?g)"
    by (auto intro: distinct_subseteq [OF _ mset_remove_at_le])
  have "keeps (gslb_frame P) (bindE (assignGslb n ?g) (\<lambda>_. bindE (updateGslb E ?g) (\<lambda>_.
      bindE (if glServers ?g = [] then onGslb (gslbMapper_Delete (en_Client E) ?g) else ret ()) (\<lambda>_.
      refreshGSLBBackendInfo E))))"
    using g by (intro keeps_bind assignGslb_keeps updateGslb_keeps keeps_if deleteGslb_keeps refresh_keeps keeps_ret)
  then show "hoare (\<lambda>t. t = s) (bindE (assignGslb n ?g) (\<lambda>_. bindE (updateGslb E ?g) (\<lambda>_.
      bindE (if glServers ?g = [] then onGslb (gslbMapper_Delete (en_Client E) ?g) else ret ()) (\<lambda>_.
      refreshGSLBBackendInfo E)))) (\<lambda>_. gslb_frame P) (gslb_frame P)"
    using I by (rule at_pre)
qed

subsection \<open>Statistics and life cycle\<close>

lemma keeps_onStatsPool: "keeps (of_caches P) (onStatsPool m)"
  by (rule keepsI) (simp add: onStatsPool_def split: prod.split)

lemma keeps_onHaPool: "keeps (of_caches P) (onHaPool m)"
  by (rule keepsI) (simp add: onHaPool_def split: prod.split)

lemma keeps_onTopom: "keeps (of_caches P) (onTopom m)"
  by (rule keepsI) (simp add: onTopom_def split: prod.split)

lemma newRedisStats_keeps: "keeps (of_caches P) do \<Longrightarrow> keeps (of_caches P) (newRedisStats E do)"
  unfolding newRedisStats_def timer_def by (intro keeps_bind keeps_attempt keeps_onWorld keeps_ret)

lemma goStats_keeps:
  "(\<And>a do. (a, do) \<in> set ds \<Longrightarrow> keeps (of_caches P) do) \<Longrightarrow> keeps (of_caches P) (goStats E ds vmap)"
proof (induction ds arbitrary: vmap)
  case Nil
  then show ?case by (simp add: keeps_ret)
next
  case (Cons d ds)
  obtain a do where d: "d = (a, do)" by fastforce
  with Cons show ?case
    unfolding d goStats.simps unix_now_def
    by (intro keeps_bind newRedisStats_keeps keeps_gets Cons.IH) auto
qed

lemma server_stats_keeps: "keeps (of_caches P) (server_stats E a)"
  unfolding server_stats_def by (intro keeps_bind keeps_onStatsPool) (auto intro: keeps_ret)

lemma sentinel_stats_keeps: "keeps (of_caches P) (sentinel_stats E a)"
  unfolding sentinel_stats_def by (intro keeps_bind keeps_gets keeps_onHaPool)

lemma refreshRedisStats_keeps: "keeps (of_caches P) (refreshRedisStats E)"
  unfolding refreshRedisStats_def groupsInfo_eq sentinelInfo_eq
  by (intro keeps_bind keeps_gets goStats_keeps keeps_modify_caches)
    (auto intro: server_stats_keeps sentinel_stats_keeps)

lemma goGSLBStats_keeps: "keeps (of_caches P) (goGSLBStats E as vmap)"
  by (induction as arbitrary: vmap)
    (auto simp: newGSLBStats_def timer_def unix_now_def
      intro!: keeps_ret keeps_bind keeps_attempt keeps_onWorld keeps_gets)

lemma refreshGSLBStats_keeps: "keeps (of_caches P) (refreshGSLBStats E)"
  unfolding refreshGSLBStats_def gslbsInfo_eq
  by (intro keeps_bind keeps_gets goGSLBStats_keeps keeps_modify_caches) simp_all

lemma doStats_keeps: "keeps (gslb_frame P) (doStats_round E)"
  unfolding doStats_round_def
  by (intro keeps_bind keeps_attempt keeps_ret refresh_keeps refreshRedisStats_keeps refreshGSLBStats_keeps)

lemma service_Close_keeps: "keeps (of_caches P) (service_Close E)"
  unfolding service_Close_def
  by (intro keeps_bind keeps_gets keeps_if keeps_ret keeps_modify_caches keeps_attempt keeps_onStatsPool
      keeps_onHaPool keeps_onTopom keeps_guard) simp_all

lemma start_loop_frame: "of_caches P s \<Longrightarrow> of_caches P (snd (start_loop E fuel s))"
proof (induction fuel arbitrary: s)
  case 0
  then show ?case by simp
next
  case (Suc fuel)
  have d: "of_caches P (snd (is_done E t))" if "of_caches P t" for t :: "'a svc"
    using that by (simp add: is_done_def split: prod.split)
  have c: "of_caches P (snd (onTopom m t))" if "of_caches P t" for t :: "'a svc" and m :: "(topom_mapper \<times> 'a, unit) io"
    using that by (simp add: onTopom_def split: prod.split)
  obtain b1 s1 where 1: "is_done E s = (b1, s1)" by fastforce
  obtain r s2 where 2: "onTopom (topomMapper_Create (en_Client E)) s1 = (r, s2)" by fastforce
  obtain b3 s3 where 3: "is_done E s2 = (b3, s3)" by fastforce
  have "of_caches P s1" using d [OF Suc.prems] 1 by simp
  moreover from c [OF this, of "topomMapper_Create (en_Client E)"] 2 have "of_caches P s2" by simp
  moreover from d [OF this] 3 have "of_caches P s3" by simp
  ultimately show ?case
    using Suc.IH [of s3] by (simp add: 1 2 3 split: sum.split)
qed

lemma service_Start_frame:
  assumes "of_caches P s"
  shows "of_caches P (snd (service_Start E fuel s))"
proof -
  let ?s = "s\<lparr>s_started := True\<rparr>"
  obtain r s1 where run: "start_loop E fuel ?s = (r, s1)" by fastforce
  have s1: "of_caches P s1" using start_loop_frame [of P ?s E fuel] assms run by simp
  then show ?thesis
    using assms
    by (auto simp: service_Start_def run bindE_modify bindE_gets reWatchSentinels_def modifyE_def
        split: option.split bool.split)
qed

subsection \<open>Operations and steps\<close>

datatype op =
    OpCreateGroup string int int
  | OpRemoveGroup string
  | OpResyncGroup string
  | OpResyncGroupAll
  | OpAddGroupServer string string
  | OpDelGroupServer string string
  | OpPromoteServer string string
  | OpForceFullSync string string
  | OpAddSentinel string
  | OpDelSentinel string bool
  | OpResyncSentinels
  | OpSwitchMasters "(string \<times> string) list"
  | OpAddGSLB string string
  | OpDelGSLB string string
  | OpStats
  | OpStart nat
  | OpClose

fun run_op :: "'w env \<Rightarrow> op \<Rightarrow> 'w svc \<Rightarrow> 'w svc" where
  "run_op E (OpCreateGroup n r w) s = snd (CreateGroup E n r w s)"
| "run_op E (OpRemoveGroup n) s = snd (RemoveGroup E n s)"
| "run_op E (OpResyncGroup n) s = snd (ResyncGroup E n s)"
| "run_op E OpResyncGroupAll s = snd (ResyncGroupAll E s)"
| "run_op E (OpAddGroupServer n a) s = snd (AddGroupServer E n a s)"
| "run_op E (OpDelGroupServer n a) s = snd (DelGroupServer E n a s)"
| "run_op E (OpPromoteServer n a) s = snd (GroupPromoteServer E n a s)"
| "run_op E (OpForceFullSync n a) s = snd (GroupForceFullSyncServer E n a s)"
| "run_op E (OpAddSentinel a) s = snd (AddSentinel E a s)"
| "run_op E (OpDelSentinel a force) s = snd (DelSentinel E a force s)"
| "run_op E OpResyncSentinels s = snd (ResyncSentinels E s)"
| "run_op E (OpSwitchMasters masters) s = snd (switchMasters E masters s)"
| "run_op E (OpAddGSLB n a) s = snd (AddGSLB E n a s)"
| "run_op E (OpDelGSLB n a) s = snd (DelGSLB E n a s)"
| "run_op E OpStats s = snd (doStats_round E s)"
| "run_op E (OpStart fuel) s = snd (service_Start E fuel s)"
| "run_op E OpClose s = snd (service_Close E s)"

text \<open>
  A group name comes from one segment of a URL path, so it holds no slash; the report of the
  masters is a Go map, so it holds a group once.
\<close>

fun op_ok :: "op \<Rightarrow> bool" where
  "op_ok (OpCreateGroup n r w) = (CHR ''/'' \<notin> set n)"
| "op_ok (OpSwitchMasters masters) = distinct (map fst masters)"
| "op_ok _ = True"

inductive step :: "'w env \<Rightarrow> 'w svc \<Rightarrow> 'w svc \<Rightarrow> bool" for E :: "'w env" where
  operation: "op_ok op \<Longrightarrow> step E s (run_op E op s)"
| world: "step E s (s\<lparr>s_world := w\<rparr>)"
| statistics: "step E s (s\<lparr>s_servers := stats, s_gslbStats := gstats\<rparr>)"
| group_order: "mset gs = mset (gmGroups (s_groups s)) \<Longrightarrow>
    step E s (s\<lparr>s_groups := (s_groups s)\<lparr>gmGroups := gs\<rparr>\<rparr>)"
| gslb_order: "mset bs = mset (bmGslbs (s_gslb s)) \<Longrightarrow>
    step E s (s\<lparr>s_gslb := (s_gslb s)\<lparr>bmGslbs := bs\<rparr>\<rparr>)"

inductive reachable :: "'w env \<Rightarrow> 'w svc \<Rightarrow> 'w svc \<Rightarrow> bool" for E :: "'w env" and s0 :: "'w svc" where
  reach_init: "reachable E s0 s0"
| reach_step: "reachable E s0 s \<Longrightarrow> step E s t \<Longrightarrow> reachable E s0 t"

inductive_cases stepE: "step E s t"

lemma at_spec_inv: "hoare (\<lambda>t. t = s) m Q R \<Longrightarrow> (\<And>x t. Q x t \<Longrightarrow> svc_inv t) \<Longrightarrow> (\<And>t. R t \<Longrightarrow> svc_inv t) \<Longrightarrow>
    svc_inv (snd (m s))"
  by (auto simp: hoare_iff split: sum.splits)

lemma keeps_inv:
  assumes "keeps (of_caches (\<lambda>m sm bm. groups_inv m \<and> sentinel_inv sm \<and> gslb_inv bm)) m" and "svc_inv s"
  shows "svc_inv (snd (m s))"
  using keepsD [OF assms(1), of s] assms(2) by (simp add: svc_inv_def)

lemma gslb_keeps_inv:
  assumes "keeps (gslb_frame (\<lambda>m sm. groups_inv m \<and> sentinel_inv sm)) m" and "svc_inv s"
  shows "svc_inv (snd (m s))"
  using keepsD [OF assms(1), of s] assms(2) by (simp add: svc_inv_def)

lemma ForceFullSync_keeps: "keeps (of_caches P) (GroupForceFullSyncServer E n a)"
  unfolding GroupForceFullSyncServer_def groupsInfo_eq Let_def doForceFullSyncAction_def
  by (intro keeps_bind keeps_gets keeps_lookup keeps_guard keeps_onWorld)

lemma run_op_inv:
  assumes "svc_inv s" and "op_ok op"
  shows "svc_inv (run_op E op s)"
proof (cases op)
  case (OpCreateGroup n r w)
  then show ?thesis using at_spec_inv [OF CreateGroup_spec [OF assms(1), of n E r w]] assms(2) by auto
next
  case (OpRemoveGroup n)
  then show ?thesis using at_spec_inv [OF RemoveGroup_spec [OF assms(1)]] by auto
next
  case (OpResyncGroup n)
  then show ?thesis using at_spec_inv [OF ResyncGroup_spec [OF assms(1)]] by auto
next
  case OpResyncGroupAll
  then show ?thesis using ResyncGroupAll_inv(1) [OF assms(1)] by simp
next
  case (OpAddGroupServer n a)
  then show ?thesis using at_spec_inv [OF AddGroupServer_spec [OF assms(1)]] by auto
next
  case (OpDelGroupServer n a)
  then show ?thesis using at_spec_inv [OF DelGroupServer_spec [OF assms(1)]] by auto
next
  case (OpPromoteServer n a)
  then show ?thesis using at_spec_inv [OF GroupPromoteServer_spec [OF assms(1)]] by auto
next
  case (OpForceFullSync n a)
  then show ?thesis using keeps_inv [OF ForceFullSync_keeps assms(1)] by simp
next
  case (OpAddSentinel a)
  then show ?thesis using at_spec_inv [OF AddSentinel_spec [OF assms(1)]] by auto
next
  case (OpDelSentinel a f)
  then show ?thesis using at_spec_inv [OF DelSentinel_spec [OF assms(1)]] by auto
next
  case OpResyncSentinels
  then show ?thesis using at_spec_inv [OF ResyncSentinels_spec [OF assms(1)]] by auto
next
  case (OpSwitchMasters ms)
  then show ?thesis using at_spec_inv [OF switchMasters_spec [OF assms(1), of ms E]] assms(2) by auto
next
  case (OpAddGSLB n a)
  then show ?thesis using gslb_keeps_inv [OF AddGSLB_keeps assms(1)] by simp
next
  case (OpDelGSLB n a)
  then show ?thesis using gslb_keeps_inv [OF DelGSLB_keeps assms(1)] by simp
next
  case OpStats
  then show ?thesis using gslb_keeps_inv [OF doStats_keeps assms(1)] by simp
next
  case (OpStart fuel)
  then show ?thesis
    using service_Start_frame [of "\<lambda>m sm bm. groups_inv m \<and> sentinel_inv sm \<and> gslb_inv bm" s E fuel] assms(1)
    by (simp add: svc_inv_def)
next
  case OpClose
  then show ?thesis using keeps_inv [OF service_Close_keeps assms(1)] by simp
qed

lemma distinct_map_mset:
  assumes "mset xs = mset ys" and "distinct (map f ys)"
  shows "distinct (map f xs)"
proof -
  have "mset (map f xs) = mset (map f ys)" using assms(1) by simp
  with assms(2) show ?thesis by (metis mset_eq_imp_distinct_iff)
qed

lemma mset_concat_perm:
  assumes "mset xs = mset ys"
  shows "mset (concat (map f xs)) = mset (concat (map f ys))"
proof -
  have "mset (concat (map f zs)) = sum_mset (image_mset (\<lambda>x. mset (f x)) (mset zs))" for zs
    by (induction zs) auto
  with assms show ?thesis by simp
qed

lemma groups_inv_order: "mset gs = mset (gmGroups m) \<Longrightarrow> groups_inv m \<Longrightarrow> groups_inv (m\<lparr>gmGroups := gs\<rparr>)"
proof -
  assume eq: "mset gs = mset (gmGroups m)" and inv: "groups_inv m"
  have "distinct (map fst gs)" using inv distinct_map_mset [OF eq, of fst] by (simp add: groups_inv_def gm_ok_def)
  moreover have "ports_ok gs" "addrs_ok gs"
    using inv mset_eq_imp_distinct_iff [OF mset_concat_perm [OF eq, of "ports \<circ> snd"]]
      mset_eq_imp_distinct_iff [OF mset_concat_perm [OF eq, of "addrs \<circ> snd"]]
    by (simp_all add: groups_inv_def ports_ok_def addrs_ok_def)
  moreover have "set gs = set (gmGroups m)" using eq by (metis set_mset_mset)
  ultimately show ?thesis using inv by (simp add: groups_inv_def gm_ok_def list_all_iff)
qed

lemma gslb_inv_order: "mset bs = mset (bmGslbs m) \<Longrightarrow> gslb_inv m \<Longrightarrow> gslb_inv (m\<lparr>bmGslbs := bs\<rparr>)"
proof -
  assume eq: "mset bs = mset (bmGslbs m)" and inv: "gslb_inv m"
  have "distinct (map fst bs)" using inv distinct_map_mset [OF eq, of fst] by (simp add: gslb_inv_def)
  moreover have "set bs = set (bmGslbs m)" using eq by (metis set_mset_mset)
  ultimately show ?thesis using inv by (simp add: gslb_inv_def list_all_iff)
qed

lemma step_inv: "step E s t \<Longrightarrow> svc_inv s \<Longrightarrow> svc_inv t"
  by (erule stepE) (auto simp: run_op_inv, auto simp: svc_inv_def groups_inv_order gslb_inv_order)

lemma reachable_inv: "reachable E s0 s \<Longrightarrow> svc_inv s0 \<Longrightarrow> svc_inv s"
  by (induction rule: reachable.induct) (auto intro: step_inv)

text \<open>A fresh service: no group, no GSLB, any list of distinct sentinels.\<close>

lemma NewService_inv:
  assumes "plain_comp product" and "distinct (snServers sn)"
  shows "svc_inv (NewService config tm \<lparr>gmProduct = product, gmGroups = []\<rparr>
    \<lparr>smProduct = product, smSentinel = sn\<rparr> \<lparr>bmProduct = product, bmGslbs = []\<rparr> tfs w)"
  using assms by (simp add: NewService_def svc_inv_def groups_inv_def gm_ok_def ports_ok_def addrs_ok_def
      sentinel_inv_def gslb_inv_def)

lemma doStats_inv: "svc_inv s \<Longrightarrow> svc_inv (doStats E ds s)"
  using run_op_inv [of _ OpStats E]
  by (induction E ds s rule: doStats.induct) (auto split: list.split)

end
