(* ===== verification/Durability.thy ===== *)
theory Durability
  imports Etcd ServiceSystem
begin

section \<open>Durability: the coordinator and the cache agree after a successful operation\<close>

text \<open>
  A failing write may leave the cache ahead of the coordinator, since the objects are changed
  before they are written. A successful operation on a group leaves the coordinator with
  exactly the cached groups, whichever other writes it made on the way.
  \<^item> \<open>stored_but K\<close>: the coordinator holds the cached groups, those in \<open>K\<close> aside.
  \<^item> \<open>dashboard\<close> extends the coordinator's contract by what the operations need from the
    rest of the environment: talking to redis leaves the coordinator alone.
\<close>

definition stored_but :: "string set \<Rightarrow> ('w \<Rightarrow> string \<Rightarrow> data option) \<Rightarrow> group_mapper \<Rightarrow> 'w \<Rightarrow> bool" where
  "stored_but K view m w \<longleftrightarrow>
     (\<forall>n. CHR ''/'' \<notin> set n \<longrightarrow> n \<notin> K \<longrightarrow>
        view w (GroupPath (gmProduct m) n) = map_option Group_Encode (map_of (gmGroups m) n)) \<and>
     (\<forall>p. child_of (GroupDir (gmProduct m)) p \<longrightarrow> view w p \<noteq> None \<longrightarrow>
        (\<exists>n. CHR ''/'' \<notin> set n \<and> p = GroupPath (gmProduct m) n))"

lemma stored_but_empty: "stored_but {} view m w \<longleftrightarrow> gm_stored view m w"
  by (simp add: stored_but_def gm_stored_def)

lemma stored_but_mono: "stored_but K view m w \<Longrightarrow> K \<subseteq> L \<Longrightarrow> stored_but L view m w"
  by (auto simp: stored_but_def)

lemma stored_but_put: "stored_but K view m w \<Longrightarrow> k \<in> K \<Longrightarrow> stored_but K view (gm_put k g m) w"
  by (auto simp: stored_but_def gm_put_def)

text \<open>Nodes of groups, and nodes above which no group lies.\<close>

definition group_node :: "string \<Rightarrow> string \<Rightarrow> bool" where
  "group_node p q \<longleftrightarrow> (\<exists>n. CHR ''/'' \<notin> set n \<and> q = GroupPath p n) \<or> child_of (GroupDir p) q"

definition away :: "string \<Rightarrow> string \<Rightarrow> bool" where
  "away p r \<longleftrightarrow> (\<forall>q. group_node p q \<longrightarrow> q \<noteq> r \<and> \<not> ancestor q r)"

lemma group_node_child: "plain_comp p \<Longrightarrow> group_node p q \<longleftrightarrow> child_of (GroupDir p) q"
  by (auto simp: group_node_def intro: child_of_GroupDir)

lemma stored_but_view:
  assumes "\<And>q. group_node (gmProduct m) q \<Longrightarrow> view w' q = view w q" and "stored_but K view m w"
  shows "stored_but K view m w'"
proof -
  have "view w' (GroupPath (gmProduct m) n) = view w (GroupPath (gmProduct m) n)" if "CHR ''/'' \<notin> set n" for n
    using that by (intro assms(1)) (auto simp: group_node_def)
  moreover have "view w' q = view w q" if "child_of (GroupDir (gmProduct m)) q" for q
    using that by (intro assms(1)) (simp add: group_node_def)
  ultimately show ?thesis using assms(2) by (simp add: stored_but_def)
qed

lemma away_sentinel:
  assumes "plain_comp p"
  shows "away p (SentinelPath p)"
proof -
  have "q \<noteq> SentinelPath p \<and> \<not> ancestor q (SentinelPath p)" if "child_of (GroupDir p) q" for q
  proof -
    from that obtain c where q: "q = ''/cache-manager/products/'' @ p @ ''/groups/'' @ c"
      using assms by (auto simp: child_of_iff GroupDir_plain)
    then show ?thesis using assms
      by (auto simp: ancestor_def HasPrefix_iff SentinelPath_plain)
  qed
  with assms show ?thesis by (simp add: away_def group_node_child)
qed

lemma away_gslb:
  assumes "plain_comp p" and "plain_comp g"
  shows "away p (GSLBPath g p)"
proof -
  have "q \<noteq> GSLBPath g p \<and> \<not> ancestor q (GSLBPath g p)" if "child_of (GroupDir p) q" for q
  proof -
    from that obtain c where q: "q = ''/cache-manager/products/'' @ p @ ''/groups/'' @ c"
      using assms by (auto simp: child_of_iff GroupDir_plain)
    then show ?thesis using assms
      by (auto simp: ancestor_def HasPrefix_iff GSLBPath_plain)
  qed
  with assms show ?thesis by (simp add: away_def group_node_child)
qed

lemma GSLBPath_node: "plain_comp g \<Longrightarrow> plain_comp p \<Longrightarrow> node_path (GSLBPath g p)"
  by (simp add: GSLBPath_plain node_path_def plain_comp_def Split_append_general Split_word)

context coord_client
begin

lemma update_away:
  assumes "node_path r" and "away (gmProduct m) r" and "cl_Update C r d w = (x, w')" and "stored_but K view m w"
  shows "stored_but K view m w'"
  by (rule stored_but_view [OF _ assms(4)])
    (use assms(2) update_other [OF assms(1,3)] in \<open>auto simp: away_def\<close>)

lemma update_group:
  assumes "plain_comp (gmProduct m)" and "CHR ''/'' \<notin> set (gName g)"
    and "cl_Update C (GroupPath (gmProduct m) (gName g)) (Group_Encode g) w = (Inr x, w')"
    and "stored_but (insert (gName g) K) view m w"
  shows "stored_but (K - {gName g}) view (gm_put (gName g) g m) w'"
proof -
  let ?p = "gmProduct m" and ?k = "gName g"
  have node: "node_path (GroupPath ?p ?k)" by (rule GroupPath_node [OF assms(1,2)])
  have same: "view w' q = view w q" if "child_of (GroupDir ?p) q" "q \<noteq> GroupPath ?p ?k" for q
    using update_other [OF node assms(3) that(2)] ancestor_GroupPath [OF assms(1,2) that(1)] by simp
  have at: "view w' (GroupPath ?p ?k) = Some (Group_Encode g)" by (rule update_ok [OF node assms(3)])
  have "view w' (GroupPath ?p n) = map_option Group_Encode (map_of (AList.update ?k g (gmGroups m)) n)"
    if "CHR ''/'' \<notin> set n" "n \<notin> K - {?k}" for n
  proof (cases "n = ?k")
    case False
    then have "GroupPath ?p n \<noteq> GroupPath ?p ?k" using GroupPath_inj [OF assms(1) that(1) assms(2)] by simp
    with same child_of_GroupDir [OF assms(1) that(1)] assms(4) that False show ?thesis
      by (simp add: stored_but_def)
  qed (simp add: at)
  moreover have "\<exists>n. CHR ''/'' \<notin> set n \<and> q = GroupPath ?p n" if "child_of (GroupDir ?p) q" "view w' q \<noteq> None" for q
    using that same [OF that(1)] assms(2,4) by (cases "q = GroupPath ?p ?k") (auto simp: stored_but_def)
  ultimately show ?thesis by (simp add: stored_but_def gm_put_def)
qed

text \<open>A write or a delete that failed may have been carried out; the other groups are as before.\<close>

lemma touched_group:
  assumes "plain_comp (gmProduct m)" and "CHR ''/'' \<notin> set k" and "k \<in> K" and "stored_but K view m w"
    and same: "\<And>q. child_of (GroupDir (gmProduct m)) q \<Longrightarrow> q \<noteq> GroupPath (gmProduct m) k \<Longrightarrow> view w' q = view w q"
  shows "stored_but K view m w'"
proof -
  let ?p = "gmProduct m"
  have "view w' (GroupPath ?p n) = view w (GroupPath ?p n)" if "CHR ''/'' \<notin> set n" "n \<noteq> k" for n
    using that GroupPath_inj [OF assms(1) that(1) assms(2)]
    by (intro same child_of_GroupDir assms(1)) auto
  moreover have "\<exists>n. CHR ''/'' \<notin> set n \<and> q = GroupPath ?p n" if "child_of (GroupDir ?p) q" "view w' q \<noteq> None" for q
    using that same [OF that(1)] assms(2,4) by (cases "q = GroupPath ?p k") (auto simp: stored_but_def)
  ultimately show ?thesis using assms(3,4) unfolding stored_but_def by metis
qed

lemma update_group_any:
  assumes "plain_comp (gmProduct m)" and "CHR ''/'' \<notin> set k" and "k \<in> K" and "stored_but K view m w"
    and "cl_Update C (GroupPath (gmProduct m) k) d w = (r, w')"
  shows "stored_but K view m w'"
  by (rule touched_group [OF assms(1-4)])
    (use update_other [OF GroupPath_node [OF assms(1,2)] assms(5)] ancestor_GroupPath [OF assms(1,2)] in simp)

lemma delete_group_any:
  assumes "plain_comp (gmProduct m)" and "CHR ''/'' \<notin> set k" and "k \<in> K" and "stored_but K view m w"
    and "cl_Delete C (GroupPath (gmProduct m) k) w = (r, w')"
  shows "stored_but K view m w'"
  by (rule touched_group [OF assms(1-4)]) (use delete_other [OF GroupPath_node [OF assms(1,2)] assms(5)] in simp)

lemma delete_group:
  assumes "plain_comp (gmProduct m)" and "CHR ''/'' \<notin> set k"
    and "cl_Delete C (GroupPath (gmProduct m) k) w = (Inr x, w')" and "stored_but (insert k K) view m w"
  shows "stored_but (K - {k}) view (m\<lparr>gmGroups := AList.delete k (gmGroups m)\<rparr>) w'"
proof -
  let ?p = "gmProduct m"
  have gone: "view w' (GroupPath ?p k) = None" by (rule delete_ok [OF GroupPath_node [OF assms(1,2)] assms(3)])
  have "stored_but (insert k K) view m w'"
    by (rule delete_group_any [OF assms(1,2) _ assms(4,3)]) simp
  with gone show ?thesis by (auto simp: stored_but_def)
qed

lemma delete_away:
  assumes "node_path r" and "away (gmProduct m) r" and "cl_Delete C r w = (x, w')" and "stored_but K view m w"
  shows "stored_but K view m w'"
  by (rule stored_but_view [OF _ assms(4)])
    (use assms(2) delete_other [OF assms(1,3)] in \<open>auto simp: away_def\<close>)

lemma create_away:
  assumes "node_path r" and "away (gmProduct m) r" and "cl_Create C r d w = (x, w')" and "stored_but K view m w"
  shows "stored_but K view m w'"
  by (rule stored_but_view [OF _ assms(4)])
    (use assms(2) create_other [OF assms(1,3)] in \<open>auto simp: away_def\<close>)

end

text \<open>The operations that write the group \<open>n\<close>.\<close>

definition group_ops :: "'w env \<Rightarrow> string \<Rightarrow> string \<Rightarrow> int \<Rightarrow> int \<Rightarrow> ('w svc, unit) io list" where
  "group_ops E n a r w =
     [CreateGroup E n r w, RemoveGroup E n, ResyncGroup E n, AddGroupServer E n a, DelGroupServer E n a,
      GroupPromoteServer E n a]"

subsection \<open>Talking to redis leaves the coordinator alone\<close>

lemma frameD: "(\<And>v. keeps (\<lambda>s. g s = v) m) \<Longrightarrow> g (snd (m s)) = g s"
  by (rule keepsD [where s = s]) simp_all

lemma keeps_onW: "keeps I m \<Longrightarrow> keeps (\<lambda>s. I (snd s)) (onW m)"
  by (auto simp: hoare_iff onW_def case_prod_beta split: sum.splits)

lemma keeps_snd_modify: "(\<And>s. snd (f s) = snd s) \<Longrightarrow> keeps (\<lambda>s. I (snd s)) (modifyE f)"
  by (simp add: hoare_def modifyE_def)

lemma keeps_case_sum:
  "(\<And>e. r = Inl e \<Longrightarrow> keeps I (f e)) \<Longrightarrow> (\<And>x. r = Inr x \<Longrightarrow> keeps I (g x)) \<Longrightarrow>
     keeps I (case r of Inl e \<Rightarrow> f e | Inr x \<Rightarrow> g x)"
  by (cases r) auto

lemma keeps_case_prod: "(\<And>a b. p = (a, b) \<Longrightarrow> keeps I (f a b)) \<Longrightarrow> keeps I (case p of (a, b) \<Rightarrow> f a b)"
  by (cases p) simp

lemma keeps_check_reply: "keeps I (check_reply r)"
  by (cases r) (simp_all add: check_reply_def keeps_ret keeps_fail)

lemmas frame_intros = keeps_ret keeps_fail keeps_guard keeps_gets keeps_bind keeps_attempt keeps_if keeps_mapErr
  keeps_liftSum keeps_forE keeps_snd_modify keeps_case_sum keeps_case_prod keeps_check_reply

locale dashboard = coord_client +
  fixes E :: "'a env"
  assumes client: "en_Client E = C"
    and dial_frame: "keeps (\<lambda>w. view w = v) (rd_Dial (en_Redigo E) addr auth ct t)"
    and do_frame: "keeps (\<lambda>w. view w = v) (rd_Do (en_Redigo E) c cmd args)"
    and send_frame: "keeps (\<lambda>w. view w = v) (rd_Send (en_Redigo E) c cmd args)"
    and flush_frame: "keeps (\<lambda>w. view w = v) (rd_Flush (en_Redigo E) c)"
    and receive_frame: "keeps (\<lambda>w. view w = v) (rd_Receive (en_Redigo E) c)"
    and close_frame: "keeps (\<lambda>w. view w = v) (rd_Close (en_Redigo E) c)"
    and ctx_frame: "view (snd (sc_Ctx (en_Sched E) w)) = view w"
    and arrive_frame: "view (snd (sc_Arrive (en_Sched E) n w)) = view w"
    and now_frame: "view (snd (en_Now E w)) = view w"
    and resolve_frame: "keeps (\<lambda>w. view w = v) (sc_Resolve (en_Sched E) addr)"
    and after_frame: "view (snd (sc_After (en_Sched E) w)) = view w"
    and done_frame: "view (snd (sc_Done (en_Sched E) w)) = view w"
    and http_frame: "keeps (\<lambda>w. view w = v) (en_Http E url)"
begin

lemmas conn_frames = keeps_onW [OF do_frame] keeps_onW [OF send_frame] keeps_onW [OF flush_frame]
  keeps_onW [OF receive_frame] keeps_onW [OF close_frame]

lemma close_and_frame: "keeps (\<lambda>s. view (snd s) = v) (close_and (en_Redigo E) e)"
  unfolding close_and_def Client_Close_def by (intro frame_intros conn_frames)

lemma Do_frame: "keeps (\<lambda>s. view (snd s) = v) (Client_Do (en_Redigo E) cmd args)"
  unfolding Client_Do_def touch_def by (intro frame_intros conn_frames close_and_frame) simp_all

lemma Send_frame: "keeps (\<lambda>s. view (snd s) = v) (Client_Send (en_Redigo E) cmd args)"
  unfolding Client_Send_def by (intro frame_intros conn_frames close_and_frame) simp_all

lemma Flush_frame: "keeps (\<lambda>s. view (snd s) = v) (Client_Flush (en_Redigo E))"
  unfolding Client_Flush_def by (intro frame_intros conn_frames close_and_frame)

lemma Receive_frame: "keeps (\<lambda>s. view (snd s) = v) (Client_Receive (en_Redigo E))"
  unfolding Client_Receive_def touch_def by (intro frame_intros conn_frames close_and_frame) simp_all

lemma SetMaster_frame: "keeps (\<lambda>s. view (snd s) = v) (SetMaster (en_Redigo E) m)"
  unfolding SetMaster_def run_opts_def by (intro frame_intros conn_frames)

lemma with_client_frame:
  assumes "\<And>v. keeps (\<lambda>s. view (snd s) = v) f"
  shows "keeps (\<lambda>w. view w = v) (with_client (en_Redigo E) addr auth t f)"
  unfolding with_client_def NewClient_def
proof (intro keeps_bind dial_frame keeps_gets keeps_ret)
  fix c
  show "keeps (\<lambda>w. view w = v) (\<lambda>w. case f (c, w) of (r, (c', w')) \<Rightarrow> (r, snd (rd_Close (en_Redigo E) (rcConn c') w')))"
  proof (rule keepsI)
    fix w
    assume w: "view w = v"
    obtain r c' w' where f: "f (c, w) = (r, (c', w'))" by (metis surj_pair)
    with frameD [OF assms, where s = "(c, w)"] w have "view w' = v" by simp
    from keepsD [OF close_frame this] f
    show "view (snd (case f (c, w) of (r, (c', w')) \<Rightarrow> (r, snd (rd_Close (en_Redigo E) (rcConn c') w')))) = v" by simp
  qed
qed

lemma deferred_frame:
  assumes "\<And>v. keeps (\<lambda>s. view (snd s) = v) m"
  shows "keeps (\<lambda>s. view (snd s) = v) (deferred (en_Redigo E) m)"
proof (rule keepsI)
  fix s :: "rclient \<times> 'a"
  assume s: "view (snd s) = v"
  obtain r s' where m: "m s = (r, s')" by (metis surj_pair)
  with frameD [OF assms, where s = s] s have s': "view (snd s') = v" by simp
  have "keeps (\<lambda>s. view (snd s) = v) (Client_Close (en_Redigo E))"
    unfolding Client_Close_def by (intro frame_intros conn_frames)
  from keepsD [OF this s'] m s' show "view (snd (snd (deferred (en_Redigo E) m s))) = v"
    by (simp add: deferred_def)
qed

lemma exists_frame: "keeps (\<lambda>s. view (snd s) = v) (exists_loop (en_Redigo E) names m)"
  by (induction names arbitrary: m) (auto intro!: frame_intros Do_frame)

lemma send_all_frame: "keeps (\<lambda>s. view (snd s) = v) (send_all (en_Redigo E) cmds)"
  by (induction cmds) (auto intro!: frame_intros Send_frame)

lemma pipeline_frame: "keeps (\<lambda>s. view (snd s) = v) (pipeline (en_Redigo E) cmds)"
  unfolding pipeline_def by (intro frame_intros send_all_frame Flush_frame Receive_frame)

lemma removeCommand_frame: "keeps (\<lambda>s. view (snd s) = v) (removeCommand (en_Redigo E) names)"
  unfolding removeCommand_def existsCommand_def
  by (intro deferred_frame frame_intros exists_frame pipeline_frame)

lemma dispatch_frame:
  assumes "\<And>v. keeps (\<lambda>s. view (snd s) = v) f"
  shows "keeps (\<lambda>w. view w = v) (dispatch (en_Sched E) (en_Redigo E) sentinel t f)"
  unfolding dispatch_def NewClientNoAuth_def NewClient_def
proof (intro keeps_bind dial_frame keeps_gets keeps_ret)
  fix c
  show "keeps (\<lambda>w. view w = v) (\<lambda>w. case f (c, w) of (r, (c', w1)) \<Rightarrow>
      case sc_Ctx (en_Sched E) w1 of (ctx, w2) \<Rightarrow>
        (case ctx of None \<Rightarrow> r | Some e \<Rightarrow> Inl (ctx_error e), snd (rd_Close (en_Redigo E) (rcConn c') w2)))"
  proof (rule keepsI)
    fix w
    assume w: "view w = v"
    obtain r c' w1 where f: "f (c, w) = (r, (c', w1))" by (metis surj_pair)
    with frameD [OF assms, where s = "(c, w)"] w have "view w1 = v" by simp
    moreover obtain ctx w2 where ctx: "sc_Ctx (en_Sched E) w1 = (ctx, w2)" by fastforce
    ultimately have "view w2 = v" using ctx_frame [of w1] by simp
    from keepsD [OF close_frame this] f ctx
    show "view (snd (case f (c, w) of (r, (c', w1)) \<Rightarrow> case sc_Ctx (en_Sched E) w1 of (ctx, w2) \<Rightarrow>
        (case ctx of None \<Rightarrow> r | Some e \<Rightarrow> Inl (ctx_error e), snd (rd_Close (en_Redigo E) (rcConn c') w2)))) = v"
      by simp
  qed
qed

lemma run_all_frame:
  assumes "\<And>v x. keeps (\<lambda>w. view w = v) (f x)"
  shows "view (snd (run_all f xs w)) = view w"
proof (induction xs arbitrary: w)
  case (Cons x xs)
  obtain r w1 where f: "f x w = (r, w1)" by fastforce
  with frameD [OF assms, where s = w] have "view w1 = view w" by (metis snd_conv)
  with f Cons.IH [of w1] show ?case by (simp add: case_prod_beta)
qed simp

lemma RemoveGroups_frame:
  "keeps (\<lambda>w. view w = v) (RemoveGroups (en_Sched E) (en_Redigo E) product sentinels t names)"
proof -
  have f: "keeps (\<lambda>w. view w = v) (removeGroupsDispatch (en_Sched E) (en_Redigo E) product t' names x)" for v t' x
    using dispatch_frame [OF removeCommand_frame] unfolding removeGroupsDispatch_def
    by (auto simp: hoare_iff ignore_canceled_def case_prod_beta split: sum.splits if_splits)
  show ?thesis
    unfolding RemoveGroups_def all_sentinels_def
    by (rule keepsI) (use run_all_frame [OF f] arrive_frame in \<open>auto simp: case_prod_beta\<close>)
qed

end

subsection \<open>Operations\<close>

definition one_product :: "'w svc \<Rightarrow> bool" where
  "one_product s \<longleftrightarrow>
     plain_comp (gmProduct (s_groups s)) \<and> smProduct (s_sentinel s) = gmProduct (s_groups s) \<and>
     bmProduct (s_gslb s) = gmProduct (s_groups s) \<and> tmProduct (s_topom s) = gmProduct (s_groups s)"

definition durable :: "string set \<Rightarrow> ('w \<Rightarrow> string \<Rightarrow> data option) \<Rightarrow> 'w svc \<Rightarrow> bool" where
  "durable K view s \<longleftrightarrow> one_product s \<and> stored_but K view (s_groups s) (s_world s)"

text \<open>
  \<open>writes\<close>: a command that, when it succeeds, has stored the group \<open>k\<close>, and when it fails has left
  no other group behind.
\<close>

definition writes :: "('w \<Rightarrow> string \<Rightarrow> data option) \<Rightarrow> string \<Rightarrow> string set \<Rightarrow> ('w svc, 'a) io \<Rightarrow> bool" where
  "writes view k K m \<longleftrightarrow> hoare (durable (insert k K) view) m (\<lambda>_. durable (K - {k}) view) (durable (insert k K) view)"

lemma durable_mono: "durable K view s \<Longrightarrow> K \<subseteq> L \<Longrightarrow> durable L view s"
  by (auto simp: durable_def intro: stored_but_mono)

lemma durable_insert: "durable (K - {k}) view s \<Longrightarrow> durable (insert k K) view s"
  by (erule durable_mono) auto

lemma durable_weaken: "durable K view s \<Longrightarrow> durable (insert k K) view s"
  by (erule durable_mono) auto

lemma gm_put_product [simp]: "gmProduct (gm_put k g m) = gmProduct m"
  by (simp add: gm_put_def)

lemma durable_put:
  "durable K view s \<Longrightarrow> k \<in> K \<Longrightarrow> durable K view (s\<lparr>s_groups := gm_put k g (s_groups s)\<rparr>)"
  by (simp add: durable_def one_product_def stored_but_put)

lemma assignGroup_durable: "k \<in> K \<Longrightarrow> keeps (durable K view) (assignGroup k g)"
  unfolding assignGroup_def gm_put_def [symmetric] by (rule keeps_modify) (rule durable_put)

lemma assignSentinel_durable: "keeps (durable K view) (assignSentinel sn)"
  by (simp add: hoare_def assignSentinel_def modifyE_def durable_def one_product_def)

lemma writes_bind: "keeps (durable (insert k K) view) m \<Longrightarrow> (\<And>x. writes view k K (f x)) \<Longrightarrow> writes view k K (bindE m f)"
  unfolding writes_def by (rule hoare_bind)

lemma writes_then:
  "writes view k K m \<Longrightarrow> (\<And>x. hoare (durable (K - {k}) view) (f x) Q (durable (insert k K) view)) \<Longrightarrow>
   hoare (durable (insert k K) view) (bindE m f) Q (durable (insert k K) view)"
  unfolding writes_def by (rule hoare_bind)

lemma writes_at: "writes view k K m \<Longrightarrow> durable K view s \<Longrightarrow>
    hoare (\<lambda>t. t = s) m (\<lambda>_. durable (K - {k}) view) (durable (insert k K) view)"
  unfolding writes_def by (erule at_pre) (rule durable_weaken)

lemma clean: "keeps (durable (K - {k}) view) m \<Longrightarrow>
    hoare (durable (K - {k}) view) m (\<lambda>_. durable (K - {k}) view) (durable (insert k K) view)"
  by (erule hoare_weaken) (auto intro: durable_insert)

lemma writes_clean: "writes view k K m \<Longrightarrow>
    hoare (durable (K - {k}) view) m (\<lambda>_. durable (K - {k}) view) (durable (insert k K) view)"
  unfolding writes_def by (erule hoare_weaken) (auto intro: durable_insert)

context dashboard
begin

lemma onWorld_durable:
  assumes "\<And>v. keeps (\<lambda>w. view w = v) m"
  shows "keeps (durable K view) (onWorld m)"
proof (rule keepsI)
  fix s :: "'a svc"
  obtain r w where m: "m (s_world s) = (r, w)" by fastforce
  with frameD [OF assms, where s = "s_world s"] have "view w = view (s_world s)" by simp
  moreover assume "durable K view s"
  ultimately show "durable K view (snd (onWorld m s))"
    by (simp add: onWorld_def m durable_def one_product_def stored_but_def)
qed

lemma updateGroup_writes:
  assumes "CHR ''/'' \<notin> set (gName g)"
  shows "writes view (gName g) K (updateGroup E g)"
  unfolding writes_def
proof (rule hoareI)
  fix s x t
  assume s: "durable (insert (gName g) K) view s" and u: "updateGroup E g s = (Inr x, t)"
  let ?m = "s_groups s"
  obtain r w where upd: "cl_Update C (GroupPath (gmProduct ?m) (gName g)) (Group_Encode g) (s_world s) = (r, w)"
    by fastforce
  with u have t: "r = Inr () \<and> t = s\<lparr>s_groups := gm_put (gName g) g ?m, s_world := w\<rparr>"
    by (cases r) (auto simp: updateGroup_def onGroups_def groupMapper_Update_def groupMapper_put_def io_defs
        gm_put_def client)
  from s have "plain_comp (gmProduct ?m)" "stored_but (insert (gName g) K) view ?m (s_world s)"
    by (simp_all add: durable_def one_product_def)
  with update_group [OF _ assms] upd t have "stored_but (K - {gName g}) view (gm_put (gName g) g ?m) w" by blast
  with s show "durable (K - {gName g}) view t" by (simp add: t durable_def one_product_def)
next
  fix s e t
  assume s: "durable (insert (gName g) K) view s" and u: "updateGroup E g s = (Inl e, t)"
  let ?m = "s_groups s"
  obtain r w where upd: "cl_Update C (GroupPath (gmProduct ?m) (gName g)) (Group_Encode g) (s_world s) = (r, w)"
    by fastforce
  with u have t: "t = s\<lparr>s_world := w\<rparr>"
    by (cases r) (auto simp: updateGroup_def onGroups_def groupMapper_Update_def groupMapper_put_def io_defs client)
  from s have "plain_comp (gmProduct ?m)" "stored_but (insert (gName g) K) view ?m (s_world s)"
    by (simp_all add: durable_def one_product_def)
  from update_group_any [OF this(1) assms _ this(2) upd] s show "durable (insert (gName g) K) view t"
    by (simp add: t durable_def one_product_def)
qed

lemma updateSentinel_durable: "keeps (durable K view) (updateSentinel E sn)"
proof (rule keepsI)
  fix s :: "'a svc"
  assume s: "durable K view s"
  let ?p = "smProduct (s_sentinel s)"
  obtain r w where upd: "cl_Update C (SentinelPath ?p) (Sentinel_Encode sn) (s_world s) = (r, w)" by fastforce
  from s have p: "plain_comp (gmProduct (s_groups s))" "?p = gmProduct (s_groups s)"
    and st: "stored_but K view (s_groups s) (s_world s)" by (simp_all add: durable_def one_product_def)
  from update_away [OF SentinelPath_node away_sentinel upd [unfolded p(2)] st] p(1)
  have "stored_but K view (s_groups s) w" by simp
  with s upd show "durable K view (snd (updateSentinel E sn s))"
    by (cases r) (auto simp: updateSentinel_def onSentinel_def sentinelMapper_Update_def io_defs client
        durable_def one_product_def)
qed

lemma updateGslb_durable:
  assumes "plain_comp (glName g)"
  shows "keeps (durable K view) (updateGslb E g)"
proof (rule keepsI)
  fix s :: "'a svc"
  assume s: "durable K view s"
  let ?p = "bmProduct (s_gslb s)"
  obtain r w where upd: "cl_Update C (GSLBPath (glName g) ?p) (GSLB_Encode g) (s_world s) = (r, w)" by fastforce
  from s have p: "plain_comp (gmProduct (s_groups s))" "?p = gmProduct (s_groups s)"
    and st: "stored_but K view (s_groups s) (s_world s)" by (simp_all add: durable_def one_product_def)
  from update_away [OF GSLBPath_node away_gslb upd [unfolded p(2)] st] p(1) assms
  have "stored_but K view (s_groups s) w" by simp
  with s upd show "durable K view (snd (updateGslb E g s))"
    unfolding updateGslb_def onGslb_def gslbMapper_Update_def
    by (cases r; cases "case map_of (bmGslbs (s_gslb s)) (glName g) of Some a \<Rightarrow> DeepEqual_GSLB a g | None \<Rightarrow> False")
      (simp_all add: io_defs client durable_def one_product_def)
qed

lemma refreshOne_durable: "keeps (durable K view) (refreshOne E n)"
proof (cases "n = ''haproxy'' \<or> n = ''lvs''")
  case True
  then have n: "plain_comp n" by (auto simp: plain_comp_def)
  have step: "keeps (durable K view) (bindE (getGSLBBackends n) (\<lambda>(b, mon).
      bindE (attempt (updateGslb E \<lparr>glName = n, glServers = ss, glMonitors = mon, glBackends = b\<rparr>)) (\<lambda>_. ret ())))" for ss
    by (rule keeps_bind [OF keeps_pure [OF getGSLBBackends_pure]])
      (auto split: prod.split intro!: keeps_bind keeps_attempt keeps_ret updateGslb_durable n)
  show ?thesis
    unfolding refreshOne_def gslbsInfo_eq
    by (intro keeps_bind keeps_gets) (auto split: option.split intro: keeps_ret step)
next
  case False
  then show ?thesis
    unfolding refreshOne_def gslbsInfo_eq
    by (intro keeps_bind keeps_gets) (auto simp: getGSLBBackends_def split: option.split intro: keeps_ret keeps_fail)
qed

lemma refresh_durable: "keeps (durable K view) (refreshGSLBBackendInfo E)"
  unfolding refreshGSLBBackendInfo_def gslbsInfo_eq by (intro keeps_bind keeps_gets keeps_forE refreshOne_durable)

lemma outOfSync_durable: "keeps (durable K view) (outOfSyncBySentinel E)"
  unfolding outOfSyncBySentinel_def sentinelInfo_eq
  by (intro keeps_bind keeps_gets keeps_if keeps_ret assignSentinel_durable keeps_mapErr updateSentinel_durable)

text \<open>A change of the cached group \<open>k\<close>, its write, and what follows.\<close>

lemma store_then:
  assumes "gName g = k" and "CHR ''/'' \<notin> set k"
    and "\<And>x. hoare (durable (K - {k}) view) (f x) (\<lambda>_. durable (K - {k}) view) (durable (insert k K) view)"
  shows "writes view k K (bindE (assignGroup k g) (\<lambda>_. bindE (updateGroup E g) f))"
proof (rule writes_bind [OF assignGroup_durable])
  show "writes view k K (bindE (updateGroup E g) f)"
    unfolding writes_def
    by (rule writes_then [OF _ assms(3)]) (use updateGroup_writes [of g K] assms(1,2) in simp)
qed simp

lemma sync_servers_durable: "keeps (durable K view) (sync_servers E n ss errs)"
proof (induction ss arbitrary: errs)
  case (Cons s ss)
  obtain a m where s: "s = (a, m)" by fastforce
  show ?case
    unfolding s sync_servers.simps doSyncAction_def
    by (intro keeps_bind keeps_attempt keeps_gets onWorld_durable with_client_frame SetMaster_frame Cons.IH)
qed (simp add: keeps_ret)

lemma resyncGroup_durable:
  assumes "gName g = k" and "CHR ''/'' \<notin> set k"
  shows "hoare (durable (K - {k}) view) (resyncGroup E k g) (\<lambda>_. durable (K - {k}) view) (durable (insert k K) view)"
proof -
  let ?g = "g\<lparr>gOutOfSync := True\<rparr>"
  have upd: "keeps (durable (insert k K) view) (attempt (updateGroup E ?g))"
    using updateGroup_writes [of ?g K] assms
    by (intro keeps_attempt) (auto simp: writes_def intro: hoare_weaken durable_insert)
  have W: "hoare (durable (K - {k}) view) (bindE (assignGroup k ?g) (\<lambda>_. bindE (attempt (updateGroup E ?g))
      (\<lambda>r. fail (ErrMulti (case r of Inl e \<Rightarrow> errs @ [e] | Inr _ \<Rightarrow> errs)))))
      (\<lambda>_. durable (K - {k}) view) (durable (insert k K) view)" for errs
  proof (rule hoare_weaken [where P = "durable (insert k K) view"])
    show "hoare (durable (insert k K) view) (bindE (assignGroup k ?g) (\<lambda>_. bindE (attempt (updateGroup E ?g))
      (\<lambda>r. fail (ErrMulti (case r of Inl e \<Rightarrow> errs @ [e] | Inr _ \<Rightarrow> errs)))))
      (\<lambda>_. durable (K - {k}) view) (durable (insert k K) view)"
      by (intro hoare_bind [OF assignGroup_durable] hoare_bind [OF upd]) (auto simp: hoare_def fail_def)
  qed (auto intro: durable_insert)
  show ?thesis
    unfolding resyncGroup_def
    by (intro hoare_if hoare_bind [OF clean [OF sync_servers_durable]] clean keeps_ret W)
qed

lemma create_writes:
  assumes "CHR ''/'' \<notin> set (gName g)"
  shows "writes view (gName g) K (onGroups (groupMapper_Create (en_Client E) g))"
proof -
  have eq: "fst (onGroups (groupMapper_Create (en_Client E) g) s) = Inr () \<longleftrightarrow> fst (updateGroup E g s) = Inr ()"
    "snd (onGroups (groupMapper_Create (en_Client E) g) s) = snd (updateGroup E g s)" for s
    by (cases "cl_Update (en_Client E) (GroupPath (gmProduct (s_groups s)) (gName g)) (Group_Encode g) (s_world s)";
        cases "fst (cl_Update (en_Client E) (GroupPath (gmProduct (s_groups s)) (gName g)) (Group_Encode g) (s_world s))";
        simp add: updateGroup_def onGroups_def groupMapper_Create_def groupMapper_Update_def groupMapper_put_def io_defs)+
  note H = updateGroup_writes [OF assms, of K, unfolded writes_def]
  show ?thesis
    unfolding writes_def
  proof (rule hoareI)
    fix s x t
    assume s: "durable (insert (gName g) K) view s" and c: "onGroups (groupMapper_Create (en_Client E) g) s = (Inr x, t)"
    then have "updateGroup E g s = (Inr (), t)" using eq [of s] by (intro prod_eqI) simp_all
    with H s show "durable (K - {gName g}) view t" by (blast dest: hoareD(1))
  next
    fix s e t
    assume s: "durable (insert (gName g) K) view s" and c: "onGroups (groupMapper_Create (en_Client E) g) s = (Inl e, t)"
    then obtain e' where "updateGroup E g s = (Inl e', t)"
      using eq [of s] by (cases "updateGroup E g s"; cases "fst (updateGroup E g s)") auto
    with H s show "durable (insert (gName g) K) view t" by (blast dest: hoareD(2))
  qed
qed

lemma remove_writes:
  assumes "CHR ''/'' \<notin> set (gName g)"
  shows "writes view (gName g) K (onGroups (groupMapper_Remove (en_Client E) g))"
  unfolding writes_def
proof (rule hoareI)
  fix s x t
  assume s: "durable (insert (gName g) K) view s" and u: "onGroups (groupMapper_Remove (en_Client E) g) s = (Inr x, t)"
  let ?m = "s_groups s"
  obtain r w where del: "cl_Delete C (GroupPath (gmProduct ?m) (gName g)) (s_world s) = (r, w)" by fastforce
  with u have t: "r = Inr () \<and> t = s\<lparr>s_groups := ?m\<lparr>gmGroups := AList.delete (gName g) (gmGroups ?m)\<rparr>, s_world := w\<rparr>"
    by (cases r) (auto simp: onGroups_def groupMapper_Remove_def io_defs client)
  from s have "plain_comp (gmProduct ?m)" "stored_but (insert (gName g) K) view ?m (s_world s)"
    by (simp_all add: durable_def one_product_def)
  with delete_group [OF _ assms] del t
  have "stored_but (K - {gName g}) view (?m\<lparr>gmGroups := AList.delete (gName g) (gmGroups ?m)\<rparr>) w" by blast
  with s show "durable (K - {gName g}) view t" by (simp add: t durable_def one_product_def)
next
  fix s e t
  assume s: "durable (insert (gName g) K) view s" and u: "onGroups (groupMapper_Remove (en_Client E) g) s = (Inl e, t)"
  let ?m = "s_groups s"
  obtain r w where del: "cl_Delete C (GroupPath (gmProduct ?m) (gName g)) (s_world s) = (r, w)" by fastforce
  with u have t: "t = s\<lparr>s_groups := ?m, s_world := w\<rparr>"
    by (cases r) (auto simp: onGroups_def groupMapper_Remove_def io_defs client)
  from s have "plain_comp (gmProduct ?m)" "stored_but (insert (gName g) K) view ?m (s_world s)"
    by (simp_all add: durable_def one_product_def)
  from delete_group_any [OF this(1) assms _ this(2) del] s show "durable (insert (gName g) K) view t"
    by (simp add: t durable_def one_product_def)
qed

lemma time_Now_durable: "keeps (durable K view) (time_Now E)"
  unfolding time_Now_def
  by (rule onWorld_durable, rule keepsI) (use now_frame in \<open>auto simp: case_prod_beta\<close>)

lemma CreateGroup_writes:
  assumes "CHR ''/'' \<notin> set n"
  shows "writes view n K (CreateGroup E n r w)"
proof -
  have c: "writes view n K (onGroups (groupMapper_Create (en_Client E) (fresh_group n r w now)))" for now
    using create_writes [of "fresh_group n r w now"] assms by simp
  have f: "keeps (durable (insert n K) view) (case find (\<lambda>(_, g). ports_conflict r w g) gs of
      None \<Rightarrow> ret () | Some (_, g) \<Rightarrow> fail (ErrGroup (PortConflict n (gName g))))" for gs
    by (auto split: option.split intro: keeps_ret keeps_fail)
  show ?thesis
    unfolding CreateGroup_def groupsInfo_eq fresh_group_def [symmetric]
    by (intro writes_bind keeps_guard keeps_gets time_Now_durable f c)
qed

text \<open>The operations that start from the cached group \<open>g\<close> of the name \<open>k\<close>.\<close>

lemma lookup_name: "svc_inv s \<Longrightarrow> map_of (gmGroups (s_groups s)) k = Some g \<Longrightarrow> gName g = k \<and> CHR ''/'' \<notin> set k"
  using groups_invD(1,4) [of "s_groups s" k g] by (simp add: svc_inv_def gm_at_def)

lemma RemoveGroup_durable:
  assumes "svc_inv s" and "durable K view s"
  shows "hoare (\<lambda>t. t = s) (RemoveGroup E n) (\<lambda>_. durable (K - {n}) view) (durable (insert n K) view)"
  unfolding RemoveGroup_def groupsInfo_eq
proof (intro at_gets at_lookup at_guard durable_weaken [OF assms(2)], goal_cases)
  case (1 g)
  with lookup_name [OF assms(1)] have "gName g = n \<and> CHR ''/'' \<notin> set n" by simp
  then show ?case using writes_at [OF remove_writes assms(2), of g] by simp
qed

lemma AddGroupServer_durable:
  assumes "svc_inv s" and "durable K view s"
  shows "hoare (\<lambda>t. t = s) (AddGroupServer E k a) (\<lambda>_. durable (K - {k}) view) (durable (insert k K) view)"
  unfolding AddGroupServer_def groupsInfo_eq Let_def
proof (intro at_gets at_lookup at_guard durable_weaken [OF assms(2)], goal_cases)
  case (1 g)
  with lookup_name [OF assms(1)] have k: "gName g = k" "CHR ''/'' \<notin> set k" by auto
  then show ?case
    by (intro writes_at [OF _ assms(2)] writes_bind outOfSync_durable store_then clean refresh_durable) simp_all
qed

lemma DelGroupServer_durable:
  assumes "svc_inv s" and "durable K view s"
  shows "hoare (\<lambda>t. t = s) (DelGroupServer E k a) (\<lambda>_. durable (K - {k}) view) (durable (insert k K) view)"
  unfolding DelGroupServer_def groupsInfo_eq Let_def
proof (intro at_gets at_lookup at_guard durable_weaken [OF assms(2)], goal_cases)
  case (1 g)
  with lookup_name [OF assms(1)] have "gName (without_server (GetServerIndex g a) g) = k" "CHR ''/'' \<notin> set k"
    by (auto simp: without_server_def Let_def)
  then show ?case
    by (intro writes_at [OF _ assms(2)] writes_bind outOfSync_durable store_then clean refresh_durable)
qed

lemma ResyncGroup_durable:
  assumes "svc_inv s" and "durable K view s"
  shows "hoare (\<lambda>t. t = s) (ResyncGroup E k) (\<lambda>_. durable (K - {k}) view) (durable (insert k K) view)"
  unfolding ResyncGroup_def groupsInfo_eq Let_def
proof (intro at_gets at_lookup durable_weaken [OF assms(2)], goal_cases)
  case (1 g)
  with lookup_name [OF assms(1)] have "gName (g\<lparr>gOutOfSync := False\<rparr>) = k" "CHR ''/'' \<notin> set k" by auto
  then show ?case by (intro writes_at [OF _ assms(2)] store_then resyncGroup_durable)
qed

subsubsection \<open>The promotion\<close>

lemma promoteFinished_writes:
  assumes "gName g = k" and "CHR ''/'' \<notin> set k"
  shows "writes view k K (promoteFinished E g)"
  using updateGroup_writes [of "promoted (gServers g) g"] assms by (simp add: promoteFinished_def promoted_def)

lemma promote_sentinel_durable: "keeps (durable K view) (promote_sentinel E g)"
  unfolding promote_sentinel_def sentinelInfo_eq
  by (intro keeps_bind keeps_gets keeps_if keeps_ret assignSentinel_durable updateSentinel_durable
      sentinel_product_keeps keeps_case_prod keeps_attempt onWorld_durable RemoveGroups_frame)
    (simp add: hoare_def modifyE_def durable_def one_product_def)

lemma promotePrepared_writes:
  assumes "gName g = k" and "CHR ''/'' \<notin> set k"
  shows "writes view k K (promotePrepared E k g)"
proof -
  have at: "hoare (durable (K - {k}) view) (attempt (resyncGroup E k h)) (\<lambda>_. durable (insert k K) view)
      (durable (insert k K) view)" if "gName h = k" for h
    by (rule hoare_attempt [OF resyncGroup_durable [OF that assms(2)]]) (auto intro: durable_insert)
  have finish: "hoare (durable (insert k K) view) (promoteFinished E h) (\<lambda>_. durable (K - {k}) view) (durable (insert k K) view)"
    if "gName h = k" for h
    using promoteFinished_writes [OF that assms(2)] by (simp add: writes_def)
  show ?thesis
    unfolding promotePrepared_def Let_def
    by (intro writes_bind promote_sentinel_durable store_then assms hoare_bind [OF at] finish) (simp_all add: assms)
qed

lemma GroupPromoteServer_durable:
  assumes "svc_inv s" and "durable K view s"
  shows "hoare (\<lambda>t. t = s) (GroupPromoteServer E k a) (\<lambda>_. durable (K - {k}) view) (durable (insert k K) view)"
  unfolding GroupPromoteServer_def groupsInfo_eq Let_def
proof (intro at_gets at_lookup at_guard durable_weaken [OF assms(2)], goal_cases)
  case (1 g)
  with lookup_name [OF assms(1)] have k: "gName g = k" "CHR ''/'' \<notin> set k" by auto
  have preparing: "writes view k K (promotePreparing E k h)" if "gName h = k" for h
    unfolding promotePreparing_def Let_def
    by (intro store_then writes_clean promotePrepared_writes k) (simp_all add: that)
  have start: "writes view k K (promoteNothing E k g i)" for i
    unfolding promoteNothing_def Let_def
    by (intro store_then writes_clean preparing k) (simp_all add: k)
  have guards: "keeps (durable (insert k K) view) (if c then guardE b e else guardE b' e')" for c b e b' e'
    by (simp add: keeps_guard)
  have failing: "writes view k K (fail e :: ('a svc, unit) io)" for e
    by (simp add: writes_def hoare_def fail_def)
  have steps: "writes view k K
     (if gPromotingState g = ActionNothing then promoteNothing E k g i
      else if gPromotingState g = ActionPreparing then promotePreparing E k g
      else if gPromotingState g = ActionPrepared then promotePrepared E k g
      else if gPromotingState g = ActionFinished then promoteFinished E g
      else fail (ErrGroup (ActionStateInvalid (gName g))))" for i
    using start [of i] preparing [OF k(1)] promotePrepared_writes [OF k] promoteFinished_writes [OF k] failing by simp
  show ?case
    by (rule writes_at [OF writes_bind [OF guards steps] assms(2)])
qed

text \<open>All operations that write one group.\<close>

lemma group_ops_durable:
  assumes "svc_inv s" and "durable K view s" and "CHR ''/'' \<notin> set n" and "m \<in> set (group_ops E n a r w)"
  shows "hoare (\<lambda>t. t = s) m (\<lambda>_. durable (K - {n}) view) (durable (insert n K) view)"
  using assms(4)
  by (auto simp: group_ops_def intro: RemoveGroup_durable [OF assms(1,2)] ResyncGroup_durable [OF assms(1,2)]
      AddGroupServer_durable [OF assms(1,2)] DelGroupServer_durable [OF assms(1,2)]
      GroupPromoteServer_durable [OF assms(1,2)] writes_at [OF CreateGroup_writes [OF assms(3)] assms(2)])

end

end
