(* ===== verification/MemWorld.thy ===== *)
theory MemWorld
  imports Durability
begin

section \<open>A complete environment in memory\<close>

text \<open>
  An instance of everything the service is parameterised by: the coordinator is the etcd
  client on the key store in memory, the redis servers answer \<open>OK\<close> to every command and keep
  the list of commands they received, no timer fires and no context ends. It shows that the
  contracts can be met and it lets the operations run on concrete states.
\<close>

type_synonym mem_world = "(etcd_client \<times> mem) \<times> (string \<times> string list) list"

definition onFst :: "('a, 'x) io \<Rightarrow> ('a \<times> 'b, 'x) io" where
  "onFst m s = (case m (fst s) of (r, x) \<Rightarrow> (r, (x, snd s)))"

definition mem_client :: "((etcd_client \<times> mem) \<times> 'b) client" where
  "mem_client =
     \<lparr>cl_Create = \<lambda>p d. onFst (etcd_Create mem_kapi p d), cl_Update = \<lambda>p d. onFst (etcd_Update mem_kapi p d),
      cl_Delete = \<lambda>p. onFst (etcd_Delete mem_kapi p), cl_Read = \<lambda>p must. onFst (etcd_Read mem_kapi p must),
      cl_List = \<lambda>p must. onFst (etcd_List mem_kapi p must)\<rparr>"

definition world_view :: "(etcd_client \<times> mem) \<times> 'b \<Rightarrow> string \<Rightarrow> data option" where
  "world_view w = mem_view (snd (fst w))"

definition sent :: "string \<Rightarrow> string list \<Rightarrow> mem_world \<Rightarrow> mem_world" where
  "sent cmd args w = (fst w, snd w @ [(cmd, args)])"

definition mem_redigo :: "mem_world redigo" where
  "mem_redigo =
     \<lparr>rd_Dial = \<lambda>addr auth ct t w. (Inr (length (snd w)), sent ''DIAL'' [addr] w),
      rd_Do = \<lambda>c cmd args w. (Inr (RStatus ''OK''), sent cmd args w),
      rd_Send = \<lambda>c cmd args w. (Inr (), sent cmd args w),
      rd_Flush = \<lambda>c w. (Inr (), w),
      rd_Receive = \<lambda>c w. (Inr (RStatus ''OK''), w),
      rd_Close = \<lambda>c w. (Inr (), w),
      rd_Err = \<lambda>c w. False,
      rd_Now = \<lambda>w. 0\<rparr>"

definition mem_sched :: "mem_world sched" where
  "mem_sched =
     \<lparr>sc_Ctx = \<lambda>w. (None, w), sc_Arrive = \<lambda>n w. (([0..<n], DeadlineExceeded), w),
      sc_Resolve = \<lambda>addr w. (Inr (addr, 0), w), sc_After = \<lambda>w. (False, w), sc_Done = \<lambda>w. (False, w)\<rparr>"

definition mem_env :: "mem_world env" where
  "mem_env =
     \<lparr>en_Client = mem_client, en_Redigo = mem_redigo, en_Sched = mem_sched,
      en_Http = \<lambda>url w. (Inr (200, Inr ''ok''), w), en_Now = \<lambda>w. (''2018-01-01 00:00:00'', w)\<rparr>"

lemma onFst_view:
  "onFst m w = (r, w') \<Longrightarrow> \<exists>x. m (fst w) = (r, x) \<and> world_view w' = mem_view (snd x)"
  by (cases "m (fst w)") (auto simp: onFst_def world_view_def)

interpretation mem_world: coord_client mem_client world_view
proof
  fix p q :: string and d :: data and w w' :: "(etcd_client \<times> mem) \<times> 'b" and x :: unit and r :: "error + unit"
  assume p: "node_path p"
  note view = world_view_def [of w]
  show "world_view w p = None \<and> world_view w' p = Some d" if "cl_Create mem_client p d w = (Inr x, w')"
    using that mem.etcd.create_ok [OF p] onFst_view [of "etcd_Create mem_kapi p d" w "Inr x" w']
    by (fastforce simp: mem_client_def etcd_Client_def view)
  show "world_view w' p = Some d" if "cl_Update mem_client p d w = (Inr x, w')"
    using that mem.etcd.update_ok [OF p] onFst_view [of "etcd_Update mem_kapi p d" w "Inr x" w']
    by (fastforce simp: mem_client_def etcd_Client_def view)
  show "world_view w' p = None" if "cl_Delete mem_client p w = (Inr x, w')"
    using that mem.etcd.delete_ok [OF p] onFst_view [of "etcd_Delete mem_kapi p" w "Inr x" w']
    by (fastforce simp: mem_client_def etcd_Client_def view)
  show "world_view w' q = world_view w q" if "cl_Create mem_client p d w = (r, w')" "q \<noteq> p" "\<not> ancestor q p"
    using that mem.etcd.create_other [OF p] onFst_view [of "etcd_Create mem_kapi p d" w r w']
    by (fastforce simp: mem_client_def etcd_Client_def view)
  show "world_view w' q = world_view w q" if "cl_Update mem_client p d w = (r, w')" "q \<noteq> p" "\<not> ancestor q p"
    using that mem.etcd.update_other [OF p] onFst_view [of "etcd_Update mem_kapi p d" w r w']
    by (fastforce simp: mem_client_def etcd_Client_def view)
  show "world_view w' q = world_view w q" if "cl_Delete mem_client p w = (r, w')" "q \<noteq> p"
    using that mem.etcd.delete_other [OF p] onFst_view [of "etcd_Delete mem_kapi p" w r w']
    by (fastforce simp: mem_client_def etcd_Client_def view)
next
  fix p :: string and must and w w' :: "(etcd_client \<times> mem) \<times> 'b" and y :: "data option" and r :: "error + data option"
  show "y = world_view w p" if "node_path p" "cl_Read mem_client p must w = (Inr y, w')"
    using that mem.etcd.read_ok [OF that(1)] onFst_view [of "etcd_Read mem_kapi p must" w "Inr y" w']
    by (fastforce simp: mem_client_def etcd_Client_def world_view_def [of w])
  show "world_view w' = world_view w" if "cl_Read mem_client p must w = (r, w')"
    using that mem.etcd.read_frame onFst_view [of "etcd_Read mem_kapi p must" w r w']
    by (fastforce simp: mem_client_def etcd_Client_def world_view_def [of w])
next
  fix p :: string and must and w w' :: "(etcd_client \<times> mem) \<times> 'b" and ps :: "string list" and r :: "error + string list"
  show "(\<forall>q \<in> set ps. node_path q \<and> child_of p q) \<and>
      (\<forall>c. plain_comp c \<longrightarrow> \<not> hidden c \<longrightarrow> world_view w (p @ ''/'' @ c) \<noteq> None \<longrightarrow> p @ ''/'' @ c \<in> set ps)"
    if p: "node_path p" and l: "cl_List mem_client p must w = (Inr ps, w')"
  proof -
    obtain x where "etcd_List mem_kapi p must (fst w) = (Inr ps, x)"
      using l onFst_view [of "etcd_List mem_kapi p must" w "Inr ps" w'] by (auto simp: mem_client_def)
    with mem.etcd.list_ok [OF p, of must "fst w" ps x] show ?thesis
      unfolding world_view_def by (simp add: etcd_Client_def)
  qed
  show "world_view w' = world_view w" if "cl_List mem_client p must w = (r, w')"
    using that mem.etcd.list_frame onFst_view [of "etcd_List mem_kapi p must" w r w']
    by (fastforce simp: mem_client_def etcd_Client_def world_view_def [of w])
qed

interpretation mem_world: dashboard mem_client world_view mem_env
  by unfold_locales
    (auto simp: hoare_def mem_env_def mem_redigo_def mem_sched_def sent_def world_view_def)

end
