(* ===== verification/TemplateFiles.thy ===== *)
theory TemplateFiles
  imports Mappers
begin

section \<open>Template files (topom/dao/mapper/template\_file\_mapper.go)\<close>

text \<open>
  The mapper that copies the files of a scanned directory to the coordinator. The calls of
  \<open>os\<close>, \<open>ioutil\<close> and \<open>filepath.Glob\<close> are the parameter \<open>fsys\<close>; \<open>fs_Lstat\<close> gives the base
  name of a file and whether it is a directory. The text of a node that holds JSON is the
  parameter \<open>marshal\<close>; the program itself only writes raw bytes to these nodes.
  \<^item> \<open>init\<close> reads the coordinator's templates and writes those that the directory lacks;
  \<^item> \<open>doMonitor\<close> is one round of \<open>monitor\<close>: read the directory, delete the nodes of the files
    that are gone, write the nodes of those that changed.
  \<^item> \<open>md5_Sum\<close>: \<open>hash.Sum(b)\<close> appends the digest of what was written to the hash to \<open>b\<close>;
    nothing was, so it is the digest of the empty text that is appended to the data.
\<close>

subsection \<open>The mapper\<close>

record 'w fsys =
  fs_Stat :: "string \<Rightarrow> ('w, unit) io"
  fs_MkdirAll :: "string \<Rightarrow> ('w, unit) io"
  fs_Glob :: "string \<Rightarrow> ('w, string list) io"
  fs_Lstat :: "string \<Rightarrow> ('w, string \<times> bool) io"
  fs_Open :: "string \<Rightarrow> ('w, nat) io"
  fs_Create :: "string \<Rightarrow> ('w, nat) io"
  fs_ReadAll :: "nat \<Rightarrow> ('w, string) io"
  fs_Write :: "nat \<Rightarrow> string \<Rightarrow> ('w, unit) io"
  fs_CloseFile :: "nat \<Rightarrow> 'w \<Rightarrow> 'w"

record tf_mapper =
  tpScanDir :: string
  tpTfs :: template_files

definition md5_empty :: string where
  "md5_empty = map char_of [212, 29, 140, 217, 143, 0, 178, 4, 233, 128, 9, 152, 236, 248, 66, 126 :: nat]"

definition md5_Sum :: "string \<Rightarrow> string" where
  "md5_Sum data = data @ md5_empty"

definition template_of :: "string \<Rightarrow> template_file" where
  "template_of data = \<lparr>tfData = data, tfMD5 = md5_Sum data\<rparr>"

definition text_of :: "(json \<Rightarrow> string) \<Rightarrow> data \<Rightarrow> string" where
  "text_of marshal d = (case d of Bytes s \<Rightarrow> s | JsonText j \<Rightarrow> marshal j)"

text \<open>\<open>with_file\<close>: open, do, close whatever happened (\<open>defer f.Close()\<close>).\<close>

definition with_file :: "'w fsys \<Rightarrow> ('w, nat) io \<Rightarrow> (nat \<Rightarrow> ('w, 'a) io) \<Rightarrow> ('w, 'a) io" where
  "with_file F op f =
     bindE op (\<lambda>fd w. case f fd w of (r, w') \<Rightarrow> (r, fs_CloseFile F fd w'))"

fun match_files :: "'w fsys \<Rightarrow> string list \<Rightarrow> (string \<times> string) list \<Rightarrow> ('w, (string \<times> string) list) io" where
  "match_files F [] files = ret files"
| "match_files F (file # fs) files =
     bindE (attempt (fs_Lstat F file)) (\<lambda>r.
     case r of
       Inl _ \<Rightarrow> match_files F fs files
     | Inr (name, isDir) \<Rightarrow> match_files F fs (if isDir then files else AList.update name file files))"

definition getMatchFiles :: "'w fsys \<Rightarrow> string \<Rightarrow> ('w, (string \<times> string) list) io" where
  "getMatchFiles F scanDir = bindE (fs_Glob F scanDir) (\<lambda>matchFiles. match_files F matchFiles [])"

fun load_templates :: "'w client \<Rightarrow> (json \<Rightarrow> string) \<Rightarrow> string list \<Rightarrow> template_files \<Rightarrow> ('w, template_files) io" where
  "load_templates C marshal [] tfs = ret tfs"
| "load_templates C marshal (path # paths) tfs =
     bindE (cl_Read C path True) (\<lambda>d.
     load_templates C marshal paths
       (AList.update (path_Base path) (template_of (text_of marshal (bytes_of d))) tfs))"

definition write_template :: "'w fsys \<Rightarrow> string \<Rightarrow> template_file \<Rightarrow> ('w, unit) io" where
  "write_template F file v =
     with_file F (mapErr (ErrMapper ''open'' file) (fs_Create F file)) (\<lambda>fd.
       mapErr (ErrMapper ''write'' file) (fs_Write F fd (tfData v)))"

definition tf_init :: "'w client \<Rightarrow> 'w fsys \<Rightarrow> (json \<Rightarrow> string) \<Rightarrow> string \<Rightarrow> ('w, template_files) io" where
  "tf_init C F marshal scanDir =
     bindE (attempt (fs_Stat F (path_Dir scanDir))) (\<lambda>st.
     bindE (case st of Inr _ \<Rightarrow> ret () | Inl _ \<Rightarrow> fs_MkdirAll F (path_Dir scanDir)) (\<lambda>_.
     bindE (cl_List C TemplateFileDir False) (\<lambda>paths.
     bindE (load_templates C marshal paths []) (\<lambda>tfs.
     bindE (getMatchFiles F scanDir) (\<lambda>files.
     bindE (forE tfs (\<lambda>(name, v).
              if map_of files name \<noteq> None then ret ()
              else write_template F (path_Join [path_Dir scanDir, name]) v)) (\<lambda>_.
     ret tfs))))))"

definition NewTemplateFileMapper :: "'w client \<Rightarrow> 'w fsys \<Rightarrow> (json \<Rightarrow> string) \<Rightarrow> string \<Rightarrow> ('w, tf_mapper) io" where
  "NewTemplateFileMapper C F marshal scanDir =
     bindE (tf_init C F marshal scanDir) (\<lambda>tfs. ret \<lparr>tpScanDir = scanDir, tpTfs = tfs\<rparr>)"

definition read_template :: "'w fsys \<Rightarrow> string \<Rightarrow> ('w, template_file) io" where
  "read_template F file =
     with_file F (mapErr (ErrMapper ''open'' file) (fs_Open F file)) (\<lambda>fd.
       bindE (mapErr (ErrMapper ''read'' file) (fs_ReadAll F fd)) (\<lambda>data. ret (template_of data)))"

fun read_templates :: "'w fsys \<Rightarrow> (string \<times> string) list \<Rightarrow> template_files \<Rightarrow> ('w, template_files) io" where
  "read_templates F [] tfs = ret tfs"
| "read_templates F ((name, file) # files) tfs =
     bindE (read_template F file) (\<lambda>tf. read_templates F files (AList.update name tf tfs))"

definition tf_update :: "'w client \<Rightarrow> string \<Rightarrow> template_file \<Rightarrow> ('w, unit) io" where
  "tf_update C fileName tf =
     mapErr (ErrMapper ''templateFileMapper::update'' fileName)
       (cl_Update C (TemplateFilePath fileName) (Bytes (tfData tf)))"

definition tf_delete :: "'w client \<Rightarrow> string \<Rightarrow> ('w, unit) io" where
  "tf_delete C fileName =
     mapErr (ErrMapper ''templateFileMapper::delete'' fileName) (cl_Delete C (TemplateFilePath fileName))"

text \<open>The two loops of \<open>doMonitor\<close>; a template whose write fails is dropped from the new map.\<close>

fun delete_gone :: "'w client \<Rightarrow> template_files \<Rightarrow> string list \<Rightarrow> ('w, unit) io" where
  "delete_gone C tfs [] = ret ()"
| "delete_gone C tfs (name # names) =
     (if map_of tfs name \<noteq> None then delete_gone C tfs names
      else bindE (attempt (tf_delete C name)) (\<lambda>_. delete_gone C tfs names))"

fun update_changed :: "'w client \<Rightarrow> template_files \<Rightarrow> (string \<times> template_file) list \<Rightarrow> template_files
    \<Rightarrow> ('w, template_files) io" where
  "update_changed C old [] tfs = ret tfs"
| "update_changed C old ((name, v) # vs) tfs =
     (if (case map_of old name of None \<Rightarrow> False | Some vv \<Rightarrow> tfMD5 vv = tfMD5 v)
      then update_changed C old vs tfs
      else bindE (attempt (tf_update C name v)) (\<lambda>r.
           update_changed C old vs (case r of Inl _ \<Rightarrow> AList.delete name tfs | Inr _ \<Rightarrow> tfs)))"

definition doMonitor :: "'w client \<Rightarrow> 'w fsys \<Rightarrow> (tf_mapper \<times> 'w, unit) io" where
  "doMonitor C F =
     bindE (gets (\<lambda>s. tpScanDir (fst s))) (\<lambda>scanDir.
     bindE (onW (getMatchFiles F scanDir)) (\<lambda>files.
     bindE (onW (read_templates F files [])) (\<lambda>tfs.
     bindE (gets (\<lambda>s. tpTfs (fst s))) (\<lambda>old.
     bindE (onW (delete_gone C tfs (map fst old))) (\<lambda>_.
     bindE (onW (update_changed C old tfs tfs)) (\<lambda>tfs'.
     modifyE (\<lambda>s. ((fst s)\<lparr>tpTfs := tfs'\<rparr>, snd s))))))))"

text \<open>
  The loop around it: each \<open>d\<close> is what one look at the channel \<open>done\<close> finds, first before a
  round, then while waiting for the next one. The errors of a round are logged.
\<close>

fun monitor :: "'w client \<Rightarrow> 'w fsys \<Rightarrow> bool list \<Rightarrow> tf_mapper \<times> 'w \<Rightarrow> tf_mapper \<times> 'w" where
  "monitor C F [] s = s"
| "monitor C F [d] s = (if d then s else snd (doMonitor C F s))"
| "monitor C F (d # d' # ds) s =
     (if d then s
      else if d' then snd (doMonitor C F s)
      else monitor C F ds (snd (doMonitor C F s)))"

definition tf_Info :: "(tf_mapper \<times> 'w, template_files) io" where
  "tf_Info = gets (\<lambda>s. tpTfs (fst s))"

subsection \<open>Every cached template is stored\<close>

text \<open>
  The digest that is compared determines the data, so a template that is skipped as unchanged
  is unchanged.
\<close>

lemma md5_Sum_inj: "md5_Sum a = md5_Sum b \<longleftrightarrow> a = b"
  by (simp add: md5_Sum_def)

lemma TemplateFilePath_plain: "plain_comp n \<Longrightarrow> TemplateFilePath n = ''/cache-manager/template-files/'' @ n"
  unfolding path_defs dir_defs
  by (subst path_Join_rooted) (auto simp: plain_comp_def Split_word)

lemma TemplateFilePath_node: "plain_comp n \<Longrightarrow> node_path (TemplateFilePath n)"
  by (simp add: TemplateFilePath_plain node_path_def plain_comp_def Split_append_general Split_word)

lemma TemplateFilePath_apart:
  assumes "plain_comp n" and "plain_comp m" and "m \<noteq> n"
  shows "TemplateFilePath m \<noteq> TemplateFilePath n" and "\<not> ancestor (TemplateFilePath m) (TemplateFilePath n)"
proof -
  show "TemplateFilePath m \<noteq> TemplateFilePath n" using assms by (simp add: TemplateFilePath_plain)
  have "n \<noteq> m @ CHR ''/'' # r" for r using assms(1) by (auto simp: plain_comp_def)
  then show "\<not> ancestor (TemplateFilePath m) (TemplateFilePath n)"
    using assms(1,2) by (auto simp: ancestor_def HasPrefix_iff TemplateFilePath_plain)
qed

definition template_ok :: "string \<times> template_file \<Rightarrow> bool" where
  "template_ok e \<longleftrightarrow> plain_comp (fst e) \<and> snd e = template_of (tfData (snd e))"

definition templates_ok :: "template_files \<Rightarrow> bool" where
  "templates_ok tfs \<longleftrightarrow> distinct (map fst tfs) \<and> list_all template_ok tfs"

text \<open>Every cached template, those of \<open>ns\<close> aside, is what the coordinator holds.\<close>

definition tf_stored_but :: "string set \<Rightarrow> (json \<Rightarrow> string) \<Rightarrow> ('w \<Rightarrow> string \<Rightarrow> data option) \<Rightarrow> template_files
    \<Rightarrow> 'w \<Rightarrow> bool" where
  "tf_stored_but ns marshal view tfs w \<longleftrightarrow>
     (\<forall>n tf. map_of tfs n = Some tf \<longrightarrow> n \<notin> ns \<longrightarrow>
        map_option (text_of marshal) (view w (TemplateFilePath n)) = Some (tfData tf))"

definition tf_stored :: "(json \<Rightarrow> string) \<Rightarrow> ('w \<Rightarrow> string \<Rightarrow> data option) \<Rightarrow> template_files \<Rightarrow> 'w \<Rightarrow> bool" where
  "tf_stored = tf_stored_but {}"

lemma tf_stored_butD:
  "tf_stored_but ns marshal view tfs w \<Longrightarrow> map_of tfs n = Some tf \<Longrightarrow> n \<notin> ns \<Longrightarrow>
     map_option (text_of marshal) (view w (TemplateFilePath n)) = Some (tfData tf)"
  by (simp add: tf_stored_but_def)

lemma tf_stored_butI:
  "(\<And>n tf. map_of tfs n = Some tf \<Longrightarrow> n \<notin> ns \<Longrightarrow>
      map_option (text_of marshal) (view w (TemplateFilePath n)) = Some (tfData tf)) \<Longrightarrow>
   tf_stored_but ns marshal view tfs w"
  unfolding tf_stored_but_def by blast

lemma templates_okD: "templates_ok tfs \<Longrightarrow> map_of tfs n = Some tf \<Longrightarrow> plain_comp n \<and> tf = template_of (tfData tf)"
  by (auto simp: templates_ok_def list_all_iff template_ok_def dest!: map_of_SomeD)

lemma templates_ok_update:
  "templates_ok tfs \<Longrightarrow> plain_comp n \<Longrightarrow> templates_ok (AList.update n (template_of d) tfs)"
  by (simp add: templates_ok_def list_all_update template_ok_def template_of_def)

lemma templates_ok_delete: "templates_ok tfs \<Longrightarrow> templates_ok (AList.delete n tfs)"
  by (simp add: templates_ok_def list_all_delete)

lemma names_update: "list_all P (map fst m) \<Longrightarrow> P k \<Longrightarrow> list_all P (map fst (AList.update k v m))"
  by (induction m) auto

text \<open>What the scan needs from the file system: base names, and a coordinator it cannot reach.\<close>

locale template_host = coord_client +
  fixes F :: "'a fsys" and marshal :: "json \<Rightarrow> string"
  assumes read_must: "node_path p \<Longrightarrow> cl_Read C p True w = (Inr y, w') \<Longrightarrow> y \<noteq> None"
    and lstat_name: "fs_Lstat F file w = (Inr (name, False), w') \<Longrightarrow> plain_comp name"
    and stat_frame: "keeps (\<lambda>w. view w = v) (fs_Stat F file)"
    and mkdir_frame: "keeps (\<lambda>w. view w = v) (fs_MkdirAll F file)"
    and lstat_frame: "keeps (\<lambda>w. view w = v) (fs_Lstat F file)"
    and glob_frame: "keeps (\<lambda>w. view w = v) (fs_Glob F pat)"
    and open_frame: "keeps (\<lambda>w. view w = v) (fs_Open F file)"
    and create_frame: "keeps (\<lambda>w. view w = v) (fs_Create F file)"
    and readall_frame: "keeps (\<lambda>w. view w = v) (fs_ReadAll F fd)"
    and write_frame: "keeps (\<lambda>w. view w = v) (fs_Write F fd text)"
    and closefile_frame: "view (fs_CloseFile F fd w) = view w"
begin

lemma match_files_spec:
  "list_all plain_comp (map fst files) \<Longrightarrow>
   hoare (\<lambda>w. view w = v) (match_files F fs files)
     (\<lambda>files' w. view w = v \<and> list_all plain_comp (map fst files')) (\<lambda>w. view w = v)"
proof (induction fs arbitrary: files)
  case Nil
  then show ?case by (simp add: hoare_def ret_def)
next
  case (Cons f fs)
  show ?case
  proof (rule hoare_at)
    fix w
    assume v: "view w = v"
    obtain r w1 where l: "fs_Lstat F f w = (r, w1)" by fastforce
    then have v1: "view w1 = v" using keepsD [OF lstat_frame [of v f], of w] v by simp
    let ?files = "case r of Inl _ \<Rightarrow> files | Inr (name, isDir) \<Rightarrow> if isDir then files else AList.update name f files"
    have "list_all plain_comp (map fst ?files)"
      using Cons.prems l
      by (auto intro!: names_update split: sum.split dest!: lstat_name)
    from Cons.IH [OF this] v1
    show "hoare (\<lambda>t. t = w) (match_files F (f # fs) files)
        (\<lambda>files' w. view w = v \<and> list_all plain_comp (map fst files')) (\<lambda>w. view w = v)"
      by (auto simp: hoare_iff bindE_def attempt_def l split: sum.splits prod.splits)
  qed
qed

lemma getMatchFiles_spec:
  "hoare (\<lambda>w. view w = v) (getMatchFiles F pat)
     (\<lambda>files w. view w = v \<and> list_all plain_comp (map fst files)) (\<lambda>w. view w = v)"
  unfolding getMatchFiles_def by (intro hoare_bind [OF glob_frame] match_files_spec) simp

lemma with_file_frame:
  assumes "keeps (\<lambda>w. view w = v) m"
    and "\<And>fd. hoare (\<lambda>w. view w = v) (f fd) (\<lambda>x w. view w = v \<and> Q x) (\<lambda>w. view w = v)"
  shows "hoare (\<lambda>w. view w = v) (with_file F m f) (\<lambda>x w. view w = v \<and> Q x) (\<lambda>w. view w = v)"
  unfolding with_file_def
proof (rule hoare_bind [OF assms(1)])
  fix fd
  show "hoare (\<lambda>w. view w = v) (\<lambda>w. case f fd w of (r, w') \<Rightarrow> (r, fs_CloseFile F fd w'))
      (\<lambda>x w. view w = v \<and> Q x) (\<lambda>w. view w = v)"
    using assms(2) [of fd] by (auto simp: hoare_iff closefile_frame case_prod_beta split: sum.splits)
qed

lemma read_template_spec:
  "hoare (\<lambda>w. view w = v) (read_template F file)
     (\<lambda>tf w. view w = v \<and> (\<exists>d. tf = template_of d)) (\<lambda>w. view w = v)"
  unfolding read_template_def
  by (intro with_file_frame keeps_mapErr open_frame hoare_bind [OF keeps_mapErr [OF readall_frame]])
    (auto simp: hoare_def ret_def)

lemma read_templates_spec:
  "list_all plain_comp (map fst files) \<Longrightarrow> templates_ok tfs \<Longrightarrow>
   hoare (\<lambda>w. view w = v) (read_templates F files tfs) (\<lambda>tfs' w. view w = v \<and> templates_ok tfs') (\<lambda>w. view w = v)"
proof (induction files arbitrary: tfs)
  case Nil
  then show ?case by (simp add: hoare_def ret_def)
next
  case (Cons f files)
  obtain n path where f: "f = (n, path)" by fastforce
  have "hoare (\<lambda>w. view w = v \<and> (\<exists>d. tf = template_of d)) (read_templates F files (AList.update n tf tfs))
      (\<lambda>tfs' w. view w = v \<and> templates_ok tfs') (\<lambda>w. view w = v)" for tf
  proof (cases "\<exists>d. tf = template_of d")
    case True
    then have "templates_ok (AList.update n tf tfs)" using Cons.prems templates_ok_update by (auto simp: f)
    then show ?thesis using Cons.prems(1) by (intro hoare_weaken [OF Cons.IH]) (auto simp: f)
  qed (simp add: hoare_def)
  then show ?case unfolding f read_templates.simps by (rule hoare_bind [OF read_template_spec])
qed

text \<open>Deleting the nodes of other files leaves a node alone.\<close>

lemma delete_gone_frame:
  assumes "list_all plain_comp ns" and "plain_comp n" and "map_of tfs n \<noteq> None"
  shows "keeps (\<lambda>w. view w (TemplateFilePath n) = v) (delete_gone C tfs ns)"
  using assms(1)
proof (induction ns)
  case Nil
  then show ?case by (simp add: keeps_ret)
next
  case (Cons m ns)
  have "keeps (\<lambda>w. view w (TemplateFilePath n) = v) (tf_delete C m)" if "m \<noteq> n"
  proof (rule keepsI)
    fix w
    assume w: "view w (TemplateFilePath n) = v"
    obtain r w' where d: "cl_Delete C (TemplateFilePath m) w = (r, w')" by fastforce
    have "TemplateFilePath n \<noteq> TemplateFilePath m"
      using TemplateFilePath_apart(1) [of m n] assms(2) Cons.prems that by auto
    with delete_other [OF TemplateFilePath_node d] Cons.prems w have "view w' (TemplateFilePath n) = v" by simp
    then show "view (snd (tf_delete C m w)) (TemplateFilePath n) = v"
      by (simp add: tf_delete_def mapErr_def d split: sum.split)
  qed
  then show ?case
    using Cons assms(3) by (cases "m = n") (auto intro!: keeps_bind keeps_attempt)
qed

text \<open>One write: it is stored, or the template is dropped.\<close>

lemma update_template:
  assumes "templates_ok tfs" and "plain_comp n" and u: "cl_Update C (TemplateFilePath n) (Bytes (tfData tf)) w = (r, w')"
    and n: "map_of tfs n = Some tf" and st: "tf_stored_but (insert n ns) marshal view tfs w"
  shows "tf_stored_but ns marshal view (case r of Inl _ \<Rightarrow> AList.delete n tfs | Inr _ \<Rightarrow> tfs) w'"
proof (rule tf_stored_butI)
  fix m tf'
  assume m: "map_of (case r of Inl _ \<Rightarrow> AList.delete n tfs | Inr _ \<Rightarrow> tfs) m = Some tf'" "m \<notin> ns"
  show "map_option (text_of marshal) (view w' (TemplateFilePath m)) = Some (tfData tf')"
  proof (cases "m = n")
    case True
    with m n obtain x where "r = Inr x" "tf' = tf" by (cases r) auto
    with update_ok [OF TemplateFilePath_node [OF assms(2)]] u have "view w' (TemplateFilePath n) = Some (Bytes (tfData tf))"
      by blast
    with True \<open>tf' = tf\<close> show ?thesis by (simp add: text_of_def)
  next
    case False
    with m(1) have m': "map_of tfs m = Some tf'" by (cases r) auto
    then have "plain_comp m" using templates_okD [OF assms(1)] by blast
    from update_other [OF TemplateFilePath_node [OF assms(2)] u TemplateFilePath_apart [OF assms(2) this False]]
    have "view w' (TemplateFilePath m) = view w (TemplateFilePath m)" .
    then show ?thesis using tf_stored_butD [OF st m'] m(2) False by simp
  qed
qed

lemma update_changed_spec:
  "templates_ok tfs \<Longrightarrow> templates_ok old \<Longrightarrow> distinct (map fst vs) \<Longrightarrow>
   \<forall>(n, v) \<in> set vs. map_of tfs n = Some v \<Longrightarrow>
   tf_stored_but (fst ` set vs) marshal view tfs w \<Longrightarrow>
   \<forall>n tf. map_of old n = Some tf \<longrightarrow> n \<in> fst ` set vs \<longrightarrow>
      map_option (text_of marshal) (view w (TemplateFilePath n)) = Some (tfData tf) \<Longrightarrow>
   \<exists>tfs' w'. update_changed C old vs tfs w = (Inr tfs', w') \<and> templates_ok tfs' \<and> tf_stored marshal view tfs' w' \<and>
     map_of tfs' \<subseteq>\<^sub>m map_of tfs"
proof (induction vs arbitrary: tfs w)
  case Nil
  then show ?case by (simp add: ret_def tf_stored_def)
next
  case (Cons e vs)
  obtain n v where e: "e = (n, v)" by fastforce
  have n: "map_of tfs n = Some v" "n \<notin> fst ` set vs" using Cons.prems(3,4) by (auto simp: e)
  with templates_okD [OF Cons.prems(1)] have plain: "plain_comp n" and v: "v = template_of (tfData v)" by auto
  show ?case
  proof (cases "case map_of old n of None \<Rightarrow> False | Some vv \<Rightarrow> tfMD5 vv = tfMD5 v")
    case True
    then obtain vv where vv: "map_of old n = Some vv" "tfMD5 vv = tfMD5 v" by (auto split: option.splits)
    moreover have "vv = template_of (tfData vv)" using templates_okD [OF Cons.prems(2) vv(1)] by simp
    ultimately have "tfData vv = tfData v" using v by (metis md5_Sum_inj template_file.select_convs(2) template_of_def)
    moreover have "map_option (text_of marshal) (view w (TemplateFilePath n)) = Some (tfData vv)"
      using Cons.prems(6) vv(1) by (simp add: e)
    ultimately have "map_option (text_of marshal) (view w (TemplateFilePath n)) = Some (tfData v)" by simp
    with Cons.prems(5) n have "tf_stored_but (fst ` set vs) marshal view tfs w"
      by (intro tf_stored_butI) (auto simp: e dest: tf_stored_butD)
    then show ?thesis using Cons.IH [of tfs w] Cons.prems True by (simp add: e)
  next
    case False
    obtain r w1 where u: "cl_Update C (TemplateFilePath n) (Bytes (tfData v)) w = (r, w1)" by fastforce
    let ?tfs = "case r of Inl _ \<Rightarrow> AList.delete n tfs | Inr _ \<Rightarrow> tfs"
    have st: "tf_stored_but (fst ` set vs) marshal view ?tfs w1"
      using update_template [OF Cons.prems(1) plain u n(1)] Cons.prems(5) by (simp add: e)
    have ok: "templates_ok ?tfs" using Cons.prems(1) by (auto intro: templates_ok_delete split: sum.split)
    have le: "map_of ?tfs \<subseteq>\<^sub>m map_of tfs" by (auto simp: map_le_def split: sum.split)
    have vs: "\<forall>(m, v') \<in> set vs. map_of ?tfs m = Some v'"
      using Cons.prems(4) n(2) by (force simp: e split: sum.split)
    have old: "\<forall>m tf. map_of old m = Some tf \<longrightarrow> m \<in> fst ` set vs \<longrightarrow>
        map_option (text_of marshal) (view w1 (TemplateFilePath m)) = Some (tfData tf)"
    proof (intro allI impI)
      fix m tf
      assume m: "map_of old m = Some tf" "m \<in> fst ` set vs"
      with n(2) have "m \<noteq> n" by blast
      moreover have "plain_comp m" using templates_okD [OF Cons.prems(2) m(1)] by simp
      ultimately have "view w1 (TemplateFilePath m) = view w (TemplateFilePath m)"
        using update_other [OF TemplateFilePath_node [OF plain] u TemplateFilePath_apart [OF plain]] by blast
      with Cons.prems(6) m show "map_option (text_of marshal) (view w1 (TemplateFilePath m)) = Some (tfData tf)"
        by (simp add: e)
    qed
    from Cons.IH [OF ok Cons.prems(2) _ vs st old] Cons.prems(3) obtain tfs' w' where
      "update_changed C old vs ?tfs w1 = (Inr tfs', w')" "templates_ok tfs'" "tf_stored marshal view tfs' w'"
      "map_of tfs' \<subseteq>\<^sub>m map_of ?tfs" by (auto simp: e)
    moreover have "update_changed C old (e # vs) tfs w = update_changed C old vs ?tfs w1"
      using False u by (cases r) (simp_all add: e bindE_def attempt_def tf_update_def mapErr_def)
    ultimately show ?thesis using map_le_trans [OF _ le] by auto
  qed
qed

text \<open>
  One round, whatever the coordinator answers: every template in the cache is stored, and every
  one is a template the scan has just read or, when the scan failed, one of before.
\<close>

lemma delete_gone_Inr: "fst (delete_gone C tfs ns w) = Inr ()"
  by (induction ns arbitrary: w) (auto simp: ret_def bindE_def attempt_def split: prod.split)

lemma doMonitor_stored:
  assumes "templates_ok (tpTfs m)" and "tf_stored marshal view (tpTfs m) w"
    and "doMonitor C F (m, w) = (r, (m', w'))"
  shows "templates_ok (tpTfs m') \<and> tf_stored marshal view (tpTfs m') w'"
proof -
  obtain r1 w1 where scan: "getMatchFiles F (tpScanDir m) w = (r1, w1)" by fastforce
  have v1: "view w1 = view w"
    using hoareD [OF getMatchFiles_spec refl] scan by (cases r1) blast+
  have keep: ?thesis if "m' = m" "view w' = view w"
    using assms(1,2) that by (simp add: tf_stored_def tf_stored_but_def)
  show ?thesis
  proof (cases r1)
    case (Inl e)
    with assms(3) scan v1 show ?thesis by (intro keep) (auto simp: doMonitor_def bindE_def gets_def onW_def)
  next
    case (Inr files)
    then have names: "list_all plain_comp (map fst files)"
      using hoareD(1) [OF getMatchFiles_spec refl] scan by blast
    obtain r2 w2 where reading: "read_templates F files [] w1 = (r2, w2)" by fastforce
    have spec: "hoare (\<lambda>u. view u = view w) (read_templates F files [])
        (\<lambda>tfs u. view u = view w \<and> templates_ok tfs) (\<lambda>u. view u = view w)"
      by (rule read_templates_spec [OF names]) (simp add: templates_ok_def)
    from hoareD [OF spec v1] reading have v2: "view w2 = view w" by (cases r2) auto
    show ?thesis
    proof (cases r2)
      case (Inl e)
      with assms(3) scan v2 reading \<open>r1 = Inr files\<close> show ?thesis
        by (intro keep) (auto simp: doMonitor_def bindE_def gets_def onW_def)
    next
      case (Inr tfs)
      with hoareD(1) [OF spec v1] reading have ok: "templates_ok tfs" by auto
      let ?old = "tpTfs m"
      obtain w3 where del: "delete_gone C tfs (map fst ?old) w2 = (Inr (), w3)"
        using delete_gone_Inr by (metis prod.collapse)
      have old_names: "list_all plain_comp (map fst ?old)"
        using assms(1) by (auto simp: templates_ok_def template_ok_def list_all_iff)
      have old: "map_option (text_of marshal) (view w3 (TemplateFilePath n)) = Some (tfData tf)"
        if "map_of ?old n = Some tf" "n \<in> fst ` set tfs" for n tf
      proof -
        have "map_of tfs n \<noteq> None" using that(2) by (simp add: map_of_eq_None_iff)
        from keepsD [OF delete_gone_frame [OF old_names _ this, of "view w (TemplateFilePath n)"], of w2] del v2
        have "view w3 (TemplateFilePath n) = view w (TemplateFilePath n)"
          using templates_okD [OF assms(1) that(1)] by simp
        with assms(2) that(1) show ?thesis by (simp add: tf_stored_def tf_stored_but_def)
      qed
      have "distinct (map fst tfs)" and "\<forall>(n, v) \<in> set tfs. map_of tfs n = Some v"
        using ok by (auto simp: templates_ok_def)
      moreover have "tf_stored_but (fst ` set tfs) marshal view tfs w3"
        by (rule tf_stored_butI) (metis map_of_SomeD fst_conv imageI)
      ultimately obtain tfs' w4 where "update_changed C ?old tfs tfs w3 = (Inr tfs', w4)"
        and "templates_ok tfs'" and "tf_stored marshal view tfs' w4"
        using update_changed_spec [OF ok assms(1), of tfs w3] old by blast
      moreover from this del scan reading Inr \<open>r1 = Inr files\<close> assms(3) have "m' = m\<lparr>tpTfs := tfs'\<rparr>" "w' = w4"
        by (auto simp: doMonitor_def bindE_def gets_def onW_def modifyE_def)
      ultimately show ?thesis by simp
    qed
  qed
qed

lemma monitor_stored:
  "templates_ok (tpTfs m) \<Longrightarrow> tf_stored marshal view (tpTfs m) w \<Longrightarrow> monitor C F ds (m, w) = (m', w') \<Longrightarrow>
   templates_ok (tpTfs m') \<and> tf_stored marshal view (tpTfs m') w'"
proof (induction ds arbitrary: m w rule: induct_list012)
  case (2 d)
  obtain r m1 w1 where round: "doMonitor C F (m, w) = (r, (m1, w1))" by (metis prod.exhaust)
  show ?case using 2 doMonitor_stored [OF 2(1,2) round] round by (auto split: if_splits)
next
  case (3 d d' ds)
  obtain r m1 w1 where round: "doMonitor C F (m, w) = (r, (m1, w1))" by (metis prod.exhaust)
  from doMonitor_stored [OF 3(3,4) round] have one: "templates_ok (tpTfs m1)" "tf_stored marshal view (tpTfs m1) w1"
    by simp_all
  show ?case using 3 round one by (auto split: if_splits)
qed simp

end

end
