(* ===== verification/DiskWorld.thy ===== *)
theory DiskWorld
  imports MemWorld TemplateFiles
begin

section \<open>A file system in memory\<close>

text \<open>
  Files as a list of paths with their contents, next to the coordinator in memory: enough of
  \<open>os\<close> and \<open>filepath\<close> to run the mapper of the template files. A file descriptor is the
  position of its file in the list; a pattern matches the files of its directory.
\<close>

type_synonym disk = "(string \<times> string) list"

definition file_at :: "string \<Rightarrow> disk \<Rightarrow> int" where
  "file_at path d = index_of (\<lambda>e. fst e = path) d"

definition mem_fsys :: "('c \<times> disk) fsys" where
  "mem_fsys =
     \<lparr>fs_Stat = \<lambda>dir w. (if list_ex (\<lambda>e. path_Dir (fst e) = dir) (snd w) then Inr () else Inl (ErrExt ''ENOENT''), w),
      fs_MkdirAll = \<lambda>dir w. (Inr (), w),
      fs_Glob = \<lambda>pat w. (Inr (filter (\<lambda>f. path_Dir f = path_Dir pat) (map fst (snd w))), w),
      fs_Lstat = \<lambda>f w. (if plain_comp (path_Base f) \<and> f \<in> set (map fst (snd w)) then Inr (path_Base f, False)
                       else Inl (ErrExt ''ENOENT''), w),
      fs_Open = \<lambda>f w. (if 0 \<le> file_at f (snd w) then Inr (nat (file_at f (snd w))) else Inl (ErrExt ''ENOENT''), w),
      fs_Create = \<lambda>f w. (let d = AList.update f [] (snd w) in (Inr (nat (file_at f d)), (fst w, d))),
      fs_ReadAll = \<lambda>fd w. (if fd < length (snd w) then Inr (snd (snd w ! fd)) else Inl (ErrExt ''EBADF''), w),
      fs_Write = \<lambda>fd text w.
        (if fd < length (snd w)
         then (Inr (), (fst w, (snd w)[fd := (fst (snd w ! fd), snd (snd w ! fd) @ text)]))
         else (Inl (ErrExt ''EBADF''), w)),
      fs_CloseFile = \<lambda>fd w. w\<rparr>"

lemma mem_read_must: "cl_Read mem_client p True w = (Inr y, w') \<Longrightarrow> y \<noteq> None"
  by (auto simp: mem_client_def onFst_def etcd_Read_def locked_def io_defs split: prod.splits sum.splits if_splits)

interpretation disk_world: template_host mem_client world_view mem_fsys marshal for marshal :: "json \<Rightarrow> string"
  by unfold_locales
    (auto simp: hoare_def mem_fsys_def world_view_def Let_def split: if_splits dest: mem_read_must)

end
