(* ===== verification/Backends.thy ===== *)
theory Backends
  imports GslbService
begin

section \<open>What the balancers are told (topom/gslb.go)\<close>

text \<open>
  The backends that \<open>haproxyBackends\<close> and \<open>lvsBackends\<close> derive, against plain descriptions.
  \<^item> \<open>strayed\<close>: a server other than the first answers and follows another master;
  \<^item> \<open>serving\<close>: the servers that may be read from, in the order of the group;
  \<^item> \<open>expected_backend\<close>: the entry of each state.
\<close>

subsection \<open>haproxy\<close>

definition link_up :: "(string \<times> redis_stats) list \<Rightarrow> string \<Rightarrow> bool" where
  "link_up stats a = (case usable stats a of None \<Rightarrow> False | Some rs \<Rightarrow> MasterLinkStatus rs = MasterLinkStatusUp)"

definition follows_other :: "(string \<times> redis_stats) list \<Rightarrow> group \<Rightarrow> string \<Rightarrow> bool" where
  "follows_other stats v a = (case usable stats a of None \<Rightarrow> False | Some rs \<Rightarrow> MasterAddr rs \<noteq> GetMaster v)"

definition strayed :: "(string \<times> redis_stats) list \<Rightarrow> group \<Rightarrow> bool" where
  "strayed stats v = list_ex (follows_other stats v) (tl (addrs v))"

definition serving :: "(string \<times> redis_stats) list \<Rightarrow> group \<Rightarrow> string list" where
  "serving stats v =
     (if usable stats (GetMaster v) \<noteq> None then [GetMaster v] else []) @
     filter (link_up stats) (tl (addrs v))"

definition expected_backend :: "(string \<times> redis_stats) list \<Rightarrow> group \<Rightarrow> string \<Rightarrow> gslb_backend option" where
  "expected_backend stats v state =
     (if state = ''Read'' \<and> serving stats v \<noteq> []
      then Some \<lparr>bkServers = serving stats v, bkPort = gProxyReadPort v\<rparr>
      else if state = ''Write'' \<and> usable stats (GetMaster v) \<noteq> None
      then Some \<lparr>bkServers = [GetMaster v], bkPort = gProxyWritePort v\<rparr>
      else None)"

lemma backend_loop_rest:
  "backend_loop stats v False ss sg =
     (if list_ex (follows_other stats v) (map sAddr ss) then None
      else Some (fold (add_backend ServeStateRead (gProxyReadPort v)) (filter (link_up stats) (map sAddr ss)) sg))"
  by (induction ss arbitrary: sg) (auto simp: follows_other_def link_up_def split: option.splits)

lemma map_of_fold_add:
  "map_of (fold (add_backend st p) as sg) =
     (if as = [] then map_of sg
      else (map_of sg)(ServeState_String st \<mapsto>
             (case map_of sg (ServeState_String st) of
                Some b \<Rightarrow> b\<lparr>bkServers := bkServers b @ as\<rparr> | None \<Rightarrow> \<lparr>bkServers = as, bkPort = p\<rparr>)))"
  by (induction as arbitrary: sg) (auto simp: add_backend_def Let_def fun_eq_iff split: option.splits)

lemma state_strings: "ServeState_String ServeStateRead = ''Read''" "ServeState_String ServerStateWrite = ''Write''"
  by (simp_all add: ServeState_String_def ServeStateUnavailable_def ServeStateRead_def ServerStateWrite_def)

lemma backend_loop_all:
  "backend_loop stats v True (s # ss) [] =
     (if list_ex (follows_other stats v) (map sAddr ss) then None
      else Some (fold (add_backend ServeStateRead (gProxyReadPort v)) (filter (link_up stats) (map sAddr ss))
             (if usable stats (sAddr s) = None then []
              else [(''Read'', \<lparr>bkServers = [sAddr s], bkPort = gProxyReadPort v\<rparr>),
                    (''Write'', \<lparr>bkServers = [sAddr s], bkPort = gProxyWritePort v\<rparr>)])))"
  by (auto simp: backend_loop_rest Let_def add_backend_def state_strings split: option.splits)

lemma group_backend_expected:
  "case group_backend stats v of
     None \<Rightarrow> gServers v = [] \<or> strayed stats v
   | Some b \<Rightarrow> gServers v \<noteq> [] \<and> \<not> strayed stats v \<and> bgName b = gName v \<and>
       (\<forall>state. map_of (bgServerGroup b) state = expected_backend stats v state)"
proof (cases "gServers v")
  case Nil
  then show ?thesis by (simp add: group_backend_def)
next
  case (Cons s ss)
  then have "GetMaster v = sAddr s" "tl (addrs v) = map sAddr ss" by (simp_all add: GetMaster_def addrs_def)
  then show ?thesis
    using Cons
    by (auto simp: group_backend_def backend_loop_all strayed_def expected_backend_def serving_def
        map_of_fold_add state_strings simp del: backend_loop.simps)
qed

text \<open>The list as a whole: one entry for each group that has any, newest group first.\<close>

lemma map_filter_conv: "List.map_filter f xs = map (the \<circ> f) (filter (\<lambda>x. f x \<noteq> None) xs)"
  by (simp add: List.map_filter_def)

lemma haproxy_names:
  assumes "haproxyBackends s = (Inr (bs, ms), t)"
  shows "map bgName bs =
      map gName (filter (\<lambda>g. gServers g \<noteq> [] \<and> \<not> strayed (s_servers s) g) (sortGroups (gmGroups (s_groups s))))"
    and "t = s" and "ms = []" and "s_servers s \<noteq> []"
proof -
  let ?gs = "sortGroups (gmGroups (s_groups s))" and ?b = "group_backend (s_servers s)"
  from assms have bs: "bs = List.map_filter ?b ?gs" and rest: "t = s" "ms = []" "s_servers s \<noteq> []"
    by (auto simp: haproxyBackends_def bindE_gets bindE_def guardE_def gets_def ret_def split: if_splits)
  show "t = s" "ms = []" "s_servers s \<noteq> []" by (fact rest)+
  have some: "?b g \<noteq> None \<longleftrightarrow> gServers g \<noteq> [] \<and> \<not> strayed (s_servers s) g"
    and name: "?b g = Some b \<Longrightarrow> bgName b = gName g" for g b
    using group_backend_expected [where stats = "s_servers s" and v = g] by (auto split: option.splits)
  show "map bgName bs = map gName (filter (\<lambda>g. gServers g \<noteq> [] \<and> \<not> strayed (s_servers s) g) ?gs)"
    unfolding bs map_filter_conv some [symmetric] using name by (auto simp: map_eq_conv)
qed

subsection \<open>lvs\<close>

lemma map_of_lvs_group:
  "distinct (map fst sg) \<Longrightarrow> \<forall>k \<in> fst ` set sg. map_of acc k = None \<Longrightarrow>
   map_of (lvs_group servers sg acc) state =
     (case map_of sg state of
        None \<Rightarrow> map_of acc state
      | Some v \<Rightarrow> Some \<lparr>bkServers = lvs_servers (Itoa (bkPort v)) servers, bkPort = bkPort v\<rparr>)"
proof (induction sg arbitrary: acc)
  case (Cons e vs)
  obtain st v where e: "e = (st, v)" by fastforce
  let ?b = "\<lparr>bkServers = lvs_servers (Itoa (bkPort v)) servers, bkPort = bkPort v\<rparr>"
  from Cons.prems e have new: "map_of acc st = None" and fresh: "st \<notin> fst ` set vs" by simp_all
  then have "map_of vs st = None" by (simp add: map_of_eq_None_iff)
  moreover have "lvs_group servers (e # vs) acc = lvs_group servers vs (AList.update st ?b acc)"
    using new by (simp add: e)
  moreover from fresh Cons.prems have "\<forall>k \<in> fst ` set vs. map_of (AList.update st ?b acc) k = None" by auto
  ultimately show ?case using Cons by (simp add: e split: option.split)
qed simp

lemma lvs_servers_joined:
  assumes "\<And>h p. (h, p) \<in> set hps \<Longrightarrow> CHR ''['' \<notin> set h \<and> CHR '']'' \<notin> set h \<and>
      CHR '':'' \<notin> set p \<and> CHR ''['' \<notin> set p \<and> CHR '']'' \<notin> set p"
  shows "lvs_servers q (map (\<lambda>(h, p). JoinHostPort h p) hps) = map (\<lambda>(h, _). JoinHostPort h q) hps"
  using assms
proof (induction hps)
  case (Cons hp hps)
  obtain h p where hp: "hp = (h, p)" by fastforce
  with Cons.prems [of h p] have "SplitHostPort (JoinHostPort h p) = Inr (h, p)"
    by (intro Split_JoinHostPort) simp_all
  with Cons hp show ?case by auto
qed simp

lemma lvs_backends_follow:
  assumes "map_of (bmGslbs (s_gslb s)) ''haproxy'' = Some g" and "lvsBackends ''haproxy'' s = (Inr (bs, ms), t)"
    and "list_all (\<lambda>b. distinct (map fst (bgServerGroup b))) (glBackends g)"
  shows "ms = glServers g" and "t = s"
    and "list_all2 (\<lambda>b b'. bgName b' = bgName b \<and>
           (\<forall>state. map_of (bgServerGroup b') state =
              map_option (\<lambda>v. \<lparr>bkServers = lvs_servers (Itoa (bkPort v)) (glServers g), bkPort = bkPort v\<rparr>)
                (map_of (bgServerGroup b) state))) (glBackends g) bs"
proof -
  from assms(1,2) have bs: "bs = map (\<lambda>b. \<lparr>bgName = bgName b, bgServers = [],
      bgServerGroup = lvs_group (glServers g) (bgServerGroup b) []\<rparr>) (glBackends g)"
    and "ms = glServers g" "t = s"
    by (auto simp: lvsBackends_def bindE_gets ret_def)
  then show "ms = glServers g" "t = s" by simp_all
  show "list_all2 (\<lambda>b b'. bgName b' = bgName b \<and>
           (\<forall>state. map_of (bgServerGroup b') state =
              map_option (\<lambda>v. \<lparr>bkServers = lvs_servers (Itoa (bkPort v)) (glServers g), bkPort = bkPort v\<rparr>)
                (map_of (bgServerGroup b) state))) (glBackends g) bs"
    unfolding bs list_all2_map2
    by (rule list_all2_refl [THEN list.rel_mono_strong] , use assms(3) in
        \<open>auto simp: map_of_lvs_group list_all_iff split: option.split\<close>)
qed

end
