(* ===== verification/PoolFacts.thy ===== *)
theory PoolFacts
  imports RedisClient
begin

section \<open>The pool of connections and the info cache keep their promises\<close>

text \<open>
  \<open>pool_inv\<close>: every address has one list, a client is in the list of its own address, no
  connection is pooled twice, a closed pool is empty. Taking a client out and putting one back
  keep it; the client that is handed out is not in the pool any more.
\<close>

definition pooled :: "pool \<Rightarrow> rclient list" where
  "pooled p = concat (map snd (plPool p))"

definition entry_ok :: "string \<times> rclient list \<Rightarrow> bool" where
  "entry_ok e \<longleftrightarrow> list_all (\<lambda>c. rcAddr c = fst e) (snd e)"

definition pool_inv :: "pool \<Rightarrow> bool" where
  "pool_inv p \<longleftrightarrow>
     distinct (map fst (plPool p)) \<and> list_all entry_ok (plPool p) \<and>
     distinct (map rcConn (pooled p)) \<and> (plClosed p \<longrightarrow> plPool p = [])"

lemma NewPool_inv: "pool_inv (NewPool auth timeout)"
  by (simp add: NewPool_def pool_inv_def pooled_def)

lemma distinct_conns_le: "distinct (map rcConn (pooled p)) \<Longrightarrow> mset (pooled q) \<subseteq># mset (pooled p) \<Longrightarrow>
    distinct (map rcConn (pooled q))"
  by (rule distinct_subseteq [of "map rcConn (pooled p)"]) (simp_all add: image_mset_subseteq_mono)

subsection \<open>Taking a client\<close>

lemma take_recyclable_spec:
  "take_recyclable R cs w = (r, cs', w') \<Longrightarrow>
     \<exists>ds. w' = close_clients R ds w \<and> \<not> (r = None \<and> cs' \<noteq> []) \<and>
       cs = ds @ (case r of None \<Rightarrow> [] | Some c \<Rightarrow> c # cs') \<and> (\<forall>c. r = Some c \<longrightarrow> isRecyclable R c w')"
proof (induction R cs w rule: take_recyclable.induct)
  case (1 R w)
  then show ?case by (auto intro!: exI [of _ "[]"])
next
  case (2 R c cs w)
  show ?case
  proof (cases "isRecyclable R c w")
    case True
    with 2 show ?thesis by (auto intro!: exI [of _ "[]"])
  next
    case False
    with 2 obtain ds where "w' = close_clients R ds (close_client R c w)" "\<not> (r = None \<and> cs' \<noteq> [])"
      "cs = ds @ (case r of None \<Rightarrow> [] | Some c \<Rightarrow> c # cs')" "\<forall>c. r = Some c \<longrightarrow> isRecyclable R c w'"
      by auto
    then show ?thesis by (intro exI [of _ "c # ds"]) simp
  qed
qed

lemma pooled_update:
  assumes "map_of (plPool p) a = Some cs"
  shows "mset (pooled (p\<lparr>plPool := AList.update a cs' (plPool p)\<rparr>)) + mset cs = mset (pooled p) + mset cs'"
  using mset_concat_update [OF assms, of "\<lambda>x. x" cs'] by (simp add: pooled_def comp_def)

lemma exchange_le:
  fixes a b c d x :: "'a multiset"
  assumes "a + b = c + d" and "d + x \<subseteq># b"
  shows "a + x \<subseteq># c"
proof -
  have "(a + x) + d = a + (d + x)" by (simp add: union_ac)
  also have "\<dots> \<subseteq># a + b" using assms(2) by simp
  also have "\<dots> = c + d" by (rule assms(1))
  finally show ?thesis by simp
qed

lemma fromCache_spec:
  assumes "pool_inv p" and "getClientFromCache R addr (p, w) = (Inr r, (p', w'))"
  shows "pool_inv p' \<and> \<not> plClosed p \<and> plClosed p' = plClosed p \<and> plAuth p' = plAuth p \<and> plTimeout p' = plTimeout p \<and>
    mset (pooled p') + (case r of None \<Rightarrow> {#} | Some c \<Rightarrow> {#c#}) \<subseteq># mset (pooled p) \<and>
    (\<forall>c. r = Some c \<longrightarrow> rcAddr c = addr \<and> isRecyclable R c w')"
proof (cases "map_of (plPool p) addr")
  case None
  with assms show ?thesis by (auto simp: getClientFromCache_def split: if_splits)
next
  case (Some cs)
  obtain cs' where take: "take_recyclable R cs w = (r, cs', w')"
    and p': "p' = p\<lparr>plPool := AList.update addr cs' (plPool p)\<rparr>" and op: "\<not> plClosed p"
    using assms(2) Some by (auto simp: getClientFromCache_def split: if_splits prod.splits)
  from take_recyclable_spec [OF take] obtain ds where
    cs: "cs = ds @ (case r of None \<Rightarrow> [] | Some c \<Rightarrow> c # cs')" and rest: "\<not> (r = None \<and> cs' \<noteq> [])"
    and rec: "\<forall>c. r = Some c \<longrightarrow> isRecyclable R c w'" by blast
  have le: "mset cs' + (case r of None \<Rightarrow> {#} | Some c \<Rightarrow> {#c#}) \<subseteq># mset cs"
    using cs rest by (cases r) auto
  have sub: "mset (pooled p') + (case r of None \<Rightarrow> {#} | Some c \<Rightarrow> {#c#}) \<subseteq># mset (pooled p)"
    unfolding p' by (rule exchange_le [OF pooled_update [OF Some] le])
  from Some have "entry_ok (addr, cs)" using assms(1) by (auto simp: pool_inv_def list_all_iff dest: map_of_SomeD)
  then have addr: "\<forall>c \<in> set cs. rcAddr c = addr" by (simp add: entry_ok_def list_all_iff)
  have "set cs' \<subseteq> set cs" using cs rest by (cases r) auto
  with addr have "entry_ok (addr, cs')" by (auto simp: entry_ok_def list_all_iff)
  moreover have "mset (pooled p') \<subseteq># mset (pooled p)" by (rule subset_mset.order_trans [OF _ sub]) simp
  from distinct_conns_le [OF _ this] have "distinct (map rcConn (pooled p'))"
    using assms(1) by (simp add: pool_inv_def)
  ultimately have "pool_inv p'" using assms(1) op by (simp add: p' pool_inv_def list_all_update)
  moreover have "rcAddr c = addr" if "r = Some c" for c using addr cs that by simp
  ultimately show ?thesis using sub rec op by (simp add: p')
qed

text \<open>
  A client that \<open>GetClient\<close> returns was pooled and is recyclable, or it has just been dialled.
\<close>

lemma GetClient_spec:
  assumes "pool_inv p" and "GetClient R addr (p, w) = (Inr c, (p', w'))"
  shows "pool_inv p' \<and> plClosed p' = plClosed p \<and> rcAddr c = addr \<and>
    ((add_mset c (mset (pooled p')) \<subseteq># mset (pooled p) \<and> isRecyclable R c w') \<or>
     (mset (pooled p') \<subseteq># mset (pooled p) \<and> (\<exists>w1. NewClient R addr (plAuth p) (plTimeout p) w1 = (Inr c, w'))))"
proof -
  from assms(2) obtain r p1 w1 where cache: "getClientFromCache R addr (p, w) = (Inr r, (p1, w1))"
    and rest: "(case r of Some c' \<Rightarrow> ret c' | None \<Rightarrow>
         bindE (gets fst) (\<lambda>p. onW (NewClient R addr (plAuth p) (plTimeout p)))) (p1, w1) = (Inr c, (p', w'))"
    unfolding GetClient_def by (elim bindE_InrD) auto
  note spec = fromCache_spec [OF assms(1) cache]
  show ?thesis
  proof (cases r)
    case None
    with rest have "p' = p1" and new: "NewClient R addr (plAuth p1) (plTimeout p1) w1 = (Inr c, w')"
      by (auto simp: bindE_gets onW_def split: prod.splits)
    moreover from new have "rcAddr c = addr"
      by (auto simp: NewClient_def gets_def ret_def elim!: bindE_InrD)
    ultimately show ?thesis using spec None by auto
  next
    case (Some c')
    with rest spec show ?thesis by (auto simp: ret_def)
  qed
qed

subsection \<open>Putting a client back\<close>

lemma concat_update_empty:
  "map_of m a = None \<Longrightarrow> concat (map snd (AList.update a xs m)) = concat (map snd m) @ xs"
  using concat_update_new [of m a "\<lambda>x. x" xs] by (simp add: comp_def)

lemma PutClient_spec:
  assumes "pool_inv p" and "rcConn c \<notin> rcConn ` set (pooled p)"
  shows "pool_inv (fst (PutClient R c (p, w))) \<and>
    (if isRecyclable R c w \<and> \<not> plClosed p
     then mset (pooled (fst (PutClient R c (p, w)))) = add_mset c (mset (pooled p)) \<and> snd (PutClient R c (p, w)) = w
     else fst (PutClient R c (p, w)) = p \<and> snd (PutClient R c (p, w)) = close_client R c w)"
proof (cases "isRecyclable R c w \<and> \<not> plClosed p")
  case False
  then show ?thesis using assms(1) by (auto simp: PutClient_def)
next
  case True
  let ?cs = "case map_of (plPool p) (rcAddr c) of None \<Rightarrow> [] | Some cs \<Rightarrow> cs"
  let ?p = "p\<lparr>plPool := AList.update (rcAddr c) (c # ?cs) (plPool p)\<rparr>"
  from True have put: "PutClient R c (p, w) = (?p, w)" by (simp add: PutClient_def)
  have all: "mset (pooled ?p) = add_mset c (mset (pooled p))"
  proof (cases "map_of (plPool p) (rcAddr c)")
    case None
    then show ?thesis by (simp add: pooled_def concat_update_empty)
  next
    case (Some cs)
    with pooled_update [OF Some, of "c # cs"] show ?thesis by simp
  qed
  then have "mset (map rcConn (pooled ?p)) = mset (rcConn c # map rcConn (pooled p))" by simp
  moreover have "distinct (rcConn c # map rcConn (pooled p))" using assms by (auto simp: pool_inv_def)
  ultimately have "distinct (map rcConn (pooled ?p))" by (metis mset_eq_imp_distinct_iff)
  moreover have "entry_ok (rcAddr c, c # ?cs)"
    using assms(1) by (auto simp: entry_ok_def pool_inv_def list_all_iff split: option.splits dest!: map_of_SomeD)
  ultimately have "pool_inv ?p" using assms(1) True by (simp add: pool_inv_def list_all_update)
  then show ?thesis using True all by (simp add: put)
qed

subsection \<open>Sweeping and closing\<close>

lemma sweep_subseq: "mset (fst (sweep R cs w)) \<subseteq># mset cs"
proof (induction R cs w rule: sweep.induct)
  case (2 R c cs w)
  then show ?case by (auto split: prod.split intro: subset_mset.add_increasing [of "{#c#}", simplified])
qed simp

lemma sweep_pool_spec:
  "sweep_pool R m w = (m', w') \<Longrightarrow>
     (distinct (map fst m) \<longrightarrow> distinct (map fst m')) \<and> fst ` set m' \<subseteq> fst ` set m \<and>
     (list_all entry_ok m \<longrightarrow> list_all entry_ok m') \<and>
     mset (concat (map snd m')) \<subseteq># mset (concat (map snd m)) \<and> (\<forall>e \<in> set m'. snd e \<noteq> [])"
proof (induction R m w arbitrary: m' w' rule: sweep_pool.induct)
  case (1 R w)
  then show ?case by simp
next
  case (2 R addr cs m w)
  obtain cs' w1 where cs: "sweep R cs w = (cs', w1)" by fastforce
  obtain m1 w2 where m: "sweep_pool R m w1 = (m1, w2)" by fastforce
  from 2(2) cs m have m': "m' = (if cs' = [] then m1 else (addr, cs') # m1)" by simp
  have le: "mset cs' \<subseteq># mset cs" using sweep_subseq [of R cs w] cs by simp
  then have "set cs' \<subseteq> set cs" by (metis set_mset_mono set_mset_mset)
  then have "entry_ok (addr, cs) \<longrightarrow> entry_ok (addr, cs')" by (auto simp: entry_ok_def list_all_iff)
  with 2(1) [OF cs [symmetric] m] le show ?case
    by (auto simp: m' intro: subset_mset.add_mono subset_mset.add_increasing)
qed

lemma Cleanup_spec:
  assumes "pool_inv p" and "Pool_Cleanup R (p, w) = (r, (p', w'))"
  shows "pool_inv p' \<and> mset (pooled p') \<subseteq># mset (pooled p) \<and> r = (if plClosed p then Inl ErrClosedPool else Inr ())"
proof (cases "plClosed p")
  case True
  with assms show ?thesis by (auto simp: Pool_Cleanup_def)
next
  case False
  obtain m w1 where m: "sweep_pool R (plPool p) w = (m, w1)" by fastforce
  with assms(2) False have p': "p' = p\<lparr>plPool := m\<rparr>" "r = Inr ()" by (auto simp: Pool_Cleanup_def)
  from sweep_pool_spec [OF m] assms(1) have "mset (pooled p') \<subseteq># mset (pooled p)"
    by (simp add: p' pooled_def)
  moreover from distinct_conns_le [OF _ this] assms(1) have "distinct (map rcConn (pooled p'))"
    by (simp add: pool_inv_def)
  ultimately show ?thesis using sweep_pool_spec [OF m] assms(1) False by (simp add: p' pool_inv_def)
qed

lemma closed_pool_refuses:
  assumes "Pool_Close R (p, w) = (r, (p', w'))"
  shows "plClosed p' \<and> GetClient R addr (p', u) = (Inl ErrClosedPool, (p', u)) \<and>
    PutClient R c (p', u) = (p', close_client R c u) \<and> Pool_Close R (p', u) = (Inr (), (p', u))"
  using assms by (auto simp: Pool_Close_def GetClient_def getClientFromCache_def PutClient_def bindE_def split: if_splits)

lemma Close_inv: "pool_inv p \<Longrightarrow> pool_inv (fst (snd (Pool_Close R (p, w))))"
  by (simp add: Pool_Close_def pool_inv_def pooled_def)

subsection \<open>The info cache\<close>

text \<open>
  An address is asked once: whatever the first call answered, or the empty information when it
  failed, is what every later call returns, without touching the world.
\<close>

lemma InfoCache_Get_again:
  assumes "InfoCache_Get R a (c, w) = (info, (c', w'))"
  shows "InfoCache_Get R a (c', u) = (info, (c', u))"
    and "b \<noteq> a \<Longrightarrow> InfoCache_load b c' = InfoCache_load b c"
  using assms
  by (auto simp: InfoCache_Get_def InfoCache_load_def InfoCache_store_def Let_def
      split: option.splits prod.splits sum.splits)

end
