(* ===== verification/SentinelVotes.thy ===== *)
theory SentinelVotes
  imports RedisSentinel
begin

section \<open>What the sentinels' answers add up to\<close>

text \<open>
  The collecting loops of \<open>RedisSentinel\<close> against plain descriptions of what they compute.
  \<^item> \<open>results n evs\<close> are the results received before the context ended, at most \<open>n\<close> of
    them; \<open>ending n evs\<close> is the reason for which the wait ended early, if it did.
  \<^item> \<open>elected xs g\<close> is the reference for the election: of all the answers about the group
    \<open>g\<close>, the first one whose epoch no other exceeds.
\<close>

subsection \<open>Waiting for the goroutines\<close>

fun results :: "nat \<Rightarrow> 'a event list \<Rightarrow> 'a list" where
  "results 0 evs = []"
| "results (Suc n) [] = []"
| "results (Suc n) (Done c # evs) = []"
| "results (Suc n) (Result r # evs) = r # results n evs"

fun ending :: "nat \<Rightarrow> 'a event list \<Rightarrow> ctx_err option" where
  "ending 0 evs = None"
| "ending (Suc n) [] = Some DeadlineExceeded"
| "ending (Suc n) (Done c # evs) = Some c"
| "ending (Suc n) (Result r # evs) = ending n evs"

lemma length_results: "length (results n evs) \<le> n"
  by (induction n evs rule: results.induct) auto

lemma ending_None: "ending n evs = None \<longleftrightarrow> length (results n evs) = n"
  by (induction n evs rule: results.induct) auto

lemma results_of_list:
  "results n (map (\<lambda>i. Result (f i)) is @ [Done c]) = map f (take n is)"
proof (induction "is" arbitrary: n)
  case Nil
  then show ?case by (cases n) simp_all
next
  case (Cons i "is")
  then show ?case by (cases n) simp_all
qed

lemma results_events_of:
  "results n (events_of rs a) = map ((!) rs) (take n (filter (\<lambda>i. i < length rs) (fst a)))"
  unfolding events_of_def by (rule results_of_list)

definition error_of :: "error + 'a \<Rightarrow> error option" where
  "error_of r = (case r of Inl e \<Rightarrow> Some e | Inr _ \<Rightarrow> None)"

definition last_error :: "error option \<Rightarrow> (error + 'a) list \<Rightarrow> error option" where
  "last_error lst rs = fold (\<lambda>r l. case r of Inl e \<Rightarrow> Some e | Inr _ \<Rightarrow> l) rs lst"

lemma last_error_None: "last_error lst rs = None \<longleftrightarrow> lst = None \<and> (\<forall>r \<in> set rs. \<exists>x. r = Inr x)"
  by (induction rs arbitrary: lst) (auto simp: last_error_def split: sum.splits)

lemma collect_errors_eq:
  "collect_errors n lst evs =
     (case last_error lst (results n evs) of
        Some e \<Rightarrow> Inl e
      | None \<Rightarrow> (case ending n evs of None \<Rightarrow> Inr () | Some c \<Rightarrow> Inl (ctx_error c)))"
  by (induction n lst evs rule: collect_errors.induct)
    (auto simp: last_error_def ctx_error_def split: option.splits)

lemma collect_errors_ok:
  "collect_errors n None evs = Inr () \<longleftrightarrow>
     length (results n evs) = n \<and> (\<forall>r \<in> set (results n evs). r = Inr ())"
proof -
  have "collect_errors n None evs = Inr () \<longleftrightarrow>
      last_error None (results n evs) = None \<and> ending n evs = None"
    by (auto simp: collect_errors_eq split: option.splits)
  then show ?thesis by (auto simp: last_error_None ending_None)
qed

subsection \<open>The election\<close>

definition candidates :: "(string \<times> sentinel_master) list \<Rightarrow> string \<Rightarrow> sentinel_master list" where
  "candidates xs g = map snd (filter (\<lambda>e. fst e = g) xs)"

definition elected :: "(string \<times> sentinel_master) list \<Rightarrow> string \<Rightarrow> sentinel_master option" where
  "elected xs g = find (\<lambda>m. list_all (\<lambda>c. mEpoch c \<le> mEpoch m) (candidates xs g)) (candidates xs g)"

lemma candidates_snoc:
  "candidates (xs @ [(k, m)]) g = candidates xs g @ (if k = g then [m] else [])"
  by (simp add: candidates_def)

lemma find_append: "find p (xs @ ys) = (case find p xs of None \<Rightarrow> find p ys | Some x \<Rightarrow> Some x)"
  by (induction xs) auto

text \<open>The first of the greatest of a list, one element at a time.\<close>

definition first_max :: "('a \<Rightarrow> int) \<Rightarrow> 'a list \<Rightarrow> 'a option" where
  "first_max f cs = find (\<lambda>m. list_all (\<lambda>c. f c \<le> f m) cs) cs"

lemma first_max_None: "first_max f cs = None \<longleftrightarrow> cs = []"
proof
  assume none: "first_max f cs = None"
  show "cs = []"
  proof (rule ccontr)
    assume "cs \<noteq> []"
    then have "Max (f ` set cs) \<in> f ` set cs" by (intro Max_in) auto
    then obtain m where m: "m \<in> set cs" "f m = Max (f ` set cs)" by auto
    then have "list_all (\<lambda>c. f c \<le> f m) cs" by (simp add: list_all_iff)
    with none m(1) show False by (auto simp: first_max_def find_None_iff)
  qed
qed (simp add: first_max_def)

lemma first_max_SomeD: "first_max f cs = Some c \<Longrightarrow> c \<in> set cs \<and> (\<forall>x \<in> set cs. f x \<le> f c)"
  by (auto simp: first_max_def find_Some_iff list_all_iff)

lemma find_cong_on: "(\<And>x. x \<in> set xs \<Longrightarrow> p x = q x) \<Longrightarrow> find p xs = find q xs"
  by (induction xs) auto

lemma first_max_snoc:
  "first_max f (cs @ [m]) =
     (case first_max f cs of None \<Rightarrow> Some m | Some c \<Rightarrow> if f c < f m then Some m else Some c)"
proof (cases "first_max f cs")
  case None
  then have "cs = []" by (simp add: first_max_None)
  then show ?thesis by (simp add: first_max_def)
next
  case (Some c)
  note c = first_max_SomeD [OF Some]
  show ?thesis
  proof (cases "f c < f m")
    case True
    with c have "\<not> list_all (\<lambda>y. f y \<le> f x) (cs @ [m])" if "x \<in> set cs" for x
      using that by force
    then have "find (\<lambda>x. list_all (\<lambda>y. f y \<le> f x) (cs @ [m])) cs = None" by (auto simp: find_None_iff)
    moreover have "list_all (\<lambda>y. f y \<le> f m) (cs @ [m])" using c True by (fastforce simp: list_all_iff)
    ultimately show ?thesis using Some True by (simp add: first_max_def find_append)
  next
    case False
    with c have "list_all (\<lambda>y. f y \<le> f x) (cs @ [m]) = list_all (\<lambda>y. f y \<le> f x) cs" if "x \<in> set cs" for x
      using that by (fastforce simp: list_all_iff)
    then have "find (\<lambda>x. list_all (\<lambda>y. f y \<le> f x) (cs @ [m])) cs = first_max f cs"
      unfolding first_max_def by (rule find_cong_on)
    then show ?thesis using Some False by (simp add: first_max_def find_append)
  qed
qed

lemma elected_first_max: "elected xs g = first_max mEpoch (candidates xs g)"
  by (simp add: elected_def first_max_def)

lemma elected_snoc:
  "elected (xs @ [(k, m)]) g =
     (if k = g then (case elected xs g of None \<Rightarrow> Some m | Some c \<Rightarrow> if mEpoch c < mEpoch m then Some m else Some c)
      else elected xs g)"
  by (simp add: elected_first_max candidates_snoc first_max_snoc)

lemma elected_SomeD:
  "elected xs g = Some m \<Longrightarrow> (g, m) \<in> set xs \<and> (\<forall>c. (g, c) \<in> set xs \<longrightarrow> mEpoch c \<le> mEpoch m)"
  by (auto simp: elected_first_max candidates_def dest!: first_max_SomeD)

lemma vote_append: "vote (xs @ ys) s = vote ys (vote xs s)"
  by (induction xs s rule: vote.induct) auto

lemma fold_vote: "fold vote ms s = vote (concat ms) s"
  by (induction ms arbitrary: s) (auto simp: vote_append)

lemma vote_elected:
  "map_of (fst (vote xs ([], []))) g = elected xs g \<and>
   map_of (snd (vote xs ([], []))) g = map_option mAddr (elected xs g)"
proof (induction xs arbitrary: g rule: rev_induct)
  case Nil
  then show ?case by (simp add: elected_def candidates_def)
next
  case (snoc x xs)
  obtain k m where x: "x = (k, m)" by fastforce
  obtain cur ms where v: "vote xs ([], []) = (cur, ms)" by fastforce
  from snoc [of g] snoc [of k] show ?case
    by (auto simp: x vote_append v elected_snoc split: option.splits)
qed

lemma masters_loop_eq:
  "masters_loop n alive voted s ctx evs =
     (let answers = List.map_filter id (results alive evs);
          reason = (case ending alive evs of None \<Rightarrow> ctx | Some c \<Rightarrow> Some c)
      in if reason = Some Canceled then Inl ErrCtxCanceled
         else if voted + length answers < majority n
              then Inl (ErrSentinel (LostMajority (voted + length answers) n))
         else Inr (snd (fold vote answers s)))"
  by (induction n alive voted s ctx evs rule: masters_loop.induct)
    (auto simp: Let_def List.map_filter_simps)

lemma masters_loop_elects:
  assumes "masters_loop n n 0 ([], []) ctx evs = Inr masters"
  shows "n < 2 * length (List.map_filter id (results n evs)) \<and>
    map_of masters g = map_option mAddr (elected (concat (List.map_filter id (results n evs))) g)"
proof -
  let ?as = "List.map_filter id (results n evs)"
  from assms have "\<not> length ?as < majority n" and "masters = snd (vote (concat ?as) ([], []))"
    by (auto simp: masters_loop_eq Let_def fold_vote split: if_splits)
  then show ?thesis using vote_elected [of "concat ?as" g] by (simp add: majority_def)
qed

subsection \<open>One sentinel each\<close>

lemma length_run_all: "length (fst (run_all f xs w)) = length xs"
  by (induction f xs w rule: run_all.induct) (auto split: prod.split)

text \<open>The answers that counted, by the sentinels they came from.\<close>

definition voters :: "(error + (string \<times> sentinel_master) list option) list \<Rightarrow> nat list \<Rightarrow> nat list" where
  "voters rs order = filter (\<lambda>i. answer (rs ! i) \<noteq> None) (take (length rs) (filter (\<lambda>i. i < length rs) order))"

definition ballots :: "(error + (string \<times> sentinel_master) list option) list \<Rightarrow> nat list
    \<Rightarrow> (string \<times> sentinel_master) list" where
  "ballots rs order = concat (map (\<lambda>i. the (answer (rs ! i))) (voters rs order))"

lemma map_filter_id_map: "List.map_filter id (map f xs) = map (\<lambda>i. the (f i)) (filter (\<lambda>i. f i \<noteq> None) xs)"
  by (induction xs) (auto simp: List.map_filter_simps)

lemma map_filter_voters:
  "List.map_filter id (map ((!) (map answer rs)) (take (length rs) (filter (\<lambda>i. i < length rs) order))) =
     map (\<lambda>i. the (answer (rs ! i))) (voters rs order)"
proof -
  let ?is = "take (length rs) (filter (\<lambda>i. i < length rs) order)"
  have "i < length rs" if "i \<in> set ?is" for i using in_set_takeD [OF that] by simp
  then have "map ((!) (map answer rs)) ?is = map (\<lambda>i. answer (rs ! i)) ?is"
    by (intro map_cong [OF refl] nth_map)
  then show ?thesis by (simp only: voters_def map_filter_id_map)
qed

lemma Masters_elects:
  assumes "run_all (mastersDispatch S R product (timeout + 5 * time_Second)) sentinels w = (rs, w1)"
    and "sc_Arrive S (length sentinels) w1 = ((order, e), w2)"
    and "Masters S R product sentinels timeout w = (Inr masters, w3)"
  shows "length sentinels < 2 * length (voters rs order)"
    and "map_of masters g = map_option mAddr (elected (ballots rs order) g)"
proof -
  have len: "length rs = length sentinels"
    using length_run_all [of "mastersDispatch S R product (timeout + 5 * time_Second)" sentinels w] assms(1) by simp
  obtain ctx w4 where "sc_Ctx S w2 = (ctx, w4)" by fastforce
  with assms have "masters_loop (length sentinels) (length sentinels) 0 ([], []) ctx
      (events_of (map answer rs) (order, e)) = Inr masters"
    by (simp add: Masters_def)
  from masters_loop_elects [OF this, of g]
  show "length sentinels < 2 * length (voters rs order)"
    and "map_of masters g = map_option mAddr (elected (ballots rs order) g)"
    by (simp_all add: results_events_of map_filter_voters len [symmetric] ballots_def)
qed

lemma voters_distinct: "distinct order \<Longrightarrow> distinct (voters rs order)"
  by (simp add: voters_def distinct_take)

lemma voters_range: "i \<in> set (voters rs order) \<Longrightarrow> i < length rs \<and> answer (rs ! i) \<noteq> None"
proof -
  assume i: "i \<in> set (voters rs order)"
  then have "i \<in> set (take (length rs) (filter (\<lambda>i. i < length rs) order))" by (simp add: voters_def)
  from in_set_takeD [OF this] i show ?thesis by (simp add: voters_def)
qed

subsection \<open>Waiting for a switch\<close>

text \<open>
  The wait ends with a switch exactly when one is announced before a majority of the
  subscriptions is lost.
\<close>

declare subscribe_loop.simps [simp del]

definition announced_at :: "nat \<Rightarrow> nat \<Rightarrow> bool event list \<Rightarrow> nat \<Rightarrow> bool" where
  "announced_at n alive evs k \<longleftrightarrow>
     k + majority n \<le> alive \<and> k < length evs \<and> evs ! k = Result True \<and> (\<forall>j < k. evs ! j = Result False)"

lemma announced_at_0: "announced_at n alive (e # es) 0 \<longleftrightarrow> majority n \<le> alive \<and> e = Result True"
  by (simp add: announced_at_def)

lemma announced_at_Suc:
  "announced_at n alive (e # es) (Suc k) \<longleftrightarrow> e = Result False \<and> 1 \<le> alive \<and> announced_at n (alive - 1) es k"
proof -
  have "1 \<le> majority n" by (simp add: majority_def)
  moreover have "(\<forall>j < Suc k. (e # es) ! j = Result False) \<longleftrightarrow> e = Result False \<and> (\<forall>j < k. es ! j = Result False)"
    by (simp add: All_less_Suc2)
  ultimately show ?thesis by (auto simp: announced_at_def)
qed

lemma announced_split: "(\<exists>k. announced_at n alive evs k) \<longleftrightarrow>
    announced_at n alive evs 0 \<or> (\<exists>k. announced_at n alive evs (Suc k))"
  by (metis not0_implies_Suc)

lemma subscribe_loop_iff: "subscribe_loop n alive evs \<longleftrightarrow> (\<exists>k. announced_at n alive evs k)"
proof (induction evs arbitrary: alive)
  case Nil
  show ?case by (subst subscribe_loop.simps) (simp add: announced_at_def)
next
  case (Cons e es)
  have "1 \<le> majority n" by (simp add: majority_def)
  then show ?case
    by (subst subscribe_loop.simps, subst announced_split)
      (auto simp: announced_at_0 announced_at_Suc Cons.IH split: event.split bool.split, auto simp: announced_at_def)
qed

end
