(* ===== verification/Logging.thy ===== *)
theory Logging
  imports GoLib "HOL-Library.Word"
begin

section \<open>The log (utils/log)\<close>

text \<open>
  \<open>Logger\<close> writes one line per call. \<open>std\<close> of \<open>std_call\<close> is the logger of the package.
  \<^item> The clock and \<open>runtime.Caller\<close> are the parameter \<open>logenv\<close>, the writer is a function on the
    world, \<open>fmt\<close> turns the arguments of a call into its text; the lock makes a call one step.
  \<^item> \<open>Fatal\<close> ends the process and \<open>Panic\<close> panics: the outcome of a call is a value.
\<close>

subsection \<open>Levels and flags\<close>

definition Loff :: int where "Loff = 2147483647"
definition Lfatal :: int where "Lfatal = 70000"
definition Lpanic :: int where "Lpanic = 60000"
definition Lerror :: int where "Lerror = 50000"
definition Lwarn :: int where "Lwarn = 40000"
definition Linfo :: int where "Linfo = 30000"
definition Ldebug :: int where "Ldebug = 20000"
definition Ltrace :: int where "Ltrace = 10000"
definition LstdLevel :: int where "LstdLevel = Ltrace"

lemmas level_defs = Loff_def Lfatal_def Lpanic_def Lerror_def Lwarn_def Linfo_def Ldebug_def Ltrace_def LstdLevel_def

definition Ldate :: "64 word" where "Ldate = 1"
definition Ltime :: "64 word" where "Ltime = 2"
definition Lmicroseconds :: "64 word" where "Lmicroseconds = 4"
definition Llongfile :: "64 word" where "Llongfile = 8"
definition Lshortfile :: "64 word" where "Lshortfile = 16"
definition LUTC :: "64 word" where "LUTC = 32"
definition LstdFlags :: "64 word" where "LstdFlags = or (or Ldate Ltime) Lmicroseconds"

definition LevelToString :: "int \<Rightarrow> string" where
  "LevelToString level =
     (if level = Loff then ''[OFF]'' else if level = Lfatal then ''[FATAL]''
      else if level = Lpanic then ''[PANIC]'' else if level = Lerror then ''[ERROR]''
      else if level = Lwarn then ''[WARN]'' else if level = Linfo then ''[INFO]''
      else if level = Ldebug then ''[DEBUG]'' else if level = Ltrace then ''[TRACE]''
      else [])"

definition StringToLevel :: "string \<Rightarrow> int" where
  "StringToLevel s =
     (let t = ToLower s in
      if t = ''off'' then Loff else if t = ''fatal'' then Lfatal
      else if t = ''panic'' then Lpanic else if t = ''error'' then Lerror
      else if t = ''warn'' then Lwarn else if t = ''info'' then Linfo
      else if t = ''debug'' then Ldebug else if t = ''trace'' then Ltrace
      else LstdLevel)"

subsection \<open>The line\<close>

lemma quot_decreases: "nat (go_quot i 10) \<le> nat i" "10 \<le> i \<Longrightarrow> nat (go_quot i 10) < nat i"
  by (cases "0 < i"; cases "i = 0"; simp add: go_quot_def sgn_if)+

text \<open>The decimal digits of \<open>i\<close>, at least \<open>wid\<close> of them, put in front of \<open>b\<close>.\<close>

function itoa_digits :: "int \<Rightarrow> int \<Rightarrow> string \<Rightarrow> string" where
  "itoa_digits i wid b =
     (if 10 \<le> i \<or> 1 < wid
      then itoa_digits (go_quot i 10) (wid - 1) (char_of (48 + i - go_quot i 10 * 10) # b)
      else char_of (48 + i) # b)"
  by pat_completeness auto

termination
  by (relation "measure (\<lambda>(i, wid, b). nat i + nat wid)")
    (auto intro: quot_decreases add_less_le_mono add_le_less_mono)

declare itoa_digits.simps [simp del]

definition itoa :: "string \<Rightarrow> int \<Rightarrow> int \<Rightarrow> string" where
  "itoa buf i wid = buf @ itoa_digits i wid []"

record log_time =
  ltYear :: int
  ltMonth :: int
  ltDay :: int
  ltHour :: int
  ltMin :: int
  ltSec :: int
  ltNano :: int

record 'w logenv =
  le_Now :: "'w \<Rightarrow> log_time"
  le_UTC :: "log_time \<Rightarrow> log_time"
  le_Caller :: "int \<Rightarrow> 'w \<Rightarrow> (string \<times> int) option"

record 'w logger =
  lgLevel :: int
  lgOut :: "string \<Rightarrow> ('w, 64 word) io"
  lgFlag :: "64 word"

definition New_logger :: "(string \<Rightarrow> ('w, 64 word) io) \<Rightarrow> int \<Rightarrow> 64 word \<Rightarrow> 'w logger" where
  "New_logger out level flag = \<lparr>lgLevel = level, lgOut = out, lgFlag = flag\<rparr>"

definition SetOutput :: "(string \<Rightarrow> ('w, 64 word) io) \<Rightarrow> 'w logger \<Rightarrow> 'w logger" where
  "SetOutput out l = l\<lparr>lgOut := out\<rparr>"

definition SetLevel :: "int \<Rightarrow> 'w logger \<Rightarrow> 'w logger" where
  "SetLevel level l = l\<lparr>lgLevel := level\<rparr>"

definition SetFlags :: "64 word \<Rightarrow> 'w logger \<Rightarrow> 'w logger" where
  "SetFlags flag l = l\<lparr>lgFlag := flag\<rparr>"

definition has_flag :: "'w logger \<Rightarrow> 64 word \<Rightarrow> bool" where
  "has_flag l f \<longleftrightarrow> and (lgFlag l) f \<noteq> 0"

definition header_date :: "'w logger \<Rightarrow> log_time \<Rightarrow> string \<Rightarrow> string" where
  "header_date l t buf =
     (if has_flag l Ldate
      then itoa (itoa (itoa buf (ltYear t) 4 @ ''/'') (ltMonth t) 2 @ ''/'') (ltDay t) 2 @ '' ''
      else buf)"

definition header_clock :: "'w logger \<Rightarrow> log_time \<Rightarrow> string \<Rightarrow> string" where
  "header_clock l t buf =
     (if has_flag l (or Ltime Lmicroseconds)
      then (let hms = itoa (itoa (itoa buf (ltHour t) 2 @ '':'') (ltMin t) 2 @ '':'') (ltSec t) 2 in
            (if has_flag l Lmicroseconds then itoa (hms @ ''.'') (go_quot (ltNano t) 1000) 6 else hms) @ '' '')
      else buf)"

text \<open>The loop stops before the first byte: a slash there does not count.\<close>

definition short_file :: "string \<Rightarrow> string" where
  "short_file file =
     (case last_index (CHR ''/'') file of
        Some i \<Rightarrow> if 0 < i then drop (i + 1) file else file
      | None \<Rightarrow> file)"

definition header_file :: "'w logger \<Rightarrow> string \<Rightarrow> int \<Rightarrow> string \<Rightarrow> string" where
  "header_file l file line buf =
     (if has_flag l (or Lshortfile Llongfile)
      then itoa (buf @ '' '' @ (if has_flag l Lshortfile then short_file file else file) @ '':'') line (- 1) @ '': ''
      else buf)"

definition formatHeader :: "(log_time \<Rightarrow> log_time) \<Rightarrow> 'w logger \<Rightarrow> string \<Rightarrow> log_time \<Rightarrow> string \<Rightarrow> int \<Rightarrow> int \<Rightarrow> string" where
  "formatHeader utc l buf now file line level =
     (let t = (if has_flag l LUTC then utc now else now);
          stamp = (if has_flag l (or (or Ldate Ltime) Lmicroseconds) then header_clock l t (header_date l t buf) else buf)
      in header_file l file line (stamp @ LevelToString level @ '' ''))"

definition log_output :: "'w logenv \<Rightarrow> 'w logger \<Rightarrow> int \<Rightarrow> int \<Rightarrow> string \<Rightarrow> ('w, unit) io" where
  "log_output E l level callDepth s w =
     (let (file, line) =
            (if has_flag l (or Lshortfile Llongfile)
             then (case le_Caller E callDepth w of None \<Rightarrow> (''???'', 0) | Some c \<Rightarrow> c) else ([], 0));
          buf = formatHeader (le_UTC E) l [] (le_Now E w) file line level @ s
      in bindE (lgOut l (if s = [] \<or> last s \<noteq> CHR 0x0A then buf @ [CHR 0x0A] else buf)) (\<lambda>_. ret ()) w)"

text \<open>\<open>Output\<close>, \<open>Outputln\<close> and \<open>Outputf\<close>, after the arguments are turned into the text \<open>s\<close>.\<close>

definition log_Output :: "'w logenv \<Rightarrow> 'w logger \<Rightarrow> int \<Rightarrow> int \<Rightarrow> string \<Rightarrow> ('w, unit) io" where
  "log_Output E l level callDepth s =
     (if level < lgLevel l then ret () else log_output E l level (callDepth + 1) s)"

subsection \<open>The calls\<close>

datatype severity = SevTrace | SevDebug | SevInfo | SevWarn | SevError | SevPanic | SevFatal

datatype message = Print "string list" | Println "string list" | Printf string "string list"

datatype log_outcome = Returns | Exits int | Panics string

fun level_of :: "severity \<Rightarrow> int" where
  "level_of SevTrace = Ltrace"
| "level_of SevDebug = Ldebug"
| "level_of SevInfo = Linfo"
| "level_of SevWarn = Lwarn"
| "level_of SevError = Lerror"
| "level_of SevPanic = Lpanic"
| "level_of SevFatal = Lfatal"

text \<open>The methods of \<open>Logger\<close>: \<open>Info\<close>, \<open>Infoln\<close>, \<open>Infof\<close> and so on for each severity.\<close>

definition log_call :: "'w logenv \<Rightarrow> (message \<Rightarrow> string) \<Rightarrow> 'w logger \<Rightarrow> severity \<Rightarrow> message \<Rightarrow> 'w \<Rightarrow> log_outcome \<times> 'w" where
  "log_call E fmt l sev m w =
     (case sev of
        SevFatal \<Rightarrow>
          if lgLevel l \<le> Lfatal then (Exits 1, snd (log_Output E l Lfatal 2 (fmt m) w)) else (Returns, w)
      | SevPanic \<Rightarrow>
          if lgLevel l \<le> Lpanic then (Panics (fmt m), snd (log_output E l Lpanic 2 (fmt m) w)) else (Returns, w)
      | _ \<Rightarrow> (Returns, snd (log_Output E l (level_of sev) 2 (fmt m) w)))"

text \<open>The functions of the package on the standard logger; \<open>Panicf\<close> formats like \<open>Panicln\<close>.\<close>

definition std_call :: "'w logenv \<Rightarrow> (message \<Rightarrow> string) \<Rightarrow> 'w logger \<Rightarrow> severity \<Rightarrow> message \<Rightarrow> 'w \<Rightarrow> log_outcome \<times> 'w" where
  "std_call E fmt std sev m w =
     (case sev of
        SevFatal \<Rightarrow>
          if lgLevel std \<le> Lfatal then (Exits 1, snd (log_Output E std Lfatal 2 (fmt m) w)) else (Returns, w)
      | SevPanic \<Rightarrow>
          if lgLevel std \<le> Lpanic
          then (let s = fmt (case m of Printf _ v \<Rightarrow> Println v | _ \<Rightarrow> m) in
                (Panics s, snd (log_output E std Lpanic 2 s w)))
          else (Returns, w)
      | _ \<Rightarrow> (Returns, snd (log_Output E std (level_of sev) 2 (fmt m) w)))"

definition std_Output :: "'w logenv \<Rightarrow> 'w logger \<Rightarrow> int \<Rightarrow> int \<Rightarrow> string \<Rightarrow> ('w, unit) io" where
  "std_Output E std level calldepth s =
     (if level < lgLevel std then ret () else log_output E std level (calldepth + 1) s)"

subsection \<open>What is written\<close>

text \<open>\<open>itoa\<close> pads the decimal digits with zeros.\<close>

lemma digit_int: "0 \<le> i \<Longrightarrow> char_of (48 + i) = digit (nat i)"
  using char_of_nat [of "48 + nat i", where 'a = int] by (simp add: digit_def)

lemma digits_step:
  "10 \<le> i \<Longrightarrow> nat_digits (nat i) = nat_digits (nat (i div 10)) @ [digit (nat (i mod 10))]"
  by (subst nat_digits.simps) (simp add: nat_less_iff nat_div_distrib nat_mod_distrib)

lemma digits_one: "0 \<le> i \<Longrightarrow> i < 10 \<Longrightarrow> nat_digits (nat i) = [digit (nat i)]"
  by (subst nat_digits.simps) (simp add: nat_less_iff)

lemma digit_zero: "digit 0 = CHR ''0''"
  by code_simp

lemma digits_zero: "nat_digits 0 = ''0''"
  by code_simp

lemma itoa_digits_nat:
  "0 \<le> i \<Longrightarrow> itoa_digits i wid b =
     replicate (nat wid - length (nat_digits (nat i))) (CHR ''0'') @ nat_digits (nat i) @ b"
proof (induction i wid b rule: itoa_digits.induct)
  case (1 i wid b)
  have quot: "go_quot i 10 = i div 10" using 1(2) by (simp add: go_quot_def sgn_if)
  have last: "char_of (48 + i - i div 10 * 10) = digit (nat (i mod 10))"
    using digit_int [of "i mod 10"] 1(2) by (simp add: minus_div_mult_eq_mod [symmetric] algebra_simps)
  show ?case
  proof (cases "10 \<le> i \<or> 1 < wid")
    case True
    have ih: "itoa_digits i wid b =
        replicate (nat (wid - 1) - length (nat_digits (nat (i div 10)))) (CHR ''0'')
          @ nat_digits (nat (i div 10)) @ digit (nat (i mod 10)) # b"
      using 1(1) [OF True] 1(2) True by (subst itoa_digits.simps) (simp add: quot last)
    show ?thesis
    proof (cases "10 \<le> i")
      case True
      then show ?thesis by (simp add: ih digits_step nat_diff_distrib)
    next
      case False
      have "1 < wid" using True False by simp
      then obtain n where n: "wid = int n + 2"
        by (metis add.commute less_eq_int_code(1) zle_iff_zadd int_one_le_iff_zero_less one_add_one zless_imp_add1_zle)
      have "i div 10 = 0" "i mod 10 = i" using False 1(2) by simp_all
      then show ?thesis
        using ih False 1(2) by (simp add: digits_one n digits_zero digit_zero nat_add_distrib replicate_append_same [symmetric])
    qed
  next
    case False
    then have "nat wid \<le> Suc 0" by linarith
    with False show ?thesis using 1(2) by (subst itoa_digits.simps) (simp add: digits_one digit_int)
  qed
qed

lemma level_names: "sev \<in> {SevTrace, SevDebug, SevInfo, SevWarn, SevError, SevPanic, SevFatal} \<Longrightarrow>
    StringToLevel (butlast (tl (LevelToString (level_of sev)))) = level_of sev"
  by (elim insertE; simp; code_simp)

text \<open>A call below the level writes nothing, whatever the writer does.\<close>

lemma log_call_silent:
  "level_of sev < lgLevel l \<Longrightarrow> log_call E fmt l sev m w = (Returns, w)"
  by (cases sev) (auto simp: log_call_def log_Output_def ret_def)

end
