(* ===== verification/FileWriter.thy ===== *)
theory FileWriter
  imports Logging
begin

section \<open>The log file and its rotation (utils/log/file\_writer.go)\<close>

text \<open>
  \<open>FileWriter\<close> is the file the loggers write to.
  \<^item> The calls of \<open>os\<close> and the clock are the parameter \<open>logfs\<close>; a descriptor is a number.
    \<open>lf_Walk\<close> is what \<open>filepath.Walk\<close> visits, in its order: a path with its error or with
    whether it is a directory and its modification time in seconds.
  \<^item> Sizes are \<open>int64\<close>: \<open>64 word\<close> read by \<open>sint\<close>.
  \<^item> The lock makes each method one step; closing a writer twice panics (\<open>close\<close> of a closed
    channel), which is \<open>None\<close>.
\<close>

definition path_Ext :: "string \<Rightarrow> string" where
  "path_Ext p =
     (case last_index (CHR ''.'') p of
        Some i \<Rightarrow> if CHR ''/'' \<in> set (drop i p) then [] else drop i p
      | None \<Rightarrow> [])"

record 'w logfs =
  lf_Now :: "'w \<Rightarrow> log_time"
  lf_Unix :: "'w \<Rightarrow> int"
  lf_MkdirAll :: "string \<Rightarrow> ('w, unit) io"
  lf_OpenFile :: "string \<Rightarrow> ('w, nat) io"
  lf_Lstat :: "string \<Rightarrow> ('w, unit) io"
  lf_Rename :: "string \<Rightarrow> string \<Rightarrow> ('w, unit) io"
  lf_Remove :: "string \<Rightarrow> ('w, unit) io"
  lf_Close :: "nat \<Rightarrow> ('w, unit) io"
  lf_Size :: "nat \<Rightarrow> ('w, 64 word) io"
  lf_Write :: "nat \<Rightarrow> string \<Rightarrow> ('w, 64 word) io"
  lf_Stderr :: "error \<Rightarrow> 'w \<Rightarrow> 'w"
  lf_Walk :: "string \<Rightarrow> 'w \<Rightarrow> (string \<times> (error + bool \<times> int)) list"

record file_writer =
  fwFilename :: string
  fwFd :: nat
  fwDaily :: bool
  fwMaxdays :: int
  fwOpenTime :: log_time
  fwMaxsize :: "64 word"
  fwCurrentSize :: "64 word"
  fwDone :: bool

subsection \<open>Making a writer\<close>

datatype fw_option = RotateByDaily bool | ReserveDays int | LogFileMaxSize "64 word"

fun apply_option :: "fw_option \<Rightarrow> file_writer \<Rightarrow> file_writer" where
  "apply_option (RotateByDaily enable) f = f\<lparr>fwDaily := enable\<rparr>"
| "apply_option (ReserveDays maxdays) f = f\<lparr>fwMaxdays := maxdays\<rparr>"
| "apply_option (LogFileMaxSize mb) f = f\<lparr>fwMaxsize := mb * 1024 * 1024\<rparr>"

definition initStat :: "'w logfs \<Rightarrow> file_writer \<Rightarrow> 'w \<Rightarrow> file_writer \<times> 'w" where
  "initStat L f w =
     (let (r, w') = lf_Size L (fwFd f) w;
          f' = (case r of Inr n \<Rightarrow> f\<lparr>fwCurrentSize := n\<rparr> | Inl _ \<Rightarrow> f)
      in (f'\<lparr>fwOpenTime := lf_Now L w'\<rparr>, w'))"

definition time_zero :: log_time where
  "time_zero = \<lparr>ltYear = 1, ltMonth = 1, ltDay = 1, ltHour = 0, ltMin = 0, ltSec = 0, ltNano = 0\<rparr>"

definition default_writer :: "string \<Rightarrow> file_writer" where
  "default_writer filename =
     \<lparr>fwFilename = filename, fwFd = 0, fwDaily = True, fwMaxdays = 7, fwOpenTime = time_zero,
      fwMaxsize = 100 * 1024 * 1024, fwCurrentSize = 0, fwDone = False\<rparr>"

definition NewFileWriter :: "'w logfs \<Rightarrow> string \<Rightarrow> fw_option list \<Rightarrow> ('w, file_writer) io" where
  "NewFileWriter L filename options =
     bindE (lf_MkdirAll L (path_Dir filename)) (\<lambda>_.
     bindE (lf_OpenFile L filename) (\<lambda>fd w.
       let (f, w') = initStat L ((fold apply_option options (default_writer filename))\<lparr>fwFd := fd\<rparr>) w
       in (Inr f, w')))"

definition fw_Close :: "'w logfs \<Rightarrow> file_writer \<Rightarrow> 'w \<Rightarrow> ((error + unit) \<times> file_writer \<times> 'w) option" where
  "fw_Close L f w =
     (if fwDone f then None
      else (let (r, w') = lf_Close L (fwFd f) w in Some (r, f\<lparr>fwDone := True\<rparr>, w')))"

subsection \<open>Writing\<close>

definition needRotate :: "'w logfs \<Rightarrow> file_writer \<Rightarrow> 'w \<Rightarrow> bool" where
  "needRotate L f w \<longleftrightarrow>
     (0 < sint (fwMaxsize f) \<and> sint (fwMaxsize f) \<le> sint (fwCurrentSize f)) \<or>
     (fwDaily f \<and> ltDay (lf_Now L w) \<noteq> ltDay (fwOpenTime f))"

text \<open>\<open>Format("20060102-150405.000000")\<close>.\<close>

definition stamp :: "log_time \<Rightarrow> string" where
  "stamp t =
     itoa (itoa (itoa [] (ltYear t) 4) (ltMonth t) 2) (ltDay t) 2 @ ''-'' @
     itoa (itoa (itoa [] (ltHour t) 2) (ltMin t) 2) (ltSec t) 2 @ ''.'' @
     itoa [] (go_quot (ltNano t) 1000) 6"

definition rotated_name :: "string \<Rightarrow> log_time \<Rightarrow> string" where
  "rotated_name filename t =
     (let ext = path_Ext filename; prefix = TrimSuffix filename ext
      in prefix @ ''.'' @ stamp t @ (if ext = [] then ''.log'' else ext))"

definition doRotate :: "'w logfs \<Rightarrow> (file_writer \<times> 'w, unit) io" where
  "doRotate L s =
     (case s of (f, w) \<Rightarrow>
      case lf_Lstat L (fwFilename f) w of
        (Inl e, w1) \<Rightarrow> (Inl e, (f, w1))
      | (Inr _, w1) \<Rightarrow>
          (let w2 = snd (lf_Close L (fwFd f) w1);
               w3 = snd (lf_Rename L (fwFilename f) (rotated_name (fwFilename f) (fwOpenTime f)) w2)
           in case lf_OpenFile L (fwFilename f) w3 of
                (Inl e, w4) \<Rightarrow> (Inl e, (f, w4))
              | (Inr fd, w4) \<Rightarrow> (Inr (), initStat L (f\<lparr>fwFd := fd\<rparr>) w4)))"

definition rotate_if_needed :: "'w logfs \<Rightarrow> file_writer \<times> 'w \<Rightarrow> file_writer \<times> 'w" where
  "rotate_if_needed L s =
     (if needRotate L (fst s) (snd s)
      then (case doRotate L s of
              (Inr _, t) \<Rightarrow> t
            | (Inl e, (f, w)) \<Rightarrow> (f, lf_Stderr L e w))
      else s)"

definition fw_Write :: "'w logfs \<Rightarrow> string \<Rightarrow> (file_writer \<times> 'w, 64 word) io" where
  "fw_Write L b s =
     (case rotate_if_needed L s of (f, w) \<Rightarrow>
      case lf_Write L (fwFd f) b w of
        (Inr n, w') \<Rightarrow> (Inr n, (f\<lparr>fwCurrentSize := fwCurrentSize f + n\<rparr>, w'))
      | (Inl e, w') \<Rightarrow> (Inl e, (f, w')))"

subsection \<open>Deleting old files\<close>

definition is_old :: "int \<Rightarrow> int \<Rightarrow> int \<Rightarrow> bool" where
  "is_old now maxdays mtime \<longleftrightarrow> mtime < now - 60 * 60 * 24 * maxdays"

definition is_log_of :: "string \<Rightarrow> string \<Rightarrow> bool" where
  "is_log_of filename path \<longleftrightarrow>
     HasPrefix path (TrimSuffix filename (path_Ext filename)) \<and> HasSuffix path (path_Ext filename)"

fun visit :: "'w logfs \<Rightarrow> string \<Rightarrow> int \<Rightarrow> (string \<times> (error + bool \<times> int)) list \<Rightarrow> 'w \<Rightarrow> 'w" where
  "visit L filename maxdays [] w = w"
| "visit L filename maxdays ((path, Inl _) # es) w = w"
| "visit L filename maxdays ((path, Inr (isDir, mtime)) # es) w =
     visit L filename maxdays es
       (if path \<noteq> filename \<and> \<not> isDir \<and> is_old (lf_Unix L w) maxdays mtime \<and> is_log_of filename path
        then snd (lf_Remove L path w) else w)"

definition deleteOldFiles :: "'w logfs \<Rightarrow> string \<Rightarrow> int \<Rightarrow> 'w \<Rightarrow> 'w" where
  "deleteOldFiles L filename maxdays w = visit L filename maxdays (lf_Walk L (path_Dir filename) w) w"

datatype reaper_event = Tick | Done

fun reaper :: "'w logfs \<Rightarrow> file_writer \<Rightarrow> reaper_event list \<Rightarrow> 'w \<Rightarrow> 'w" where
  "reaper L f [] w = w"
| "reaper L f (Tick # es) w = reaper L f es (deleteOldFiles L (fwFilename f) (fwMaxdays f) w)"
| "reaper L f (Done # es) w = w"

subsection \<open>Rotation and reaping agree\<close>

lemma path_Ext_suffix: "\<exists>q. p = q @ path_Ext p"
  unfolding path_Ext_def
  by (auto split: option.split) (metis append_take_drop_id)

lemma TrimSuffix_append: "TrimSuffix (q @ e) e = q"
  by (simp add: TrimSuffix_def HasSuffix_def)

lemma filename_parts: "TrimSuffix p (path_Ext p) @ path_Ext p = p"
  using path_Ext_suffix [of p] TrimSuffix_append by metis

lemma HasSuffix_append: "HasSuffix (q @ e) e"
  by (simp add: HasSuffix_def)

lemma rotated_is_log: "is_log_of p (rotated_name p t)"
  unfolding is_log_of_def rotated_name_def Let_def
  by (auto simp: HasPrefix_iff HasSuffix_append simp flip: append_assoc) (simp_all add: HasSuffix_def)

lemma rotated_differs: "rotated_name p t \<noteq> p"
proof
  assume eq: "rotated_name p t = p"
  have "length (rotated_name p t) > length (TrimSuffix p (path_Ext p)) + length (path_Ext p)"
    by (simp add: rotated_name_def Let_def)
  then show False unfolding eq by (metis filename_parts length_append less_irrefl)
qed

text \<open>A rotated file that is old is deleted when the walk reaches it.\<close>

lemma rotated_reaped:
  "is_old (lf_Unix L w) maxdays mtime \<Longrightarrow>
     visit L p maxdays ((rotated_name p t, Inr (False, mtime)) # es) w =
     visit L p maxdays es (snd (lf_Remove L (rotated_name p t) w))"
  by (simp add: rotated_differs rotated_is_log)

text \<open>
  When rotation works and its new file is empty, a write of \<open>n\<close> bytes leaves the recorded size
  below the limit plus \<open>n\<close>.
\<close>

lemma doRotate_config: "doRotate L (f, w) = (r, (g, v)) \<Longrightarrow> fwMaxsize g = fwMaxsize f"
  by (auto simp: doRotate_def initStat_def Let_def split: prod.splits sum.splits)

lemma sint_add_small:
  fixes x y :: "64 word"
  assumes "sint x < m" "0 \<le> sint y" "m + sint y < 2 ^ 63"
  shows "sint (x + y) < m + sint y"
proof -
  have "- (2 ^ 63) \<le> sint x" using sint_ge [of x] by simp
  then have "sint (x + y) = sint x + sint y"
    using assms by (subst sint_word_ariths) (auto intro!: signed_take_bit_int_eq_self)
  then show ?thesis using assms(1) by simp
qed

lemma write_bound:
  assumes run: "fw_Write L b (f, w) = (Inr n, (f', w'))"
    and limit: "0 < sint (fwMaxsize f)" "0 \<le> sint n" "sint (fwMaxsize f) + sint n < 2 ^ 63"
    and fresh: "needRotate L f w \<Longrightarrow> \<exists>g v. doRotate L (f, w) = (Inr (), (g, v)) \<and> fwCurrentSize g = 0"
  shows "sint (fwCurrentSize f') < sint (fwMaxsize f) + sint n"
proof -
  obtain g v where g: "rotate_if_needed L (f, w) = (g, v)" by fastforce
  have "sint (fwCurrentSize g) < sint (fwMaxsize f)"
    using fresh g limit(1) by (auto simp: rotate_if_needed_def needRotate_def split: if_splits)
  moreover have "fwCurrentSize f' = fwCurrentSize g + n"
    using run by (auto simp: fw_Write_def g split: prod.splits sum.splits)
  ultimately show ?thesis using sint_add_small [OF _ limit(2,3)] by simp
qed

end
