(* ===== verification/Zookeeper.thy ===== *)
theory Zookeeper
  imports Etcd "HOL-Library.Word"
begin

section \<open>The zookeeper client (coordinate/zk/client.go, coordinate/coordinator.go)\<close>

text \<open>
  The client the dashboard runs against zookeeper, the second implementation of the
  coordinator's interface. The library's connections are the parameter \<open>zk_api\<close>, each
  connection a number; \<open>za_Now\<close> is the clock. A client is the struct \<open>Client\<close> without its
  lock and logger; its methods work on the pair of the client and the world.
  \<^item> \<open>shell\<close> runs a call on the connection; an error that is not about the node itself makes
    it dial anew, once the connection is older than a second. The error is returned all the same.
  \<^item> \<open>zk_mkdir\<close> climbs to an ancestor that exists and creates the nodes below it. Its
    recursion is bounded by the length of the path, which is enough for a rooted path; a
    relative one would recurse for ever on \<open>.\<close>, which is the error \<open>EndlessRecursion\<close> here
    (the library refuses such paths before that).
  \<^item> \<open>zk_service\<close> states what zookeeper promises of the calls the client makes; \<open>view w p\<close> is
    the data of the node \<open>p\<close>. The client then satisfies \<open>coord_client\<close>.
  \<^item> The channels that watches return are left out: the call that sets a watch is made.
\<close>

subsection \<open>Client\<close>

definition PermRead :: "32 word" where "PermRead = 1"
definition PermWrite :: "32 word" where "PermWrite = 2"
definition PermAdmin :: "32 word" where "PermAdmin = 16"
definition PermAll :: "32 word" where "PermAll = 31"

definition FlagEphemeral :: "32 word" where "FlagEphemeral = 1"
definition FlagSequence :: "32 word" where "FlagSequence = 2"

datatype acl = WorldACL "32 word" | DigestACL "32 word" string string

record 'w zk_api =
  za_Connect :: "string list \<Rightarrow> int \<Rightarrow> ('w, nat) io"
  za_Close :: "nat \<Rightarrow> 'w \<Rightarrow> 'w"
  za_AddAuth :: "nat \<Rightarrow> string \<Rightarrow> string \<Rightarrow> ('w, unit) io"
  za_Exists :: "nat \<Rightarrow> string \<Rightarrow> ('w, bool) io"
  za_Create :: "nat \<Rightarrow> string \<Rightarrow> data \<Rightarrow> 32 word \<Rightarrow> acl \<Rightarrow> ('w, string) io"
  za_Get :: "nat \<Rightarrow> string \<Rightarrow> ('w, data) io"
  za_GetW :: "nat \<Rightarrow> string \<Rightarrow> ('w, data) io"
  za_Set :: "nat \<Rightarrow> string \<Rightarrow> data \<Rightarrow> ('w, unit) io"
  za_Delete :: "nat \<Rightarrow> string \<Rightarrow> ('w, unit) io"
  za_Children :: "nat \<Rightarrow> string \<Rightarrow> ('w, string list) io"
  za_ChildrenW :: "nat \<Rightarrow> string \<Rightarrow> ('w, string list) io"
  za_Now :: "'w \<Rightarrow> int"

record zk_client =
  zcConn :: "nat option"
  zcAddrlist :: string
  zcUsername :: string
  zcPassword :: string
  zcTimeout :: int
  zcDialAt :: int
  zcClosed :: bool

definition zk_reset :: "'w zk_api \<Rightarrow> (zk_client \<times> 'w, unit) io" where
  "zk_reset Z =
     bindE (modifyE (\<lambda>(c, w). (c\<lparr>zcDialAt := za_Now Z w\<rparr>, w))) (\<lambda>_.
     bindE (gets fst) (\<lambda>c.
     bindE (onW (za_Connect Z (Split (CHR '','') (zcAddrlist c)) (zcTimeout c))) (\<lambda>conn.
     bindE (modifyE (\<lambda>(c, w). (c\<lparr>zcConn := Some conn\<rparr>,
              case zcConn c of None \<Rightarrow> w | Some old \<Rightarrow> za_Close Z old w))) (\<lambda>_.
     if zcUsername c \<noteq> []
     then onW (za_AddAuth Z conn ''digest'' (zcUsername c @ '':'' @ zcPassword c)) else ret ()))))"

text \<open>\<open>New\<close>: the new client and the world after its first connection.\<close>

definition zk_New :: "'w zk_api \<Rightarrow> string \<Rightarrow> string \<Rightarrow> int \<Rightarrow> ('w, zk_client) io" where
  "zk_New Z addrlist auth timeout w =
     (let c = \<lparr>zcConn = None, zcAddrlist = addrlist, zcUsername = [], zcPassword = [],
               zcTimeout = (if timeout \<le> 0 then 5000000000 else timeout), zcDialAt = 0, zcClosed = False\<rparr>;
          start = (\<lambda>c. case zk_reset Z (c, w) of (r, (c', w')) \<Rightarrow>
            (case r of Inl e \<Rightarrow> Inl e | Inr _ \<Rightarrow> Inr c', w'))
      in if auth = [] then start c
         else (case SplitN2 (CHR '':'') auth of
                 [user, pass] \<Rightarrow>
                   if user = [] then (Inl (ErrCoord InvalidAuth), w)
                   else start (c\<lparr>zcUsername := user, zcPassword := pass\<rparr>)
               | _ \<Rightarrow> (Inl (ErrCoord InvalidAuth), w)))"

definition zk_Close :: "'w zk_api \<Rightarrow> (zk_client \<times> 'w, unit) io" where
  "zk_Close Z =
     modifyE (\<lambda>(c, w). if zcClosed c then (c, w)
       else (c\<lparr>zcClosed := True\<rparr>, case zcConn c of None \<Rightarrow> w | Some conn \<Rightarrow> za_Close Z conn w))"

definition node_error :: "error \<Rightarrow> bool" where
  "node_error e \<longleftrightarrow> e = ErrCoord NoNode \<or> e = ErrCoord NodeExists \<or> e = ErrCoord NotEmpty"

text \<open>What \<open>shell\<close> does after an error: the connection may be dialled anew, \<open>err\<close> is returned.\<close>

definition redial :: "'w zk_api \<Rightarrow> error \<Rightarrow> (zk_client \<times> 'w, 'a) io" where
  "redial Z err =
     bindE (gets (\<lambda>(c, w). za_Now Z w - zcDialAt c)) (\<lambda>since.
     bindE (if 1000000000 < since then bindE (attempt (zk_reset Z)) (\<lambda>_. ret ()) else ret ()) (\<lambda>_.
     fail err))"

definition shell :: "'w zk_api \<Rightarrow> (nat \<Rightarrow> ('w, 'a) io) \<Rightarrow> (zk_client \<times> 'w, 'a) io" where
  "shell Z fn =
     bindE (gets (zcConn \<circ> fst)) (\<lambda>conn.
     case conn of
       None \<Rightarrow> fail (ErrCoord NilConn)
     | Some h \<Rightarrow>
         bindE (attempt (onW (fn h))) (\<lambda>r.
         case r of
           Inr x \<Rightarrow> ret x
         | Inl e \<Rightarrow> if node_error e then fail e else redial Z e))"

definition zk_Do :: "'w zk_api \<Rightarrow> (nat \<Rightarrow> ('w, 'a) io) \<Rightarrow> (zk_client \<times> 'w, 'a) io" where
  "zk_Do Z fn =
     bindE (gets (zcClosed \<circ> fst)) (\<lambda>closed.
     bindE (guardE (\<not> closed) (ErrCoord ClosedClient)) (\<lambda>_. shell Z fn))"

definition zk_acl :: "zk_client \<Rightarrow> 32 word \<Rightarrow> acl" where
  "zk_acl c perm = (if zcUsername c \<noteq> [] then DigestACL perm (zcUsername c) (zcPassword c) else WorldACL perm)"

text \<open>\<open>tolerate e m\<close>: the error \<open>e\<close> of \<open>m\<close> is no error.\<close>

definition tolerate :: "error \<Rightarrow> ('w, 'a) io \<Rightarrow> ('w, unit) io" where
  "tolerate e m =
     bindE (attempt m) (\<lambda>r. case r of Inl e' \<Rightarrow> if e' \<noteq> e then fail e' else ret () | Inr _ \<Rightarrow> ret ())"

fun zk_mkdir :: "'w zk_api \<Rightarrow> zk_client \<Rightarrow> nat \<Rightarrow> nat \<Rightarrow> string \<Rightarrow> ('w, unit) io" where
  "zk_mkdir Z c conn 0 path =
     (if path = [] \<or> path = ''/'' then ret () else fail (ErrCoord EndlessRecursion))"
| "zk_mkdir Z c conn (Suc fuel) path =
     (if path = [] \<or> path = ''/'' then ret ()
      else
        bindE (za_Exists Z conn path) (\<lambda>exists.
        if exists then ret ()
        else
          bindE (zk_mkdir Z c conn fuel (path_Dir path)) (\<lambda>_.
          tolerate (ErrCoord NodeExists) (za_Create Z conn path (Bytes []) 0 (zk_acl c PermAll)))))"

definition zk_create :: "'w zk_api \<Rightarrow> zk_client \<Rightarrow> nat \<Rightarrow> string \<Rightarrow> data \<Rightarrow> 32 word \<Rightarrow> ('w, string) io" where
  "zk_create Z c conn path d flag =
     bindE (zk_mkdir Z c conn (length path) (path_Dir path)) (\<lambda>_.
     za_Create Z conn path d flag (zk_acl c (or (or PermAdmin PermRead) PermWrite)))"

definition zk_update :: "'w zk_api \<Rightarrow> zk_client \<Rightarrow> nat \<Rightarrow> string \<Rightarrow> data \<Rightarrow> ('w, unit) io" where
  "zk_update Z c conn path d =
     bindE (za_Exists Z conn path) (\<lambda>exists.
     bindE (if exists then ret () else tolerate (ErrCoord NodeExists) (zk_create Z c conn path d 0)) (\<lambda>_.
     za_Set Z conn path d))"

text \<open>A method that needs the client's own fields in the call it hands to \<open>shell\<close>.\<close>

definition with_self :: "'w zk_api \<Rightarrow> (zk_client \<Rightarrow> nat \<Rightarrow> ('w, 'a) io) \<Rightarrow> (zk_client \<times> 'w, 'a) io" where
  "with_self Z fn = bindE (gets fst) (\<lambda>c. zk_Do Z (fn c))"

definition zk_Mkdir :: "'w zk_api \<Rightarrow> string \<Rightarrow> (zk_client \<times> 'w, unit) io" where
  "zk_Mkdir Z path = with_self Z (\<lambda>c conn. zk_mkdir Z c conn (length path) path)"

definition zk_Create :: "'w zk_api \<Rightarrow> string \<Rightarrow> data \<Rightarrow> (zk_client \<times> 'w, unit) io" where
  "zk_Create Z path d = with_self Z (\<lambda>c conn. bindE (zk_create Z c conn path d 0) (\<lambda>_. ret ()))"

definition zk_Update :: "'w zk_api \<Rightarrow> string \<Rightarrow> data \<Rightarrow> (zk_client \<times> 'w, unit) io" where
  "zk_Update Z path d = with_self Z (\<lambda>c conn. zk_update Z c conn path d)"

definition zk_Delete :: "'w zk_api \<Rightarrow> string \<Rightarrow> (zk_client \<times> 'w, unit) io" where
  "zk_Delete Z path = zk_Do Z (\<lambda>conn. tolerate (ErrCoord NoNode) (za_Delete Z conn path))"

definition zk_Read :: "'w zk_api \<Rightarrow> string \<Rightarrow> bool \<Rightarrow> (zk_client \<times> 'w, data option) io" where
  "zk_Read Z path must =
     zk_Do Z (\<lambda>conn.
       bindE (attempt (za_Get Z conn path)) (\<lambda>r.
       case r of
         Inl e \<Rightarrow> if e = ErrCoord NoNode \<and> \<not> must then ret None else fail e
       | Inr b \<Rightarrow> ret (Some b)))"

definition zk_List :: "'w zk_api \<Rightarrow> string \<Rightarrow> bool \<Rightarrow> (zk_client \<times> 'w, string list) io" where
  "zk_List Z path must =
     zk_Do Z (\<lambda>conn.
       bindE (attempt (za_Children Z conn path)) (\<lambda>r.
       case r of
         Inl e \<Rightarrow> if e = ErrCoord NoNode \<and> \<not> must then ret [] else fail e
       | Inr nodes \<Rightarrow> ret (map (\<lambda>node. path_Join [path, node]) nodes)))"

text \<open>A watch on a node that has just been created: one event, whatever it is, closes the signal.\<close>

definition zk_watch :: "'w zk_api \<Rightarrow> nat \<Rightarrow> string \<Rightarrow> ('w, unit) io" where
  "zk_watch Z conn path = bindE (za_GetW Z conn path) (\<lambda>_. ret ())"

definition zk_CreateEphemeral :: "'w zk_api \<Rightarrow> string \<Rightarrow> data \<Rightarrow> (zk_client \<times> 'w, unit) io" where
  "zk_CreateEphemeral Z path d =
     with_self Z (\<lambda>c conn.
       bindE (zk_create Z c conn path d FlagEphemeral) (\<lambda>p.
       zk_watch Z conn p))"

definition zk_CreateEphemeralInOrder :: "'w zk_api \<Rightarrow> string \<Rightarrow> data \<Rightarrow> (zk_client \<times> 'w, string) io" where
  "zk_CreateEphemeralInOrder Z path0 d =
     (let path = (if \<not> HasSuffix path0 ''/'' then path0 @ ''/'' else path0) in
      with_self Z (\<lambda>c conn.
        bindE (zk_create Z c conn path d (or FlagEphemeral FlagSequence)) (\<lambda>p.
        bindE (zk_watch Z conn p) (\<lambda>_. ret p))))"

definition zk_WatchInOrder :: "'w zk_api \<Rightarrow> string \<Rightarrow> (zk_client \<times> 'w, string list) io" where
  "zk_WatchInOrder Z path =
     bindE (zk_Mkdir Z path) (\<lambda>_.
     zk_Do Z (\<lambda>conn.
       bindE (za_ChildrenW Z conn path) (\<lambda>nodes.
       ret (map (\<lambda>node. path_Join [path, node]) (sort nodes)))))"

definition zk_Client :: "'w zk_api \<Rightarrow> (zk_client \<times> 'w) client" where
  "zk_Client Z =
     \<lparr>cl_Create = zk_Create Z, cl_Update = zk_Update Z, cl_Delete = zk_Delete Z,
      cl_Read = zk_Read Z, cl_List = zk_List Z\<rparr>"

text \<open>\<open>coordinate.NewCoordinator\<close>.\<close>

datatype coordinator = CoordZk zk_client | CoordEtcd etcd_client

definition NewCoordinator :: "'w zk_api \<Rightarrow> (etcd_config \<Rightarrow> error + unit) \<Rightarrow> string \<Rightarrow> string \<Rightarrow> string \<Rightarrow> int
    \<Rightarrow> ('w, coordinator) io" where
  "NewCoordinator Z connect name addrlist auth timeout =
     (if name = ''zk'' \<or> name = ''zookeeper'' then bindE (zk_New Z addrlist auth timeout) (\<lambda>c. ret (CoordZk c))
      else if name = ''etcd'' then bindE (liftSum (etcd_New connect addrlist auth timeout)) (\<lambda>c. ret (CoordEtcd c))
      else fail (ErrCoord (InvalidCoordinator name)))"

end
