(* ===== verification/Boot.thy ===== *)
theory Boot
  imports Durability TemplateFiles FileWriter Zookeeper
begin

section \<open>The dashboard program (cmd/dashboard/main.go)\<close>

text \<open>
  How \<open>main\<close> puts the parts together: the log file, the mappers loaded from the coordinator one
  after the other, the service over them. Reading the configuration, the HTTP server and the
  signals are libraries. The theorem says what a restart is for: the new service starts
  well-formed, with the groups the coordinator holds.
\<close>

definition boot :: "'w client \<Rightarrow> 'w fsys \<Rightarrow> (json \<Rightarrow> string) \<Rightarrow> dashboard_config \<Rightarrow> topom_mapper \<Rightarrow> ('w, 'w svc) io" where
  "boot C F marshal config tm =
     bindE (NewGroupMapper (ProductName config) C) (\<lambda>gm.
     bindE (NewSentinelMapper (ProductName config) C) (\<lambda>sm.
     bindE (NewGSLBMapper (ProductName config) C) (\<lambda>bm.
     bindE (NewTemplateFileMapper C F marshal (TemplateFileScanDir config)) (\<lambda>tf w.
     (Inr (NewService config tm gm sm bm (tpTfs tf) w), w)))))"

text \<open>\<open>io.MultiWriter\<close>: one writer after the other, until one fails or writes too little.\<close>

definition multi_write :: "(string \<Rightarrow> ('w, 64 word) io) \<Rightarrow> (string \<Rightarrow> ('w, 64 word) io) \<Rightarrow> string \<Rightarrow> ('w, 64 word) io" where
  "multi_write w1 w2 b =
     bindE (w1 b) (\<lambda>n.
     if n \<noteq> of_nat (length b) then fail (ErrExt ''short write'')
     else bindE (w2 b) (\<lambda>n'. if n' \<noteq> of_nat (length b) then fail (ErrExt ''short write'') else ret n'))"

text \<open>Both programs set up their log from the same five settings of their configuration.\<close>

definition init_log :: "'w logfs \<Rightarrow> (string \<Rightarrow> (file_writer \<times> 'w, 64 word) io) \<Rightarrow> (file_writer \<times> 'w) logenv
    \<Rightarrow> (message \<Rightarrow> string) \<Rightarrow> string \<Rightarrow> int \<Rightarrow> int \<Rightarrow> bool \<Rightarrow> string \<Rightarrow> (file_writer \<times> 'w) logger
    \<Rightarrow> 'w \<Rightarrow> (error + (file_writer \<times> (file_writer \<times> 'w) logger)) \<times> 'w" where
  "init_log L stdout E fmt path days mb screen level std w =
     (case NewFileWriter L path [ReserveDays days, LogFileMaxSize (word_of_int mb)] w of
        (Inl e, w1) \<Rightarrow> (Inl e, w1)
      | (Inr f, w1) \<Rightarrow>
          (let writer = (if screen then multi_write (fw_Write L) stdout else fw_Write L);
               std' = SetFlags (or LstdFlags Lshortfile) (SetLevel (StringToLevel level) (SetOutput writer std));
               (f', w2) = snd (std_call E fmt std' SevInfo (Print [''main: initLog init log succeed'']) (f, w1))
           in (Inr (f', std'), w2)))"

definition initLog :: "'w logfs \<Rightarrow> (string \<Rightarrow> (file_writer \<times> 'w, 64 word) io) \<Rightarrow> (file_writer \<times> 'w) logenv
    \<Rightarrow> (message \<Rightarrow> string) \<Rightarrow> dashboard_config \<Rightarrow> (file_writer \<times> 'w) logger
    \<Rightarrow> 'w \<Rightarrow> (error + (file_writer \<times> (file_writer \<times> 'w) logger)) \<times> 'w" where
  "initLog L stdout E fmt c =
     init_log L stdout E fmt (LogFilePath c) (LogReserveDays c) (LogMaxSize c) (LogPrintScreen c) (LogLevel c)"

definition FE_initLog :: "'w logfs \<Rightarrow> (string \<Rightarrow> (file_writer \<times> 'w, 64 word) io) \<Rightarrow> (file_writer \<times> 'w) logenv
    \<Rightarrow> (message \<Rightarrow> string) \<Rightarrow> fe_config \<Rightarrow> (file_writer \<times> 'w) logger
    \<Rightarrow> 'w \<Rightarrow> (error + (file_writer \<times> (file_writer \<times> 'w) logger)) \<times> 'w" where
  "FE_initLog L stdout E fmt c =
     init_log L stdout E fmt (feLogFilePath c) (feLogReserveDays c) (feLogMaxSize c) (feLogPrintScreen c) (feLogLevel c)"

subsection \<open>How the programs start\<close>

text \<open>
  What becomes of \<open>main\<close> before it serves: the usage is printed, a default configuration that
  does not validate panics, a bad configuration or log file is fatal, what fails after that ends
  \<open>main\<close> normally.
\<close>

datatype 'a started = Usage | Panicked | Fatal | Returned | Running 'a

definition main_start :: "(string \<Rightarrow> dashboard_config \<Rightarrow> (error + unit) \<times> dashboard_config) \<Rightarrow> 'w logfs
    \<Rightarrow> (string \<Rightarrow> (file_writer \<times> 'w, 64 word) io) \<Rightarrow> (file_writer \<times> 'w) logenv \<Rightarrow> (message \<Rightarrow> string)
    \<Rightarrow> (file_writer \<times> 'w) logger \<Rightarrow> (string \<Rightarrow> string \<Rightarrow> string \<Rightarrow> ('w, 'w client) io) \<Rightarrow> 'w fsys
    \<Rightarrow> (json \<Rightarrow> string) \<Rightarrow> (string \<Rightarrow> string \<Rightarrow> topom_mapper) \<Rightarrow> string \<Rightarrow> 'w \<Rightarrow> 'w svc started \<times> 'w" where
  "main_start decode L stdout E fmt std newCoordinator F marshal newTopomMapper configFile w =
     (if configFile = [] then (Usage, w)
      else (case loadConfig decode configFile of
              None \<Rightarrow> (Panicked, w)
            | Some (Inl _) \<Rightarrow> (Fatal, w)
            | Some (Inr config) \<Rightarrow>
                (case initLog L stdout E fmt config std w of
                   (Inl _, w1) \<Rightarrow> (Fatal, w1)
                 | (Inr _, w1) \<Rightarrow>
                     (case newCoordinator (CoordinatorName config) (CoordinatorAddr config) (CoordinatorAuth config) w1 of
                        (Inl _, w2) \<Rightarrow> (Returned, w2)
                      | (Inr C, w2) \<Rightarrow>
                          (case boot C F marshal config (newTopomMapper (ProductName config) (AdminAddr config)) w2 of
                             (Inl _, w3) \<Rightarrow> (Returned, w3)
                           | (Inr s, w3) \<Rightarrow> (Running s, w3))))))"

text \<open>
  How the front end chooses where its routes come from: an unknown coordinator is fatal, one
  that cannot be reached ends \<open>main\<close>.
\<close>

datatype config_loader = StaticLoader string | DynamicLoader

definition fe_loader :: "(string \<Rightarrow> string \<Rightarrow> string \<Rightarrow> ('w, coordinator) io) \<Rightarrow> fe_config \<Rightarrow> 'w \<Rightarrow> config_loader started \<times> 'w" where
  "fe_loader newCoordinator c w =
     (if feCoordinatorName c = ''filesystem'' then (Running (StaticLoader (feCoordinatorAddr c)), w)
      else if feCoordinatorName c = ''zookeeper'' \<or> feCoordinatorName c = ''etcd''
      then (case newCoordinator (feCoordinatorName c) (feCoordinatorAddr c) (feCoordinatorAuth c) w of
              (Inl _, w') \<Rightarrow> (Returned, w')
            | (Inr _, w') \<Rightarrow> (Running DynamicLoader, w'))
      else (Fatal, w))"

definition fe_main_start :: "(error + string) \<Rightarrow> (string \<Rightarrow> fe_config \<Rightarrow> (error + unit) \<times> fe_config) \<Rightarrow> 'w logfs
    \<Rightarrow> (string \<Rightarrow> (file_writer \<times> 'w, 64 word) io) \<Rightarrow> (file_writer \<times> 'w) logenv \<Rightarrow> (message \<Rightarrow> string)
    \<Rightarrow> (file_writer \<times> 'w) logger \<Rightarrow> (string \<Rightarrow> ('w, unit) io)
    \<Rightarrow> (string \<Rightarrow> string \<Rightarrow> string \<Rightarrow> ('w, coordinator) io) \<Rightarrow> string \<Rightarrow> 'w \<Rightarrow> config_loader started \<times> 'w" where
  "fe_main_start binpath decode L stdout E fmt std stat newCoordinator configFile w =
     (if configFile = [] then (Usage, w)
      else (case FE_loadConfig binpath decode configFile of
              None \<Rightarrow> (Panicked, w)
            | Some (Inl _) \<Rightarrow> (Fatal, w)
            | Some (Inr config) \<Rightarrow>
                (case FE_initLog L stdout E fmt config std w of
                   (Inl _, w1) \<Rightarrow> (Fatal, w1)
                 | (Inr _, w1) \<Rightarrow>
                     (case stat (path_Join [feAssetsDir config, ''index.html'']) w1 of
                        (Inl _, w2) \<Rightarrow> (Fatal, w2)
                      | (Inr _, w2) \<Rightarrow> fe_loader newCoordinator config w2))))"

text \<open>A service that runs was booted from a valid configuration; the default one never panics.\<close>

lemma main_start_running:
  assumes "main_start decode L stdout E fmt std newCoordinator F marshal newTopomMapper path w = (Running s, w')"
  obtains config C u where "loadConfig decode path = Some (Inr config)" and "Validate config = Inr ()"
    and "boot C F marshal config (newTopomMapper (ProductName config) (AdminAddr config)) u = (Inr s, w')"
  using assms that loadConfig_valid
  by (auto simp: main_start_def split: if_splits option.splits sum.splits prod.splits)

lemma main_start_no_panic:
  "fst (main_start decode L stdout E fmt std newCoordinator F marshal newTopomMapper path w) \<noteq> Panicked"
  by (auto simp: main_start_def loadConfig_no_panic split: option.splits sum.splits prod.splits)

lemma fe_main_start_no_panic:
  "fst (fe_main_start (Inr b) decode L stdout E fmt std stat newCoordinator path w) \<noteq> Panicked"
  by (auto simp: fe_main_start_def fe_loader_def FE_no_panic split: option.splits sum.splits prod.splits)

text \<open>
  The default configuration has no log file, and nothing checks that there is one: a program
  that keeps this default never serves, since no system opens a file without a name.
\<close>

lemma no_log_file_fatal:
  assumes "path \<noteq> []" and "loadConfig decode path = Some (Inr config)" and "LogFilePath config = []"
    and "\<And>w. \<exists>e. fst (lf_OpenFile L [] w) = Inl e"
  shows "fst (main_start decode L stdout E fmt std newCoordinator F marshal newTopomMapper path w) = Fatal"
proof -
  have no_file: "\<exists>e u. NewFileWriter L [] options w = (Inl e, u)" for options
  proof -
    obtain r w1 where mk: "lf_MkdirAll L (path_Dir []) w = (r, w1)" by fastforce
    obtain e w2 where "lf_OpenFile L [] w1 = (Inl e, w2)" using assms(4) by (metis prod.collapse)
    with mk show ?thesis by (cases r) (simp_all add: NewFileWriter_def bindE_def)
  qed
  obtain e u where "initLog L stdout E fmt config std w = (Inl e, u)"
    using no_file [of "[ReserveDays (LogReserveDays config), LogFileMaxSize (word_of_int (LogMaxSize config))]"] assms(3)
    by (auto simp: initLog_def init_log_def)
  with assms(1,2) show ?thesis by (simp add: main_start_def)
qed

subsection \<open>Loading changes nothing at the coordinator\<close>

lemma mset_of_same_map:
  assumes "distinct (map fst xs)" and "distinct (map fst ys)" and "map_of xs = map_of ys"
  shows "mset xs = mset ys"
proof -
  have "set xs = set ys" using map_of_inject_set [OF assms(1,2)] assms(3) by blast
  moreover have "distinct xs" "distinct ys" using assms(1,2) by (simp_all add: distinct_map)
  ultimately show ?thesis by (simp add: set_eq_iff_mset_eq_distinct)
qed

lemma groups_inv_same_map:
  assumes "groups_inv m" and "gmProduct m' = gmProduct m" and "distinct (map fst (gmGroups m'))"
    and "map_of (gmGroups m') = map_of (gmGroups m)"
  shows "groups_inv m'"
proof -
  have "mset (gmGroups m') = mset (gmGroups m)"
    using assms by (intro mset_of_same_map) (simp_all add: groups_inv_def gm_ok_def)
  moreover have "m\<lparr>gmGroups := gmGroups m'\<rparr> = m'" using assms(2) by simp
  ultimately show ?thesis using groups_inv_order [OF _ assms(1)] by metis
qed

lemma groupMapper_load_distinct:
  "distinct (map fst gs) \<Longrightarrow> groupMapper_load C paths gs w = (Inr gs', w') \<Longrightarrow> distinct (map fst gs')"
proof (induction paths arbitrary: gs w)
  case Nil
  then show ?case by (simp add: ret_def)
next
  case (Cons p paths)
  from Cons.prems(2) obtain g u where "groupMapper_load C paths (AList.update (gName g) g gs) u = (Inr gs', w')"
    by (auto elim!: bindE_InrD)
  from Cons.IH [OF distinct_update [OF Cons.prems(1)] this] show ?case .
qed

lemma NewGroupMapper_distinct:
  assumes "NewGroupMapper p C w = (Inr m, w')"
  shows "distinct (map fst (gmGroups m))"
proof -
  from assms obtain paths u where "groupMapper_load C paths [] u = (Inr (gmGroups m), w')"
    by (auto simp: NewGroupMapper_def ret_def elim!: bindE_InrD)
  from groupMapper_load_distinct [OF _ this] show ?thesis by simp
qed

text \<open>What the nodes of the sentinels and of the balancers must be for a start to be well-formed.\<close>

definition nodes_ok :: "('w \<Rightarrow> string \<Rightarrow> data option) \<Rightarrow> string \<Rightarrow> 'w \<Rightarrow> bool" where
  "nodes_ok view p w \<longleftrightarrow>
     (\<forall>d sn. view w (SentinelPath p) = Some d \<and> Sentinel_Decode d = Inr sn \<longrightarrow> distinct (snServers sn)) \<and>
     (\<forall>q d g. ancestor GSLBDir q \<and> view w q = Some d \<and> GSLB_Decode d = Inr g \<longrightarrow> distinct (glServers g))"

context coord_client
begin

lemma read_keeps: "keeps (\<lambda>w. view w = v) (cl_Read C p must)"
  by (rule keepsI) (metis prod.collapse read_frame)

lemma list_keeps: "keeps (\<lambda>w. view w = v) (cl_List C p must)"
  by (rule keepsI) (metis prod.collapse list_frame)

lemmas loads = read_keeps list_keeps keeps_bind keeps_liftSum keeps_ret keeps_if

lemma groupMapper_load_keeps: "keeps (\<lambda>w. view w = v) (groupMapper_load C paths gs)"
  by (induction paths arbitrary: gs; simp; intro loads)

lemma loadProducts_keeps: "keeps (\<lambda>w. view w = v) (gslbMapper_loadProducts C p pPaths gs)"
  by (induction pPaths arbitrary: gs; simp; intro conjI impI loads)

lemma gslb_load_keeps: "keeps (\<lambda>w. view w = v) (gslbMapper_load C p paths gs)"
  by (induction paths arbitrary: gs; simp; intro loads loadProducts_keeps)

lemma mappers_keep:
  "keeps (\<lambda>w. view w = v) (NewGroupMapper p C)"
  "keeps (\<lambda>w. view w = v) (NewSentinelMapper p C)"
  "keeps (\<lambda>w. view w = v) (NewGSLBMapper p C)"
  unfolding NewGroupMapper_def NewSentinelMapper_def NewGSLBMapper_def
  by (intro loads groupMapper_load_keeps gslb_load_keeps; simp split: option.split; intro conjI allI impI loads)+

text \<open>What the sentinels and the balancers are loaded as.\<close>

lemma NewSentinelMapper_ok:
  assumes "plain_comp p" and "nodes_ok view p w" and "NewSentinelMapper p C w = (Inr m, w')"
  shows "smProduct m = p \<and> sentinel_inv m"
proof -
  from assms(3) obtain d u where rd: "cl_Read C (SentinelPath p) False w = (Inr d, u)"
    and m: "m = \<lparr>smProduct = p, smSentinel = zero_sentinel\<rparr> \<or>
      (\<exists>x sn. d = Some x \<and> Sentinel_Decode x = Inr sn \<and> m = \<lparr>smProduct = p, smSentinel = sn\<rparr>)"
    by (auto simp: NewSentinelMapper_def ret_def liftSum_def elim!: bindE_InrD split: option.splits)
  from read_ok [OF SentinelPath_node [OF assms(1)] rd] assms(2) m show ?thesis
    by (auto simp: sentinel_inv_def nodes_ok_def zero_sentinel_def)
qed

lemma loadProducts_ok:
  assumes "\<forall>q d g. ancestor GSLBDir q \<and> v q = Some d \<and> GSLB_Decode d = Inr g \<longrightarrow> distinct (glServers g)"
    and "view w = v" and "list_all (\<lambda>q. node_path q \<and> ancestor GSLBDir q) pPaths"
    and "distinct (map fst gs) \<and> list_all gslb_named gs"
    and "gslbMapper_loadProducts C p pPaths gs w = (Inr gs', w')"
  shows "distinct (map fst gs') \<and> list_all gslb_named gs'"
  using assms(2-)
proof (induction pPaths arbitrary: gs w)
  case Nil
  then show ?case by (simp add: ret_def)
next
  case (Cons q qs)
  show ?case
  proof (cases "path_Base q = p")
    case False
    with Cons show ?thesis by simp
  next
    case True
    with Cons.prems(4) obtain d u g where rd: "cl_Read C q True w = (Inr d, u)" and g: "GSLB_Decode (bytes_of d) = Inr g"
      and load: "gslbMapper_loadProducts C p qs (if glServers g = [] then gs else AList.update (glName g) g gs) u = (Inr gs', w')"
      by (auto simp: liftSum_def elim!: bindE_InrD)
    from Cons.prems(2) have q: "node_path q" "ancestor GSLBDir q" by simp_all
    from read_ok [OF q(1) rd] Cons.prems(1) have d: "d = v q" by simp
    with g have "d \<noteq> None" by (auto simp: bytes_of_def GSLB_Decode_def jsonDecode_def split: option.splits)
    with d g assms(1) q(2) have "distinct (glServers g)" by (auto simp: bytes_of_def)
    then have "gslb_named (glName g, g)" by (simp add: gslb_named_def)
    then have "distinct (map fst (AList.update (glName g) g gs)) \<and> list_all gslb_named (AList.update (glName g) g gs)"
      using Cons.prems(3) by (simp add: distinct_update list_all_update)
    with Cons.IH [OF _ _ _ load] Cons.prems read_frame [OF rd] show ?thesis by (auto split: if_splits)
  qed
qed

lemma gslb_load_ok:
  assumes "\<forall>q d g. ancestor GSLBDir q \<and> v q = Some d \<and> GSLB_Decode d = Inr g \<longrightarrow> distinct (glServers g)"
    and "view w = v" and "list_all (\<lambda>q. node_path q \<and> child_of GSLBDir q) paths"
    and "distinct (map fst gs) \<and> list_all gslb_named gs"
    and "gslbMapper_load C p paths gs w = (Inr gs', w')"
  shows "distinct (map fst gs') \<and> list_all gslb_named gs'"
  using assms(2-)
proof (induction paths arbitrary: gs w)
  case Nil
  then show ?case by (simp add: ret_def)
next
  case (Cons q qs)
  from Cons.prems(4) obtain pPaths u gs1 u1 where ls: "cl_List C q False w = (Inr pPaths, u)"
    and lp: "gslbMapper_loadProducts C p pPaths gs u = (Inr gs1, u1)"
    and rest: "gslbMapper_load C p qs gs1 u1 = (Inr gs', w')"
    by (auto elim!: bindE_InrD)
  from Cons.prems(2) have q: "node_path q" "child_of GSLBDir q" by simp_all
  have "list_all (\<lambda>r. node_path r \<and> ancestor GSLBDir r) pPaths"
    using list_ok [OF q(1) ls] q(2) by (auto simp: list_all_iff ancestor_def HasPrefix_iff child_of_iff)
  moreover have u: "view u = v" using list_frame [OF ls] Cons.prems(1) by simp
  moreover have "view u1 = v" using keepsD [OF loadProducts_keeps u] lp by (metis snd_conv)
  ultimately show ?case
    using Cons.IH rest Cons.prems(2) loadProducts_ok [OF assms(1) _ _ Cons.prems(3) lp] by simp
qed

lemma GSLBDir_node: "node_path GSLBDir"
  by code_simp

lemma NewGSLBMapper_ok:
  assumes "nodes_ok view p w" and "NewGSLBMapper p C w = (Inr m, w')"
  shows "bmProduct m = p \<and> gslb_inv m"
proof -
  from assms(2) obtain paths u where ls: "cl_List C GSLBDir False w = (Inr paths, u)"
    and load: "gslbMapper_load C p paths [] u = (Inr (bmGslbs m), w')" and m: "bmProduct m = p"
    by (auto simp: NewGSLBMapper_def ret_def elim!: bindE_InrD)
  have "list_all (\<lambda>q. node_path q \<and> child_of GSLBDir q) paths"
    using list_ok [OF GSLBDir_node ls] by (simp add: list_all_iff)
  moreover have "view u = view w" by (rule list_frame [OF ls])
  moreover have "\<forall>q d g. ancestor GSLBDir q \<and> view w q = Some d \<and> GSLB_Decode d = Inr g \<longrightarrow> distinct (glServers g)"
    using assms(1) by (simp add: nodes_ok_def)
  ultimately show ?thesis using gslb_load_ok [OF _ _ _ _ load] m by (simp add: gslb_inv_def)
qed

end

subsection \<open>Restart\<close>

context template_host
begin

lemma match_files_keeps: "keeps (\<lambda>w. view w = v) (match_files F fs files)"
  by (induction fs arbitrary: files; simp; intro loads keeps_attempt lstat_frame; simp split: sum.split prod.split; blast)

lemma load_templates_keeps: "keeps (\<lambda>w. view w = v) (load_templates C marshal paths tfs)"
  by (induction paths arbitrary: tfs; simp; intro loads)

lemma with_file_keeps:
  assumes "keeps (\<lambda>w. view w = v) m" and "\<And>fd. keeps (\<lambda>w. view w = v) (f fd)"
  shows "keeps (\<lambda>w. view w = v) (with_file F m f)"
  using with_file_frame [OF assms(1), where f = f and Q = "\<lambda>_. True"] assms(2) by simp

lemma NewTemplateFileMapper_keeps: "keeps (\<lambda>w. view w = v) (NewTemplateFileMapper C F marshal scanDir)"
  unfolding NewTemplateFileMapper_def tf_init_def getMatchFiles_def write_template_def
  by (intro loads keeps_attempt stat_frame load_templates_keeps glob_frame match_files_keeps keeps_forE;
      simp split: prod.split sum.split; intro allI impI conjI loads mkdir_frame with_file_keeps keeps_mapErr create_frame write_frame)

lemma load_templates_stored:
  assumes "list_all (\<lambda>p. node_path p \<and> child_of TemplateFileDir p) paths"
    and "templates_ok tfs" and "tf_stored marshal view tfs w" and "load_templates C marshal paths tfs w = (Inr tfs', w')"
  shows "templates_ok tfs' \<and> tf_stored marshal view tfs' w'"
  using assms
proof (induction paths arbitrary: tfs w)
  case Nil
  then show ?case by (simp add: ret_def)
next
  case (Cons path paths)
  let ?n = "path_Base path"
  from Cons.prems(4) obtain d u where rd: "cl_Read C path True w = (Inr d, u)"
    and rest: "load_templates C marshal paths (AList.update ?n (template_of (text_of marshal (bytes_of d))) tfs) u = (Inr tfs', w')"
    by (auto elim!: bindE_InrD)
  have dir: "TemplateFileDir = ''/cache-manager/template-files''" by code_simp
  from Cons.prems(1) child_base [of path TemplateFileDir] have n: "plain_comp ?n" "node_path path"
    and path: "path = TemplateFilePath ?n"
    by (auto simp: TemplateFilePath_plain dir)
  from read_ok [OF n(2) rd] read_must [OF n(2) rd] obtain x where x: "d = Some x" "view w path = Some x"
    by (cases d) auto
  have "templates_ok (AList.update ?n (template_of (text_of marshal (bytes_of d))) tfs)"
    by (rule templates_ok_update [OF Cons.prems(2) n(1)])
  moreover have "tf_stored marshal view (AList.update ?n (template_of (text_of marshal (bytes_of d))) tfs) u"
    using Cons.prems(3) x path read_frame [OF rd]
    by (auto simp: tf_stored_def tf_stored_but_def map_of_update template_of_def bytes_of_def split: if_splits)
  ultimately show ?case using Cons.IH [OF _ _ _ rest] Cons.prems(1) by simp
qed

text \<open>A mapper that has just been made holds what the coordinator holds.\<close>

lemma NewTemplateFileMapper_stored:
  assumes "NewTemplateFileMapper C F marshal scanDir w = (Inr m, w')"
  shows "templates_ok (tpTfs m) \<and> tf_stored marshal view (tpTfs m) w'"
proof -
  from assms obtain st w1 x w2 paths w3 w4 where st: "attempt (fs_Stat F (path_Dir scanDir)) w = (Inr st, w1)"
    and mk: "(case st of Inr _ \<Rightarrow> ret () | Inl _ \<Rightarrow> fs_MkdirAll F (path_Dir scanDir)) w1 = (Inr x, w2)"
    and ls: "cl_List C TemplateFileDir False w2 = (Inr paths, w3)"
    and ld: "load_templates C marshal paths [] w3 = (Inr (tpTfs m), w4)"
    unfolding NewTemplateFileMapper_def tf_init_def by (auto simp: ret_def elim!: bindE_InrD)
  have "node_path TemplateFileDir" by code_simp
  from list_ok [OF this ls] have "list_all (\<lambda>p. node_path p \<and> child_of TemplateFileDir p) paths"
    by (simp add: list_all_iff)
  from load_templates_stored [OF this _ _ ld] have ok: "templates_ok (tpTfs m)" "tf_stored marshal view (tpTfs m) w4"
    by (simp_all add: templates_ok_def tf_stored_def tf_stored_but_def)
  have v1: "view w1 = view w" using keepsD [OF keeps_attempt [OF stat_frame [where v = "view w"]] refl] st by (metis snd_conv)
  have "view w2 = view w"
    using mk v1 keepsD [OF mkdir_frame v1] by (auto simp: ret_def split: sum.splits) (metis snd_conv)
  then have "view w4 = view w"
    using list_frame [OF ls] keepsD [OF load_templates_keeps [where v = "view w"]] ld by (metis snd_conv)
  moreover have "view w' = view w"
    using keepsD [OF NewTemplateFileMapper_keeps [where v = "view w"] refl] assms by (metis snd_conv)
  ultimately show ?thesis using ok by (simp add: tf_stored_def tf_stored_but_def)
qed

text \<open>The monitor that runs on it, whatever each of its looks at \<open>done\<close> finds.\<close>

lemma mapper_mirrors:
  "NewTemplateFileMapper C F marshal scanDir w = (Inr m, w1) \<Longrightarrow> monitor C F ds (m, w1) = (m', w') \<Longrightarrow>
   templates_ok (tpTfs m') \<and> tf_stored marshal view (tpTfs m') w'"
  using NewTemplateFileMapper_stored monitor_stored by blast

lemma boot_restores:
  assumes "groups_inv m" and "list_all (group_ints \<circ> snd) (gmGroups m)" and "gm_stored view m w"
    and "nodes_ok view (gmProduct m) w" and "ProductName config = gmProduct m" and "tmProduct tm = gmProduct m"
    and "boot C F marshal config tm w = (Inr s, w')"
  shows "svc_inv s \<and> durable {} view s \<and> map_of (gmGroups (s_groups s)) = map_of (gmGroups m)"
proof -
  from assms(5,7) obtain gm w1 sm w2 bm w3 tf w4 where
    gm: "NewGroupMapper (gmProduct m) C w = (Inr gm, w1)" and
    sm: "NewSentinelMapper (gmProduct m) C w1 = (Inr sm, w2)" and
    bm: "NewGSLBMapper (gmProduct m) C w2 = (Inr bm, w3)" and
    tf: "NewTemplateFileMapper C F marshal (TemplateFileScanDir config) w3 = (Inr tf, w4)" and
    s: "s = NewService config tm gm sm bm (tpTfs tf) w4"
    by (auto simp: boot_def elim!: bindE_InrD)
  have v1: "view w1 = view w" using keepsD [OF mappers_keep(1) [where v = "view w"] refl] gm by (metis snd_conv)
  have v2: "view w2 = view w" using keepsD [OF mappers_keep(2) v1] sm by (metis snd_conv)
  have v3: "view w3 = view w" using keepsD [OF mappers_keep(3) v2] bm by (metis snd_conv)
  have v4: "view w4 = view w" using keepsD [OF NewTemplateFileMapper_keeps v3] tf by (metis snd_conv)
  from assms(1) have ok: "gm_ok m" and plain: "plain_comp (gmProduct m)" by (simp_all add: groups_inv_def gm_ok_def)
  from NewGroupMapper_stored [OF ok assms(2,3) gm] have
    same: "gmProduct gm = gmProduct m" "map_of (gmGroups gm) = map_of (gmGroups m)" by simp_all
  have gi: "groups_inv gm" by (rule groups_inv_same_map [OF assms(1) same(1) NewGroupMapper_distinct [OF gm] same(2)])
  from assms(4) have ok1: "nodes_ok view (gmProduct m) w1" and ok2: "nodes_ok view (gmProduct m) w2"
    by (simp_all only: nodes_ok_def v1 v2)
  from NewSentinelMapper_ok [OF plain ok1 sm] NewGSLBMapper_ok [OF ok2 bm] gi
  have inv: "svc_inv s" by (simp add: svc_inv_def s NewService_def)
  have "gm_stored view gm w4" using assms(3) same v4 by (simp add: gm_stored_def)
  then have "durable {} view s"
    using same NewSentinelMapper_ok [OF plain ok1 sm] NewGSLBMapper_ok [OF ok2 bm] plain assms(6)
    by (simp add: durable_def one_product_def stored_but_empty s NewService_def)
  with inv same(2) show ?thesis by (simp add: s NewService_def)
qed

end

subsection \<open>Shutting down\<close>

text \<open>
  \<open>main\<close> waits until the service is no longer online. A \<open>Close\<close> whose delete fails leaves it
  online, and every later \<open>Close\<close> does nothing.
\<close>

lemma Close_again: "s_closed s \<Longrightarrow> service_Close E s = (Inr (), s)"
  by (simp add: service_Close_def bindE_def gets_def ret_def)

lemma Close_effect:
  assumes "\<not> s_closed s" and "service_Close E s = (r, t)"
  shows "s_closed t \<and> s_groups t = s_groups s \<and> service_Close E t = (Inr (), t) \<and>
    s_online t = (s_online s \<and> (\<exists>e. r = Inl e)) \<and> (r = Inr () \<or> r = Inl (ErrDeleteTopom (ProductName (s_config s))))"
proof -
  have "s_closed t \<and> s_groups t = s_groups s \<and>
    s_online t = (s_online s \<and> (\<exists>e. r = Inl e)) \<and> (r = Inr () \<or> r = Inl (ErrDeleteTopom (ProductName (s_config s))))"
    using assms
    by (auto simp: service_Close_def io_defs onStatsPool_def onHaPool_def onTopom_def split: prod.splits if_splits sum.splits)
  with Close_again show ?thesis by blast
qed

text \<open>The calls of \<open>Close\<close> that the goroutines of \<open>main\<close> and \<open>main\<close> itself defer.\<close>

fun closes :: "'w env \<Rightarrow> nat \<Rightarrow> 'w svc \<Rightarrow> 'w svc" where
  "closes E 0 s = s"
| "closes E (Suc k) s = closes E k (snd (service_Close E s))"

lemma closes_fixed: "service_Close E s = (Inr (), s) \<Longrightarrow> closes E k s = s"
  by (induction k) simp_all

end
