(* ===== verification/FrontEnd.thy ===== *)
theory FrontEnd
  imports Mappers
begin

section \<open>The front end's routes (cmd/fe/main.go)\<close>

text \<open>
  The front end forwards requests to the dashboards of the products. It learns where they are
  from a loader: \<open>StaticLoader\<close> reads a file, \<open>DynamicLoader\<close> reads the nodes the dashboards
  created at the coordinator.
  \<^item> A route is the host that requests of a product are forwarded to; the proxying itself is
    \<open>net/http/httputil\<close>. The parameter \<open>now\<close> is the clock, in nanoseconds.
  \<^item> Only \<open>GetNames\<close> reloads, when the last load is five seconds old; \<open>GetProxy\<close> takes the
    routes as they are. \<open>None\<close> as the time of the last load is Go's zero time.
\<close>

subsection \<open>Loaders\<close>

definition set_entry_field :: "string \<Rightarrow> json \<Rightarrow> string \<times> string \<Rightarrow> (string \<times> string) option" where
  "set_entry_field k v e =
     (if k = ''name'' then map_option (\<lambda>x. (x, snd e)) (get_str (fst e) v)
      else if k = ''dashboard'' then map_option (\<lambda>x. (fst e, x)) (get_str (snd e) v)
      else Some e)"

text \<open>The elements are pointers: \<open>null\<close> is a nil pointer, here \<open>None\<close>.\<close>

definition entry_of_json :: "json \<Rightarrow> (string \<times> string) option option" where
  "entry_of_json v = (if v = JNull then Some None else map_option Some (get_struct set_entry_field ([], []) v))"

definition entries_of_json :: "json \<Rightarrow> (string \<times> string) option list option" where
  "entries_of_json v = get_list entry_of_json v"

fun static_entries :: "(string \<times> string) option list \<Rightarrow> (string \<times> string) list \<Rightarrow> error + (string \<times> string) list" where
  "static_entries [] m = Inr m"
| "static_entries (None # es) m = Inl (ErrExt ''nil pointer dereference'')"
| "static_entries (Some (name, dashboard) # es) m = static_entries es (AList.update name dashboard m)"

definition StaticLoader_Reload :: "(string \<Rightarrow> ('w, data) io) \<Rightarrow> string \<Rightarrow> ('w, (string \<times> string) list) io" where
  "StaticLoader_Reload readFile path =
     bindE (readFile path) (\<lambda>b.
     bindE (liftSum (jsonDecode entries_of_json b)) (\<lambda>es.
     liftSum (static_entries es [])))"

fun dynamic_entries :: "'w client \<Rightarrow> string list \<Rightarrow> (string \<times> string) list \<Rightarrow> ('w, (string \<times> string) list) io" where
  "dynamic_entries C [] m = ret m"
| "dynamic_entries C (path # paths) m =
     bindE (attempt (cl_Read C (TopomPath (path_Base path)) False)) (\<lambda>r.
     dynamic_entries C paths
       (case r of
          Inr (Some b) \<Rightarrow>
            (case Topom_Decode b of Inl _ \<Rightarrow> m | Inr t \<Rightarrow> AList.update (path_Base path) (tpAdminAddr t) m)
        | _ \<Rightarrow> m))"

definition DynamicLoader_Reload :: "'w client \<Rightarrow> ('w, (string \<times> string) list) io" where
  "DynamicLoader_Reload C = bindE (cl_List C ProductDir False) (\<lambda>paths. dynamic_entries C paths [])"

subsection \<open>Routes\<close>

record reverse_proxy =
  rpLoadAt :: "int option"
  rpRoutes :: "(string \<times> string) list"

definition NewReverseProxy :: reverse_proxy where
  "NewReverseProxy = \<lparr>rpLoadAt = None, rpRoutes = []\<rparr>"

fun add_routes :: "(string \<times> string) list \<Rightarrow> (string \<times> string) list \<Rightarrow> (string \<times> string) list" where
  "add_routes [] routes = routes"
| "add_routes ((name, host) # m) routes =
     add_routes m (if name = [] \<or> host = [] then routes else AList.update name host routes)"

definition rp_reload :: "('w \<Rightarrow> int) \<Rightarrow> ('w, (string \<times> string) list) io \<Rightarrow> int \<Rightarrow> reverse_proxy \<times> 'w \<Rightarrow> reverse_proxy \<times> 'w" where
  "rp_reload now loader d s =
     (if (case rpLoadAt (fst s) of None \<Rightarrow> False | Some t \<Rightarrow> now (snd s) - t < d) then s
      else (case loader (snd s) of (r, w) \<Rightarrow>
        (\<lparr>rpLoadAt = Some (now w), rpRoutes = (case r of Inl _ \<Rightarrow> [] | Inr m \<Rightarrow> add_routes m [])\<rparr>, w)))"

definition GetProxy :: "reverse_proxy \<Rightarrow> string \<Rightarrow> string option" where
  "GetProxy r name = map_of (rpRoutes r) name"

definition GetNames :: "('w \<Rightarrow> int) \<Rightarrow> ('w, (string \<times> string) list) io \<Rightarrow> reverse_proxy \<times> 'w
    \<Rightarrow> string list \<times> (reverse_proxy \<times> 'w)" where
  "GetNames now loader s =
     (case rp_reload now loader (5 * 1000000000) s of s' \<Rightarrow> (map fst (rpRoutes (fst s')), s'))"

text \<open>The two routes of the server: the sorted names, and the host of the product asked for (\<open>None\<close>: \<open>403\<close>).\<close>

definition fe_list :: "('w \<Rightarrow> int) \<Rightarrow> ('w, (string \<times> string) list) io \<Rightarrow> reverse_proxy \<times> 'w
    \<Rightarrow> string list \<times> (reverse_proxy \<times> 'w)" where
  "fe_list now loader s = (case GetNames now loader s of (names, s') \<Rightarrow> (sort names, s'))"

definition fe_forward :: "string \<Rightarrow> reverse_proxy \<times> 'w \<Rightarrow> string option" where
  "fe_forward name s = GetProxy (fst s) name"

subsection \<open>Where a route leads\<close>

lemma map_of_add_routes:
  "map_of (add_routes m routes) name = Some host \<Longrightarrow> map_of routes name = Some host \<or>
     ((name, host) \<in> set m \<and> name \<noteq> [] \<and> host \<noteq> [])"
proof (induction m arbitrary: routes)
  case (Cons e m)
  obtain n h where e: "e = (n, h)" by fastforce
  from Cons.prems have "map_of (add_routes m (if n = [] \<or> h = [] then routes else AList.update n h routes)) name = Some host"
    by (simp add: e)
  from Cons.IH [OF this] show ?case by (auto simp: e map_of_update split: if_splits)
qed simp

lemma distinct_add_routes: "distinct (map fst routes) \<Longrightarrow> distinct (map fst (add_routes m routes))"
  by (induction m routes rule: add_routes.induct) (auto simp: distinct_update)

text \<open>An entry of the loaded map was read from the node of its product.\<close>

definition advertised :: "('w \<Rightarrow> string \<Rightarrow> data option) \<Rightarrow> 'w \<Rightarrow> string \<Rightarrow> string \<Rightarrow> bool" where
  "advertised view w product host \<longleftrightarrow>
     (\<exists>d t. view w (TopomPath product) = Some d \<and> Topom_Decode d = Inr t \<and> host = tpAdminAddr t)"

context coord_client
begin

lemma TopomPath_node: "plain_comp p \<Longrightarrow> node_path (TopomPath p)"
  by (simp add: TopomPath_plain node_path_def plain_comp_def Split_append_general Split_word)

lemma dynamic_entries_read:
  "list_all (plain_comp \<circ> path_Base) paths \<Longrightarrow> dynamic_entries C paths m w = (Inr m', w') \<Longrightarrow>
   view w' = view w \<and> (\<forall>(p, a) \<in> set m'. (p, a) \<in> set m \<or> advertised view w p a)"
proof (induction paths arbitrary: m w)
  case Nil
  then show ?case by (auto simp: ret_def)
next
  case (Cons path paths)
  let ?p = "path_Base path"
  obtain r w1 where rd: "cl_Read C (TopomPath ?p) False w = (r, w1)" by fastforce
  let ?m = "case r of Inr (Some b) \<Rightarrow> (case Topom_Decode b of Inl _ \<Rightarrow> m | Inr t \<Rightarrow> AList.update ?p (tpAdminAddr t) m) | _ \<Rightarrow> m"
  from Cons.prems(2) rd have rest: "dynamic_entries C paths ?m w1 = (Inr m', w')"
    by (simp add: bindE_def attempt_def)
  have v: "view w1 = view w" by (rule read_frame [OF rd])
  have IH: "view w' = view w1" "\<forall>(p, a) \<in> set m'. (p, a) \<in> set ?m \<or> advertised view w1 p a"
    using Cons.IH [OF _ rest] Cons.prems(1) by auto
  have "(p, a) \<in> set m \<or> advertised view w p a" if "(p, a) \<in> set ?m" for p a
  proof (cases "(p, a) \<in> set m")
    case False
    with that obtain b t where r: "r = Inr (Some b)" and t: "Topom_Decode b = Inr t"
      and "(p, a) \<in> set (AList.update ?p (tpAdminAddr t) m)"
      by (auto split: sum.splits option.splits)
    then have "p = ?p" "a = tpAdminAddr t"
      using False by (induction m) (auto split: if_splits)
    moreover have "view w (TopomPath ?p) = Some b"
      using read_ok [OF TopomPath_node, of ?p False w "Some b" w1] rd r Cons.prems(1) by simp
    ultimately show ?thesis using t by (auto simp: advertised_def)
  qed simp
  with IH v show ?case by (fastforce simp: advertised_def)
qed

lemma DynamicLoader_read:
  assumes "DynamicLoader_Reload C w = (Inr m, w')"
  shows "view w' = view w" and "(p, a) \<in> set m \<Longrightarrow> advertised view w p a"
proof -
  from assms obtain paths w1 where ls: "cl_List C ProductDir False w = (Inr paths, w1)"
    and rest: "dynamic_entries C paths [] w1 = (Inr m, w')"
    unfolding DynamicLoader_Reload_def by (rule bindE_InrD)
  have "node_path ProductDir"
    by code_simp
  with list_ok [OF _ ls] have "list_all (plain_comp \<circ> path_Base) paths"
    by (auto simp: list_all_iff dest: child_base)
  from dynamic_entries_read [OF this rest] list_frame [OF ls]
  show "view w' = view w" "(p, a) \<in> set m \<Longrightarrow> advertised view w p a" by (auto simp: advertised_def)
qed

text \<open>After a reload every route leads to the address its product's dashboard advertises.\<close>

lemma reload_routes:
  assumes "rp_reload now (DynamicLoader_Reload C) d (r, w) = (r', w')"
    and "rpLoadAt r = None \<or> (\<exists>t. rpLoadAt r = Some t \<and> d \<le> now w - t)" and "GetProxy r' p = Some a"
  shows "advertised view w p a \<and> p \<noteq> [] \<and> a \<noteq> []"
proof -
  obtain res w1 where load: "DynamicLoader_Reload C w = (res, w1)" by fastforce
  from assms(1,2) load have "rpRoutes r' = (case res of Inl _ \<Rightarrow> [] | Inr m \<Rightarrow> add_routes m [])"
    by (auto simp: rp_reload_def split: option.splits)
  with assms(3) obtain m where "res = Inr m" "map_of (add_routes m []) p = Some a"
    by (cases res) (auto simp: GetProxy_def)
  with load DynamicLoader_read(2) map_of_add_routes show ?thesis by fastforce
qed

text \<open>The dashboard of a product created its node, and the front end loads: the route is its address.\<close>

lemma route_to_dashboard:
  assumes "plain_comp (tmProduct m)" and "in_int64 (tpPid (tmTopom m))"
    and "topomMapper_Create C (m, w0) = (Inr x, (m', w))"
    and "rp_reload now (DynamicLoader_Reload C) d (r, w) = (r', w')"
    and "rpLoadAt r = None \<or> (\<exists>t. rpLoadAt r = Some t \<and> d \<le> now w - t)" and "GetProxy r' (tmProduct m) = Some a"
  shows "a = tpAdminAddr (tmTopom m)"
proof -
  from assms(3) have "cl_Create C (TopomPath (tmProduct m)) (Topom_Encode (tmTopom m)) w0 = (Inr x, w)"
    by (auto simp: topomMapper_Create_def io_defs split: prod.splits sum.splits)
  with create_ok TopomPath_node [OF assms(1)] have "view w (TopomPath (tmProduct m)) = Some (Topom_Encode (tmTopom m))"
    by blast
  with reload_routes [OF assms(4-6)] Topom_Decode_Encode [OF assms(2)] show ?thesis by (auto simp: advertised_def)
qed

end

end
