(* ===== verification/Demo.thy ===== *)
theory Demo
  imports DiskWorld Backends PoolFacts SentinelVotes Boot FrontEnd
begin

section \<open>A small dashboard in memory\<close>

text \<open>
  One concrete state of the service over the environment of \<open>MemWorld\<close>: a product with the
  group \<open>g1\<close> of two servers and the empty group \<open>g2\<close>, both stored at the coordinator,
  one sentinel and a haproxy balancer. The operations run on it.
\<close>

definition demo_g1 :: group where
  "demo_g1 =
     \<lparr>gName = ''g1'', gServers = [\<lparr>sAddr = ''h:1''\<rparr>, \<lparr>sAddr = ''h:2''\<rparr>], gPromotingIndex = 0,
      gPromotingState = ActionNothing, gOutOfSync = False, gProxyReadPort = 10001,
      gProxyWritePort = 10002, gCreateTime = ''2018-01-01 00:00:00''\<rparr>"

definition demo_g2 :: group where
  "demo_g2 =
     \<lparr>gName = ''g2'', gServers = [], gPromotingIndex = 0, gPromotingState = ActionNothing,
      gOutOfSync = False, gProxyReadPort = 10003, gProxyWritePort = 10004,
      gCreateTime = ''2018-01-02 00:00:00''\<rparr>"

definition demo_gm :: group_mapper where
  "demo_gm = \<lparr>gmProduct = ''p'', gmGroups = [(''g1'', demo_g1), (''g2'', demo_g2)]\<rparr>"

definition demo_sentinel :: sentinel where
  "demo_sentinel = \<lparr>snServers = [''s:1''], snOutOfSync = False\<rparr>"

definition demo_world :: mem_world where
  "demo_world =
     ((\<lparr>ecClosed = False, ecTimeout = 5000000000\<rparr>,
       \<lparr>mFiles = [(''/cache-manager/products/p/groups/group-g1'', Group_Encode demo_g1),
                  (''/cache-manager/products/p/groups/group-g2'', Group_Encode demo_g2)], mDirs = []\<rparr>), [])"

definition demo_config :: dashboard_config where
  "demo_config = DefaultDashboardConfig\<lparr>ProductName := ''p'', ProductAuth := ''secret''\<rparr>"

definition demo :: "mem_world svc" where
  "demo =
     \<lparr>s_config = demo_config, s_topom = \<lparr>tmProduct = ''p'', tmTopom = zero_topom\<rparr>, s_groups = demo_gm,
      s_sentinel = \<lparr>smProduct = ''p'', smSentinel = demo_sentinel\<rparr>,
      s_gslb = \<lparr>bmProduct = ''p'', bmGslbs = []\<rparr>, s_tfs = [],
      s_statsPool = NewPool ''secret'' 5000000000, s_haPool = NewPool [] 5000000000,
      s_servers = [], s_haMasters = None, s_haWatched = None, s_gslbStats = [],
      s_started = True, s_closed = False, s_online = True, s_world = demo_world\<rparr>"

definition demo_with :: "gslbs \<Rightarrow> (string \<times> redis_stats) list \<Rightarrow> mem_world svc" where
  "demo_with bs stats = demo\<lparr>s_gslb := \<lparr>bmProduct = ''p'', bmGslbs = bs\<rparr>, s_servers := stats\<rparr>"

text \<open>The state is a proper one, and it is stored.\<close>

lemma demo_plain: "plain_comp ''p''"
  by (simp add: plain_comp_def)

lemma demo_inv: "svc_inv demo"
  by (simp add: svc_inv_def groups_inv_def gm_ok_def named_def ports_ok_def addrs_ok_def promo_wf_def
      sentinel_inv_def gslb_inv_def demo_def demo_gm_def demo_g1_def demo_g2_def demo_sentinel_def
      ports_def addrs_def action_defs demo_plain)

lemma demo_groups: "gmGroups (s_groups demo) = [(''g1'', demo_g1), (''g2'', demo_g2)]" "gmProduct (s_groups demo) = ''p''"
  by (simp_all add: demo_def demo_gm_def)

lemma demo_at: "gm_at (s_groups demo) ''g1'' = Some demo_g1" "gm_at (s_groups demo) ''g2'' = Some demo_g2"
  by (simp_all add: demo_groups gm_at_def)

lemma demo_view:
  "world_view (s_world demo) q =
     (if q = ''/cache-manager/products/p/groups/group-g1'' then Some (Group_Encode demo_g1)
      else if q = ''/cache-manager/products/p/groups/group-g2'' then Some (Group_Encode demo_g2) else None)"
  by (simp add: demo_def world_view_def demo_world_def mem_view_def)

lemma demo_durable: "durable {} world_view demo"
proof -
  have "world_view (s_world demo) (GroupPath ''p'' n) = map_option Group_Encode (map_of (gmGroups (s_groups demo)) n)"
    if "CHR ''/'' \<notin> set n" for n
    using that demo_plain by (simp add: demo_groups demo_view GroupPath_plain)
  moreover have "\<exists>n. CHR ''/'' \<notin> set n \<and> q = GroupPath ''p'' n" if "world_view (s_world demo) q \<noteq> None" for q
    using that demo_plain
    by (auto simp: demo_view GroupPath_plain split: if_splits intro: exI [of _ "''g1''"] exI [of _ "''g2''"])
  ultimately show ?thesis
    by (simp add: durable_def one_product_def stored_but_def demo_groups) (simp add: demo_def demo_plain)
qed

lemma demo_ints: "list_all (group_ints \<circ> snd) (gmGroups (s_groups demo))"
  by (simp add: demo_groups group_ints_def demo_g1_def demo_g2_def in_int64_def)

text \<open>A coordinator that refuses to write the sentinels' node.\<close>

definition flaky_env :: "mem_world env" where
  "flaky_env = mem_env\<lparr>en_Client := mem_client\<lparr>cl_Update := \<lambda>p d w.
     if p = ''/cache-manager/products/p/sentinel'' then (Inl (ErrExt ''timeout''), w)
     else cl_Update mem_client p d w\<rparr>\<rparr>"

text \<open>What the operations answer in it.\<close>

lemma demo_resume:
  "case GroupPromoteServer flaky_env ''g1'' ''h:2'' demo of (r, t) \<Rightarrow>
     r = Inl (ErrMapper ''sentinelMapper::UpdateSentinel'' [] (ErrExt ''timeout'')) \<and>
     map_option gPromotingState (gm_at (s_groups t) ''g1'') = Some ActionPrepared \<and>
     fst (GroupPromoteServer mem_env ''g1'' ''h:2'' t) = Inr ()"
  by code_simp

lemma demo_promote: "fst (GroupPromoteServer mem_env ''g1'' ''h:2'' demo) = Inr ()"
  by code_simp

lemma demo_add: "fst (AddGroupServer mem_env ''g1'' ''h:3'' demo) = Inr ()"
  by code_simp

lemma demo_del: "fst (DelGroupServer mem_env ''g1'' ''h:2'' demo) = Inr ()"
  by code_simp

lemma demo_create: "fst (CreateGroup mem_env ''g3'' 10005 10006 demo) = Inr ()"
  by code_simp

lemma demo_remove: "fst (RemoveGroup mem_env ''g2'' demo) = Inr ()"
  by code_simp

lemma demo_resync: "fst (ResyncGroup mem_env ''g1'' demo) = Inr ()"
  by code_simp

lemma demo_addsn: "fst (AddSentinel mem_env ''s:2'' demo) = Inr ()"
  by code_simp

lemma demo_switch: "fst (switchMasters mem_env [(''g1'', ''h:2''), (''g9'', ''x:1'')] demo) = Inr ()"
  by code_simp

lemma demo_restart: "case NewGroupMapper ''p'' mem_client (s_world demo) of (r, w) \<Rightarrow> (case r of Inl _ \<Rightarrow> False | Inr _ \<Rightarrow> True)"
  by code_simp

text \<open>The service without sentinels; they can be resynchronised without talking to any.\<close>

definition demo_quiet :: "mem_world svc" where
  "demo_quiet = demo\<lparr>s_sentinel := \<lparr>smProduct = ''p'', smSentinel = \<lparr>snServers = [], snOutOfSync = True\<rparr>\<rparr>\<rparr>"

lemma demo_quiet_inv: "svc_inv demo_quiet"
  using demo_inv by (simp add: demo_quiet_def svc_inv_def sentinel_inv_def)

lemma demo_resync_sentinels: "fst (ResyncSentinels mem_env demo_quiet) = Inr ()"
  by code_simp

lemma demo_delsn: "fst (DelSentinel mem_env ''s:1'' True demo) = Inr ()"
  by code_simp

text \<open>A redis client whose server reports one master of the product.\<close>

definition voting_redigo :: "mem_world redigo" where
  "voting_redigo = mem_redigo\<lparr>rd_Do := \<lambda>c cmd args w.
     (Inr (RArr [RArr (map RBulk [''name'', ''p-g1'', ''ip'', ''h'', ''port'', ''2'', ''config-epoch'', ''7''])]), w)\<rparr>"

lemma demo_masters: "fst (Masters mem_sched voting_redigo ''p'' [''s:1''] 0 demo_world) = Inr [(''g1'', ''h:2'')]"
  by code_simp

text \<open>Statistics in which \<open>h:2\<close> follows \<open>h:1\<close>, and balancers that use them.\<close>

definition demo_stats :: "(string \<times> redis_stats) list" where
  "demo_stats =
     [(''h:1'', zero_redis_stats),
      (''h:2'', zero_redis_stats\<lparr>rsStats := [(''master_addr'', ''h:1''), (''master_link_status'', ''up'')]\<rparr>)]"

definition demo_haproxy :: gslb where
  "demo_haproxy =
     \<lparr>glName = ''haproxy'', glServers = [''b:80''], glMonitors = [],
      glBackends = [\<lparr>bgName = ''g1'', bgServers = [],
        bgServerGroup = [(''Read'', \<lparr>bkServers = [''h:1''], bkPort = 10001\<rparr>)]\<rparr>]\<rparr>"

lemma demo_backends:
  "fst (haproxyBackends (demo_with [] demo_stats)) =
     Inr ([\<lparr>bgName = ''g1'', bgServers = [],
            bgServerGroup = [(''Read'', \<lparr>bkServers = [''h:1'', ''h:2''], bkPort = 10001\<rparr>),
                             (''Write'', \<lparr>bkServers = [''h:1''], bkPort = 10002\<rparr>)]\<rparr>], [])"
  by code_simp

lemma demo_lvs:
  "\<exists>bs. fst (lvsBackends ''haproxy'' (demo_with [(''haproxy'', demo_haproxy)] [])) = Inr (bs, [''b:80''])"
  by (simp add: lvsBackends_def bindE_gets ret_def demo_with_def demo_haproxy_def)

text \<open>A pool with one idle client.\<close>

definition demo_client :: rclient where
  "demo_client = \<lparr>rcConn = 4, rcAddr = ''h:1'', rcAuth = [], rcDatabase = 0, rcLastUse = 0, rcTimeout = 5000000000,
     rcSend = 2, rcRecv = 2\<rparr>"

definition demo_pool :: pool where
  "demo_pool = (NewPool [] 5000000000)\<lparr>plPool := [(''h:1'', [demo_client])]\<rparr>"

lemma demo_pool_inv: "pool_inv demo_pool"
  by (simp add: pool_inv_def demo_pool_def NewPool_def pooled_def entry_ok_def demo_client_def)

lemma demo_get: "fst (GetClient mem_redigo ''h:1'' (demo_pool, demo_world)) = Inr demo_client"
  by code_simp

text \<open>A start of the dashboard on what \<open>demo\<close> has stored, and one that cannot delete its node.\<close>

definition demo_disk :: "(etcd_client \<times> mem) \<times> disk" where
  "demo_disk = (fst demo_world, [(''/tpl/a.cfg'', ''listen'')])"

lemma demo_mirror:
  "case NewTemplateFileMapper mem_client mem_fsys (\<lambda>_. []) ''/tpl/x'' demo_disk of (Inl _, _) \<Rightarrow> False
   | (Inr m, w) \<Rightarrow>
       (case monitor mem_client mem_fsys [False, False, False, True] (m, w) of (m', w') \<Rightarrow>
          tpTfs m = [] \<and> map_of (tpTfs m') ''a.cfg'' = Some (template_of ''listen''))"
  by code_simp

definition boot_config :: dashboard_config where
  "boot_config = demo_config\<lparr>TemplateFileScanDir := ''/tpl/x''\<rparr>"

lemma disk_view: "world_view demo_disk = world_view (s_world demo)"
  by (simp add: demo_disk_def demo_def world_view_def)

lemma demo_nodes_ok: "nodes_ok world_view ''p'' demo_disk"
proof -
  have dir: "GSLBDir = ''/cache-manager/gslb''" by code_simp
  show ?thesis
    unfolding nodes_ok_def dir using demo_plain
    by (auto simp: disk_view demo_view SentinelPath_plain ancestor_def HasPrefix_def)
qed

lemma demo_boot:
  "case boot mem_client mem_fsys (\<lambda>_. []) boot_config \<lparr>tmProduct = ''p'', tmTopom = zero_topom\<rparr> demo_disk of (r, w) \<Rightarrow>
     (case r of Inl _ \<Rightarrow> False | Inr s \<Rightarrow> \<not> s_online s)"
  by code_simp

definition deaf_env :: "mem_world env" where
  "deaf_env = mem_env\<lparr>en_Client := mem_client\<lparr>cl_Delete := \<lambda>p w. (Inl (ErrExt ''timeout''), w)\<rparr>\<rparr>"

lemma demo_close: "fst (service_Close deaf_env demo) = Inl (ErrDeleteTopom ''p'')"
  by code_simp

text \<open>A front end that loads after the dashboard has created its node.\<close>

definition demo_topom :: topom_mapper where
  "demo_topom = \<lparr>tmProduct = ''p'', tmTopom = zero_topom\<lparr>tpAdminAddr := ''h:18080''\<rparr>\<rparr>"

lemma demo_route:
  "case topomMapper_Create mem_client (demo_topom, demo_disk) of (r, (m, w)) \<Rightarrow> r = Inr () \<and>
     GetProxy (fst (rp_reload (\<lambda>_. 0) (DynamicLoader_Reload mem_client) 5 (NewReverseProxy, w))) ''p'' \<noteq> None"
  by code_simp

text \<open>A log file in memory that has reached its size of four bytes.\<close>

definition mem_logfs :: "disk logfs" where
  "mem_logfs =
     \<lparr>lf_Now = \<lambda>_. time_zero, lf_Unix = \<lambda>_. 0, lf_MkdirAll = \<lambda>_ w. (Inr (), w),
      lf_OpenFile = \<lambda>p w. (if 0 \<le> file_at p w then (Inr (nat (file_at p w)), w) else (Inr (length w), w @ [(p, [])])),
      lf_Lstat = \<lambda>p w. (if 0 \<le> file_at p w then Inr () else Inl (ErrExt ''ENOENT''), w),
      lf_Rename = \<lambda>p q w. (Inr (), map (\<lambda>(n, d). (if n = p then q else n, d)) w),
      lf_Remove = \<lambda>p w. (Inr (), AList.delete p w), lf_Close = \<lambda>fd w. (Inr (), w),
      lf_Size = \<lambda>fd w. (Inr (of_nat (length (snd (w ! fd)))), w),
      lf_Write = \<lambda>fd b w. (Inr (of_nat (length b)), w[fd := (fst (w ! fd), snd (w ! fd) @ b)]),
      lf_Stderr = \<lambda>e w. w,
      lf_Walk = \<lambda>dir w. map (\<lambda>e. (fst e, Inr (False, 0))) (filter (\<lambda>e. path_Dir (fst e) = dir) w)\<rparr>"

definition demo_writer :: file_writer where
  "demo_writer = (default_writer ''/log/a.log'')\<lparr>fwMaxsize := 4, fwCurrentSize := 5, fwOpenTime := time_zero\<rparr>"

lemma demo_log:
  "doRotate mem_logfs (demo_writer, [(''/log/a.log'', ''12345'')]) =
     (Inr (), (demo_writer\<lparr>fwFd := 1, fwCurrentSize := 0\<rparr>,
       [(''/log/a.00010101-000000.000000.log'', ''12345''), (''/log/a.log'', [])]))"
  by code_simp

lemma demo_log_write:
  "fw_Write mem_logfs ''67'' (demo_writer, [(''/log/a.log'', ''12345'')]) =
     (Inr 2, (demo_writer\<lparr>fwFd := 1, fwCurrentSize := 2\<rparr>,
       [(''/log/a.00010101-000000.000000.log'', ''12345''), (''/log/a.log'', ''67'')]))"
  by code_simp

end
