(* ===== verification/DaoTypes.thy ===== *)
theory DaoTypes
  imports Dao
begin

section \<open>The types of the stored objects\<close>

text \<open>
  The struct definitions of package \<open>dao\<close> with their tags, as types of JSON values: what
  \<open>Unmarshal\<close> accepts for a field of that Go type. A decoder accepts a text exactly when it
  \<open>fits\<close> the type of its object, and what it returns can be held by Go's variables.
\<close>

datatype go_type =
    GoString
  | GoInt
  | GoBool
  | GoSlice go_type
  | GoMap go_type
  | GoPtr go_type
  | GoStruct "(string \<times> go_type) list"

text \<open>
  \<open>null\<close> is accepted everywhere and leaves the field as it is, but for the pointers in slices and
  maps, which the program never stores as \<open>null\<close>. Keys without a field are skipped.
\<close>

fun fits :: "go_type \<Rightarrow> json \<Rightarrow> bool"
  and fits_elems :: "go_type \<Rightarrow> json list \<Rightarrow> bool"
  and fits_entries :: "go_type \<Rightarrow> (string \<times> json) list \<Rightarrow> bool"
  and fits_fields :: "(string \<times> go_type) list \<Rightarrow> (string \<times> json) list \<Rightarrow> bool" where
  "fits (GoPtr t) JNull = False"
| "fits (GoPtr t) v = fits t v"
| "fits _ JNull = True"
| "fits GoString (JStr _) = True"
| "fits GoInt (JNum i) = in_int64 i"
| "fits GoBool (JBool _) = True"
| "fits (GoSlice t) (JArr vs) = fits_elems t vs"
| "fits (GoMap t) (JObj kvs) = fits_entries t kvs"
| "fits (GoStruct fs) (JObj kvs) = fits_fields fs kvs"
| "fits _ _ = False"
| "fits_elems t [] = True"
| "fits_elems t (v # vs) = (fits t v \<and> fits_elems t vs)"
| "fits_entries t [] = True"
| "fits_entries t ((k, v) # kvs) = (fits t v \<and> fits_entries t kvs)"
| "fits_fields fs [] = True"
| "fits_fields fs ((k, v) # kvs) =
     ((case map_of fs (ToLower k) of None \<Rightarrow> True | Some t \<Rightarrow> fits t v) \<and> fits_fields fs kvs)"


subsection \<open>The types of package dao\<close>

definition group_server_type :: go_type where
  "group_server_type = GoStruct [(''addr'', GoString)]"

definition group_type :: go_type where
  "group_type = GoStruct
     [(''name'', GoString),
      (''servers'', GoSlice (GoPtr group_server_type)),
      (''promoting'', GoStruct [(''index'', GoInt), (''state'', GoString)]),
      (''outofsync'', GoBool),
      (''proxyreadport'', GoInt),
      (''proxywriteport'', GoInt),
      (''createtime'', GoString)]"

definition sentinel_type :: go_type where
  "sentinel_type = GoStruct [(''servers'', GoSlice GoString), (''outofsync'', GoBool)]"

definition gslb_backend_type :: go_type where
  "gslb_backend_type = GoStruct [(''servers'', GoSlice GoString), (''port'', GoInt)]"

definition gslb_backend_group_type :: go_type where
  "gslb_backend_group_type = GoStruct
     [(''name'', GoString), (''servers'', GoSlice GoString), (''servergroup'', GoMap (GoPtr gslb_backend_type))]"

definition gslb_type :: go_type where
  "gslb_type = GoStruct
     [(''name'', GoString), (''servers'', GoSlice GoString), (''monitors'', GoSlice GoString),
      (''backends'', GoSlice (GoPtr gslb_backend_group_type))]"

definition topom_type :: go_type where
  "topom_type = GoStruct
     [(''starttime'', GoString), (''adminaddr'', GoString), (''productname'', GoString),
      (''pid'', GoInt), (''pwd'', GoString), (''sys'', GoString)]"

subsection \<open>A decoder follows its type\<close>

definition typed :: "(json \<Rightarrow> 'a option) \<Rightarrow> go_type \<Rightarrow> ('a \<Rightarrow> bool) \<Rightarrow> bool" where
  "typed f t P \<longleftrightarrow> (\<forall>v. (f v = None \<longleftrightarrow> \<not> fits t v) \<and> (\<forall>x. f v = Some x \<longrightarrow> P x))"

named_theorems typing \<open>which decoder has which type\<close>

lemma typedI: "(\<And>v. f v = None \<longleftrightarrow> \<not> fits t v) \<Longrightarrow> (\<And>v x. f v = Some x \<Longrightarrow> P x) \<Longrightarrow> typed f t P"
  by (simp add: typed_def)

lemma typed_None: "typed f t P \<Longrightarrow> f v = None \<longleftrightarrow> \<not> fits t v"
  by (simp add: typed_def)

lemma typed_Some: "typed f t P \<Longrightarrow> f v = Some x \<Longrightarrow> fits t v \<and> P x"
  by (auto simp: typed_def) (metis option.distinct(1))

lemma typed_str [typing]: "typed (get_str old) GoString (\<lambda>_. True)"
  by (rule typedI) (auto simp: get_str_def split: json.split)

lemma typed_int [typing]: "in_int64 old \<Longrightarrow> typed (get_int old) GoInt in_int64"
  by (rule typedI) (auto simp: get_int_def split: json.splits if_splits)

lemma typed_bool [typing]: "typed (get_bool old) GoBool (\<lambda>_. True)"
  by (rule typedI) (auto simp: get_bool_def split: json.split)

lemma all_some_cons: "all_some (r # rs) = (case r of None \<Rightarrow> None | Some x \<Rightarrow> map_option (Cons x) (all_some rs))"
  by (cases r) simp_all

lemma typed_elems:
  assumes "typed f t P"
  shows "(all_some (map f vs) = None \<longleftrightarrow> \<not> fits_elems t vs) \<and> (\<forall>xs. all_some (map f vs) = Some xs \<longrightarrow> list_all P xs)"
  by (induction vs) (auto simp: all_some_cons typed_None [OF assms] dest: typed_Some [OF assms] split: option.split)

lemma typed_slice [typing]:
  assumes "typed f t P"
  shows "typed (get_list f) (GoSlice t) (list_all P)"
  by (rule typedI) (auto simp: get_list_def typed_elems [OF assms] split: json.splits)

lemma typed_ptr:
  assumes "typed f t P"
  shows "typed (\<lambda>v. case v of JNull \<Rightarrow> None | _ \<Rightarrow> f v) (GoPtr t) P"
  by (rule typedI) (auto simp: typed_None [OF assms] dest: typed_Some [OF assms] split: json.splits)

lemma typed_entries:
  assumes "typed f t P" and "distinct (map fst m)" and "list_all (P \<circ> snd) m"
  shows "(get_entries f kvs m = None \<longleftrightarrow> \<not> fits_entries t kvs) \<and>
    (\<forall>m'. get_entries f kvs m = Some m' \<longrightarrow> distinct (map fst m') \<and> list_all (P \<circ> snd) m')"
  using assms(2,3)
proof (induction kvs arbitrary: m)
  case (Cons e kvs)
  obtain k v where e: "e = (k, v)" by (cases e)
  show ?case
  proof (cases "f v")
    case None
    with e show ?thesis by (simp flip: typed_None [OF assms(1)])
  next
    case (Some x)
    from typed_Some [OF assms(1) this] have v: "fits t v" "P x" by simp_all
    then have "list_all (P \<circ> snd) (AList.update k x m)" using Cons.prems(2) by (induction m) auto
    with Cons.IH [OF distinct_update [OF Cons.prems(1)]] Some v e show ?thesis by (simp add: comp_def)
  qed
qed simp

lemma typed_map [typing]:
  assumes "typed f t P"
  shows "typed (get_map f) (GoMap t) (\<lambda>m. distinct (map fst m) \<and> list_all (P \<circ> snd) m)"
  using typed_entries [OF assms, of "[]"] by (intro typedI) (auto simp: get_map_def split: json.splits)

text \<open>The setter of one key: it fails when the key is a field whose type the value does not fit.\<close>

definition field_ok :: "(string \<times> go_type) list \<Rightarrow> ('a \<Rightarrow> bool) \<Rightarrow> string \<Rightarrow> json \<Rightarrow> 'a option \<Rightarrow> bool" where
  "field_ok fs P k v r \<longleftrightarrow>
     (r = None \<longleftrightarrow> (\<exists>t. map_of fs k = Some t \<and> \<not> fits t v)) \<and> (\<forall>x. r = Some x \<longrightarrow> P x)"

lemma field_set:
  assumes "typed f t Q" and "map_of fs k = Some t" and "\<And>x. Q x \<Longrightarrow> P (upd x)"
  shows "field_ok fs P k v (map_option upd (f v))"
  using assms(2,3) by (auto simp: field_ok_def typed_None [OF assms(1)] dest: typed_Some [OF assms(1)])

lemma field_skip: "map_of fs k = None \<Longrightarrow> P r \<Longrightarrow> field_ok fs P k v (Some r)"
  by (simp add: field_ok_def)

lemma field_if:
  "(b \<Longrightarrow> field_ok fs P k v x) \<Longrightarrow> (\<not> b \<Longrightarrow> field_ok fs P k v y) \<Longrightarrow> field_ok fs P k v (if b then x else y)"
  by simp

lemma typed_fields:
  assumes "\<And>r k v. P r \<Longrightarrow> field_ok fs P k v (f k v r)" and "P r"
  shows "(get_fields f kvs r = None \<longleftrightarrow> \<not> fits_fields fs kvs) \<and> (\<forall>r'. get_fields f kvs r = Some r' \<longrightarrow> P r')"
  using assms(2)
proof (induction kvs arbitrary: r)
  case (Cons e kvs)
  obtain k v where e: "e = (k, v)" by (cases e)
  have ok: "field_ok fs P (ToLower k) v (f (ToLower k) v r)" by (rule assms(1) [OF Cons.prems])
  show ?case
  proof (cases "f (ToLower k) v r")
    case None
    with ok e show ?thesis by (auto simp: field_ok_def)
  next
    case (Some r')
    with ok have "P r'" "\<And>t. map_of fs (ToLower k) = Some t \<Longrightarrow> fits t v" by (auto simp: field_ok_def)
    with Cons.IH Some e show ?thesis by (auto split: option.split)
  qed
qed simp

lemma typed_struct:
  assumes "P zero" and "\<And>r k v. P r \<Longrightarrow> field_ok fs P k v (f k v r)"
  shows "typed (get_struct f zero) (GoStruct fs) P"
  using typed_fields [where f = f, OF assms(2,1)] assms(1)
  by (intro typedI) (auto simp: get_struct_def split: json.splits)

lemma in_int64_zero [simp]: "in_int64 0"
  by (simp add: in_int64_def)

lemmas field_str = field_set [OF typed_str]
lemmas field_int = field_set [OF typed_int]
lemmas field_bool = field_set [OF typed_bool]

lemmas field_rules = field_if field_skip field_str field_int field_bool

lemma group_server_typed: "typed group_server_of_json (GoPtr group_server_type) (\<lambda>_. True)"
  unfolding group_server_of_json_def group_server_type_def set_server_field_def
  by (rule typed_ptr, rule typed_struct, simp) (intro field_rules; simp)

lemma str_typed: "typed str_of_json GoString (\<lambda>_. True)"
  unfolding str_of_json_def by (rule typed_str)

lemmas field_strs = field_set [OF typed_slice [OF str_typed]]

lemma promoting_typed:
  "in_int64 (fst p) \<Longrightarrow>
   typed (get_struct set_promoting_field p) (GoStruct [(''index'', GoInt), (''state'', GoString)]) (\<lambda>p. in_int64 (fst p))"
  unfolding set_promoting_field_def
  by (rule typed_struct, assumption) (intro field_rules; simp)

lemma group_typed: "typed group_of_json group_type group_ints"
  unfolding group_of_json_def group_type_def set_group_field_def
  by (rule typed_struct, simp add: group_ints_def zero_group_def)
    (intro field_rules field_set [OF typed_slice [OF group_server_typed]] field_set [OF promoting_typed];
      simp add: group_ints_def)

lemma sentinel_typed: "typed sentinel_of_json sentinel_type (\<lambda>_. True)"
  unfolding sentinel_of_json_def sentinel_type_def set_sentinel_field_def
  by (rule typed_struct, simp) (intro field_rules field_strs; simp)

lemma topom_typed: "typed topom_of_json topom_type (\<lambda>t. in_int64 (tpPid t))"
  unfolding topom_of_json_def topom_type_def set_topom_field_def
  by (rule typed_struct, simp add: zero_topom_def) (intro field_rules; simp)

lemma backend_typed: "typed backend_of_json (GoPtr gslb_backend_type) (\<lambda>b. in_int64 (bkPort b))"
  unfolding backend_of_json_def gslb_backend_type_def set_backend_field_def
  by (rule typed_ptr, rule typed_struct, simp) (intro field_rules field_strs; simp)

definition backend_group_ok :: "gslb_backend_group \<Rightarrow> bool" where
  "backend_group_ok b \<longleftrightarrow>
     distinct (map fst (bgServerGroup b)) \<and> (\<forall>e \<in> set (bgServerGroup b). in_int64 (bkPort (snd e)))"

lemma gslb_ok_iff: "gslb_ok g \<longleftrightarrow> list_all backend_group_ok (glBackends g)"
  by (simp add: gslb_ok_def backend_group_ok_def list_all_iff)

lemma backend_group_typed: "typed backend_group_of_json (GoPtr gslb_backend_group_type) backend_group_ok"
  unfolding backend_group_of_json_def gslb_backend_group_type_def set_backend_group_field_def
  by (rule typed_ptr, rule typed_struct, simp add: backend_group_ok_def)
    (intro field_rules field_strs field_set [OF typed_map [OF backend_typed]];
      simp add: backend_group_ok_def list_all_iff)

lemma gslb_typed: "typed gslb_of_json gslb_type gslb_ok"
  unfolding gslb_of_json_def gslb_type_def set_gslb_field_def gslb_ok_iff
  by (rule typed_struct, simp add: zero_gslb_def)
    (intro field_rules field_strs field_set [OF typed_slice [OF backend_group_typed]]; simp)

text \<open>From values to what a node holds.\<close>

lemma jsonDecode_typed:
  assumes "typed f t P"
  shows "(case jsonDecode f d of Inr x \<Rightarrow> (\<exists>v. d = JsonText v \<and> fits t v) \<and> P x
          | Inl e \<Rightarrow> e = ErrDecode \<and> (\<forall>v. d = JsonText v \<longrightarrow> \<not> fits t v))"
  using typed_None [OF assms] typed_Some [OF assms]
  by (cases d) (auto simp: jsonDecode_def split: option.split)

subsection \<open>Single servers and whole maps\<close>

text \<open>Codecs of package \<open>dao\<close> that the program never calls; an entry \<open>null\<close> of a map is an error here too.\<close>

definition map_json :: "('a \<Rightarrow> json) \<Rightarrow> (string \<times> 'a) list \<Rightarrow> json" where
  "map_json f m = JObj (map (\<lambda>(k, b). (k, f b)) (sort_key fst m))"

definition ptr_of_json :: "(json \<Rightarrow> 'a option) \<Rightarrow> json \<Rightarrow> 'a option" where
  "ptr_of_json f v = (case v of JNull \<Rightarrow> None | _ \<Rightarrow> f v)"

definition GroupServer_Encode :: "group_server \<Rightarrow> data" where
  "GroupServer_Encode s = jsonEncode (group_server_json s)"

definition GroupServer_Decode :: "data \<Rightarrow> error + group_server" where
  "GroupServer_Decode d = jsonDecode (get_struct set_server_field \<lparr>sAddr = []\<rparr>) d"

definition Groups_Encode :: "groups \<Rightarrow> data" where
  "Groups_Encode gs = jsonEncode (map_json group_json gs)"

definition Groups_Decode :: "data \<Rightarrow> error + groups" where
  "Groups_Decode d = jsonDecode (get_map (ptr_of_json group_of_json)) d"

definition GSLBs_Encode :: "gslbs \<Rightarrow> data" where
  "GSLBs_Encode bs = jsonEncode (map_json gslb_json bs)"

definition GSLBs_Decode :: "data \<Rightarrow> error + gslbs" where
  "GSLBs_Decode d = jsonDecode (get_map (ptr_of_json gslb_of_json)) d"

lemma map_json_roundtrip:
  assumes "\<And>e. e \<in> set m \<Longrightarrow> f (g (snd e)) = Some (snd e)" and "distinct (map fst m)"
  obtains m' where "get_map f (map_json g m) = Some m'" and "map_of m' = map_of m"
proof -
  have "mset (map fst (sort_key fst m)) = mset (map fst m)" by simp
  with assms(2) have "distinct (map fst (sort_key fst m))" by (metis mset_eq_imp_distinct_iff)
  with assms(1) obtain m' where "get_entries f (map (\<lambda>(k, b). (k, g b)) (sort_key fst m)) [] = Some m'"
    "map_of m' = map_of [] ++ map_of (sort_key fst m)"
    using get_entries_map [of "sort_key fst m" f g "[]"] by auto
  with assms(2) that show ?thesis by (simp add: get_map_def map_json_def map_of_sort_key)
qed

lemma Groups_roundtrip:
  assumes "distinct (map fst gs)" and "list_all (group_ints \<circ> snd) gs"
  obtains gs' where "Groups_Decode (Groups_Encode gs) = Inr gs'" and "map_of gs' = map_of gs"
proof -
  have "ptr_of_json group_of_json (group_json g) = Some g" if "group_ints g" for g
    using group_json_roundtrip [OF that] by (simp add: ptr_of_json_def group_json_def)
  with assms(2) have "\<And>e. e \<in> set gs \<Longrightarrow> ptr_of_json group_of_json (group_json (snd e)) = Some (snd e)"
    by (simp add: list_all_iff)
  from map_json_roundtrip [OF this assms(1)] that show thesis
    by (metis Groups_Decode_def Groups_Encode_def jsonDecode_Encode)
qed

lemma ptr_typed: "typed f t P \<Longrightarrow> typed (ptr_of_json f) (GoPtr t) P"
  unfolding ptr_of_json_def by (rule typed_ptr)

lemma maps_typed:
  "typed (get_map (ptr_of_json group_of_json)) (GoMap (GoPtr group_type))
     (\<lambda>gs. distinct (map fst gs) \<and> list_all (group_ints \<circ> snd) gs)"
  "typed (get_map (ptr_of_json gslb_of_json)) (GoMap (GoPtr gslb_type))
     (\<lambda>bs. distinct (map fst bs) \<and> list_all (gslb_ok \<circ> snd) bs)"
  by (rule typed_map [OF ptr_typed [OF group_typed]], rule typed_map [OF ptr_typed [OF gslb_typed]])

end
