(* ===== verification/Frames.thy ===== *)
theory Frames
  imports Durability
begin

section \<open>What leaves the coordinator alone\<close>

text \<open>
  Everything the service says to redis servers, sentinels and balancers: the calls of the clients,
  through the pools and the info cache too, and the timers. Whatever they answer, the nodes of the
  coordinator are as before.
\<close>

lemma keeps_case_option:
  "(x = None \<Longrightarrow> keeps I f) \<Longrightarrow> (\<And>y. x = Some y \<Longrightarrow> keeps I (g y)) \<Longrightarrow>
     keeps I (case x of None \<Rightarrow> f | Some y \<Rightarrow> g y)"
  by (cases x) auto

lemma keeps_case_list:
  "(xs = [] \<Longrightarrow> keeps I f) \<Longrightarrow> (\<And>y ys. xs = y # ys \<Longrightarrow> keeps I (g y ys)) \<Longrightarrow>
     keeps I (case xs of [] \<Rightarrow> f | y # ys \<Rightarrow> g y ys)"
  by (cases xs) auto

context dashboard
begin

lemmas call_frames = frame_intros keeps_case_option keeps_case_list keeps_lookup Do_frame

lemma run_opts_frame: "keeps (\<lambda>s. view (snd s) = v) (run_opts (en_Redigo E) opts)"
  unfolding run_opts_def by (intro frame_intros conn_frames)

lemma ForceFullSync_frame: "keeps (\<lambda>s. view (snd s) = v) (ForceFullSyncFromMaster (en_Redigo E) m)"
  unfolding ForceFullSyncFromMaster_def by (intro frame_intros run_opts_frame)

lemma Info_frame: "keeps (\<lambda>s. view (snd s) = v) (Client_Info (en_Redigo E))"
  unfolding Client_Info_def by (intro call_frames)

lemma InfoFull_frame: "keeps (\<lambda>s. view (snd s) = v) (InfoFull (en_Redigo E))"
  unfolding InfoFull_def by (intro call_frames Info_frame)

subsection \<open>Sentinels\<close>

lemma masters_frame: "keeps (\<lambda>s. view (snd s) = v) (mastersCommand (en_Redigo E) product)"
  unfolding mastersCommand_def by (intro deferred_frame call_frames)

lemma slaves_loop_frame: "keeps (\<lambda>s. view (snd s) = v) (slaves_loop (en_Redigo E) ex names results)"
  by (induction names arbitrary: results) (auto intro!: call_frames)

lemma slaves_frame: "keeps (\<lambda>s. view (snd s) = v) (slavesCommand (en_Redigo E) names)"
  unfolding slavesCommand_def existsCommand_def by (intro deferred_frame call_frames exists_frame slaves_loop_frame)

lemma MastersAndSlaves_frame: "keeps (\<lambda>s. view (snd s) = v) (MastersAndSlavesClient (en_Redigo E) product)"
  unfolding MastersAndSlavesClient_def by (intro deferred_frame call_frames masters_frame slaves_frame)

lemma monitor_frame: "keeps (\<lambda>s. view (snd s) = v) (monitorGroupsCommand (en_Redigo E) product auth config groups)"
  unfolding monitorGroupsCommand_def by (intro deferred_frame call_frames removeCommand_frame pipeline_frame)

lemma ignore_canceled_frame:
  assumes "\<And>v. keeps (\<lambda>w. view w = v) m"
  shows "keeps (\<lambda>w. view w = v) (ignore_canceled x m)"
proof (rule keepsI)
  fix w
  assume "view w = v"
  moreover obtain r w' where "m w = (r, w')" by fastforce
  ultimately show "view (snd (ignore_canceled x m w)) = v"
    using frameD [OF assms, where s = w] by (simp add: ignore_canceled_def)
qed

lemma all_sentinels_frame:
  assumes "\<And>v x. keeps (\<lambda>w. view w = v) (f x)"
  shows "keeps (\<lambda>w. view w = v) (all_sentinels (en_Sched E) f sentinels)"
  unfolding all_sentinels_def
  by (rule keepsI) (use run_all_frame [OF assms] arrive_frame in \<open>auto simp: case_prod_beta\<close>)

lemma RemoveGroupsAll_frame: "keeps (\<lambda>w. view w = v) (RemoveGroupsAll (en_Sched E) (en_Redigo E) product sentinels t)"
  unfolding RemoveGroupsAll_def removeGroupsAllDispatch_def
  by (intro all_sentinels_frame ignore_canceled_frame dispatch_frame call_frames masters_frame removeCommand_frame)

lemma ctx_then_frame:
  assumes "\<And>ctx. keeps (\<lambda>w. view w = v) (f ctx)"
  shows "keeps (\<lambda>w. view w = v) (\<lambda>w. case sc_Ctx (en_Sched E) w of (ctx, w') \<Rightarrow> f ctx w')"
proof (rule keepsI)
  fix w
  assume "view w = v"
  moreover obtain ctx w' where "sc_Ctx (en_Sched E) w = (ctx, w')" by fastforce
  ultimately show "view (snd (case sc_Ctx (en_Sched E) w of (ctx, w') \<Rightarrow> f ctx w')) = v"
    using ctx_frame [of w] keepsD [OF assms, of w'] by simp
qed

lemma resolve_all_frame: "keeps (\<lambda>w. view w = v) (resolve_all (en_Sched E) groups m)"
proof (induction groups arbitrary: m)
  case (Cons e groups)
  obtain g a where e: "e = (g, a)" by fastforce
  have "keeps (\<lambda>w. view w = v) (\<lambda>w. case ctx of
      Some e \<Rightarrow> (Inl (ctx_error e), w)
    | None \<Rightarrow> bindE (sc_Resolve (en_Sched E) a) (\<lambda>tcpAddr. resolve_all (en_Sched E) groups (AList.update g tcpAddr m)) w)" for ctx
    using keeps_bind [OF resolve_frame Cons.IH] by (cases ctx) (simp_all add: hoare_def)
  from ctx_then_frame [OF this] show ?case by (simp add: e case_prod_beta' split: option.split)
qed (simp add: keeps_ret)

lemma MonitorGroups_frame:
  "keeps (\<lambda>w. view w = v) (MonitorGroups (en_Sched E) (en_Redigo E) product auth sentinels t config groups)"
proof -
  have all: "keeps (\<lambda>w. view w = v) (all_sentinels (en_Sched E)
      (monitorGroupsDispatch (en_Sched E) (en_Redigo E) product auth t' config resolve) sentinels)" for t' resolve v
    unfolding monitorGroupsDispatch_def
    by (intro all_sentinels_frame ignore_canceled_frame dispatch_frame monitor_frame)
  have "keeps (\<lambda>w. view w = v) (\<lambda>w. case ctx of
      Some e \<Rightarrow> (Inl (ctx_error e), w)
    | None \<Rightarrow> all_sentinels (en_Sched E)
        (monitorGroupsDispatch (en_Sched E) (en_Redigo E) product auth t' config resolve) sentinels w)" for ctx t' resolve
    using all by (cases ctx) (simp_all add: hoare_def)
  from ctx_then_frame [OF this] show ?thesis
    unfolding MonitorGroups_def by (intro keeps_bind resolve_all_frame)
qed

subsection \<open>The pools and the info cache\<close>

lemma close_client_frame [simp]: "view (close_client (en_Redigo E) c w) = view w"
  using frameD [OF close_frame] by (simp add: close_client_def)

lemma close_clients_frame [simp]: "view (close_clients (en_Redigo E) cs w) = view w"
  by (induction cs arbitrary: w) simp_all

lemma PoolClose_frame: "keeps (\<lambda>s. view (snd s) = v) (Pool_Close (en_Redigo E))"
  by (rule keepsI) (auto simp: Pool_Close_def)

lemma take_frame: "take_recyclable (en_Redigo E) cs w = (c, cs', w') \<Longrightarrow> view w' = view w"
  by (induction cs arbitrary: w) (auto split: if_splits)

lemma PutClient_frame [simp]: "view (snd (PutClient (en_Redigo E) c s)) = view (snd s)"
  by (simp add: PutClient_def)

lemma NewClient_frame: "keeps (\<lambda>w. view w = v) (NewClient (en_Redigo E) addr auth t)"
  unfolding NewClient_def by (intro frame_intros dial_frame)

lemma GetClient_frame: "keeps (\<lambda>s. view (snd s) = v) (GetClient (en_Redigo E) addr)"
proof -
  have "keeps (\<lambda>s. view (snd s) = v) (getClientFromCache (en_Redigo E) addr)"
    by (rule keepsI) (auto simp: getClientFromCache_def split: option.splits prod.splits dest: take_frame)
  then show ?thesis
    unfolding GetClient_def by (intro call_frames keeps_onW [OF NewClient_frame])
qed

lemma with_pooled_frame:
  assumes "\<And>v. keeps (\<lambda>s. view (snd s) = v) f"
  shows "keeps (\<lambda>s. view (snd s) = v) (with_pooled (en_Redigo E) addr f)"
  unfolding with_pooled_def
proof (intro keeps_bind GetClient_frame keepsI)
  fix c and s :: "pool \<times> 'a"
  assume "view (snd s) = v"
  moreover obtain r c' w where "f (c, snd s) = (r, (c', w))" by (metis prod.exhaust)
  ultimately show "view (snd (snd (case f (c, snd s) of (r, (c', w)) \<Rightarrow> (r, PutClient (en_Redigo E) c' (fst s, w))))) = v"
    using frameD [OF assms, where s = "(c, snd s)"] by simp
qed

lemma GetRunId_frame: "view (snd (snd (GetRunId (en_Redigo E) addr s))) = view (snd s)"
proof -
  have "view (snd (InfoCache_getSlow (en_Redigo E) addr c w)) = view w" for c w
    unfolding InfoCache_getSlow_def by (rule frameD [OF with_client_frame [OF Info_frame]])
  then show ?thesis
    by (simp add: GetRunId_def InfoCache_Get_def case_prod_beta split: option.split)
qed

end

end
