(* ===== verification/Tracking.thy ===== *)
theory Tracking
  imports Frames
begin

section \<open>Cache and coordinator over a whole run\<close>

text \<open>
  \<open>Durability\<close> is about one operation on a group. Here a run of the service goes through any
  operations, changes outside the coordinator and reorderings of maps, and a set of names is
  carried along: the groups whose last write is open. A failing operation on a group adds its
  name, a successful one takes it out, a failover or a resynchronisation of all groups adds the
  names it is about. Every other group is at every moment in the coordinator as it is cached.
\<close>

context dashboard
begin

subsection \<open>Operations that write no group\<close>

lemmas op_frames = frame_intros keeps_case_option keeps_lookup onWorld_durable assignSentinel_durable
  updateSentinel_durable

lemma durable_other:
  "durable K view s \<Longrightarrow> s_groups t = s_groups s \<Longrightarrow> smProduct (s_sentinel t) = smProduct (s_sentinel s) \<Longrightarrow>
   bmProduct (s_gslb t) = bmProduct (s_gslb s) \<Longrightarrow> tmProduct (s_topom t) = tmProduct (s_topom s) \<Longrightarrow>
   view (s_world t) = view (s_world s) \<Longrightarrow> durable K view t"
  by (simp add: durable_def one_product_def stored_but_def)

lemma modify_durable:
  "(\<And>s. s_groups (f s) = s_groups s \<and> s_sentinel (f s) = s_sentinel s \<and> s_gslb (f s) = s_gslb s \<and>
      s_topom (f s) = s_topom s \<and> s_world (f s) = s_world s) \<Longrightarrow> keeps (durable K view) (modifyE f)"
  by (rule keeps_modify) (auto intro: durable_other)

lemma ForceFullSync_durable: "keeps (durable K view) (GroupForceFullSyncServer E k a)"
  unfolding GroupForceFullSyncServer_def doForceFullSyncAction_def groupsInfo_eq Let_def
  by (intro op_frames with_client_frame ForceFullSync_frame)

lemma AddSentinel_durable: "keeps (durable K view) (AddSentinel E a)"
  unfolding AddSentinel_def sentinelInfo_eq sentinel_product_def FlushConfig_def sentinel_do_def Let_def
  by (intro op_frames with_client_frame Do_frame)

lemma DelSentinel_durable: "keeps (durable K view) (DelSentinel E a force)"
  unfolding DelSentinel_def sentinelInfo_eq sentinel_product_def Let_def
  by (intro op_frames RemoveGroupsAll_frame)

lemma reWatch_durable: "keeps (durable K view) (reWatchSentinels servers)"
  unfolding reWatchSentinels_def by (rule modify_durable) simp

lemma ResyncSentinels_durable: "keeps (durable K view) (ResyncSentinels E)"
  unfolding ResyncSentinels_def groupsInfo_eq sentinelInfo_eq sentinel_product_def Let_def
  by (intro op_frames RemoveGroupsAll_frame MonitorGroups_frame reWatch_durable)

lemma assignGslb_durable: "keeps (durable K view) (assignGslb n g)"
  by (simp add: hoare_def assignGslb_def modifyE_def durable_def one_product_def)

lemma deleteGslb_durable:
  assumes "plain_comp (glName g)"
  shows "keeps (durable K view) (onGslb (gslbMapper_Delete (en_Client E) g))"
proof (rule keepsI)
  fix s :: "'a svc"
  assume s: "durable K view s"
  let ?p = "bmProduct (s_gslb s)"
  obtain r w where del: "cl_Delete C (GSLBPath (glName g) ?p) (s_world s) = (r, w)" by fastforce
  from s have p: "plain_comp (gmProduct (s_groups s))" "?p = gmProduct (s_groups s)"
    and st: "stored_but K view (s_groups s) (s_world s)" by (simp_all add: durable_def one_product_def)
  from delete_away [OF GSLBPath_node away_gslb del [unfolded p(2)] st] p(1) assms
  have "stored_but K view (s_groups s) w" by simp
  with s del show "durable K view (snd (onGslb (gslbMapper_Delete (en_Client E) g) s))"
    by (cases r) (auto simp: onGslb_def gslbMapper_Delete_def io_defs client durable_def one_product_def)
qed

text \<open>The balancers that exist have the two known names, or one the caller must answer for.\<close>

lemma AddGSLB_durable:
  assumes "svc_inv s" and "durable K view s" and "plain_comp n"
  shows "hoare (\<lambda>t. t = s) (AddGSLB E n a) (\<lambda>_. durable K view) (durable K view)"
  unfolding AddGSLB_def gslbsInfo_eq Let_def
proof (intro at_guard at_gets assms(2))
  let ?rest = "\<lambda>g. bindE (guardE (a \<notin> set (glServers g)) (ErrGSLB (GSLBServerExists n a))) (\<lambda>_.
     bindE (assignGslb n (g\<lparr>glServers := glServers g @ [a]\<rparr>)) (\<lambda>_.
     bindE (updateGslb E (g\<lparr>glServers := glServers g @ [a]\<rparr>)) (\<lambda>_. refreshGSLBBackendInfo E)))"
  have rest: "keeps (durable K view) (?rest g)" if "glName g = n" for g
    using assms(3) that by (intro op_frames assignGslb_durable updateGslb_durable refresh_durable) simp
  show "hoare (\<lambda>t. t = s) (bindE (case map_of (bmGslbs (s_gslb s)) n of
       Some g \<Rightarrow> ret g | None \<Rightarrow> bindE (assignGslb n (zero_gslb\<lparr>glName := n\<rparr>)) (\<lambda>_. ret (zero_gslb\<lparr>glName := n\<rparr>))) ?rest)
     (\<lambda>_. durable K view) (durable K view)"
  proof (cases "map_of (bmGslbs (s_gslb s)) n")
    case None
    have "keeps (durable K view) (bindE (assignGslb n (zero_gslb\<lparr>glName := n\<rparr>)) (\<lambda>_. ?rest (zero_gslb\<lparr>glName := n\<rparr>)))"
      by (intro keeps_bind assignGslb_durable rest) simp
    then show ?thesis using assms(2) by (simp add: None bindE_assoc at_pre)
  next
    case (Some g)
    with assms(1) gslb_invD have "glName g = n" by (fastforce simp: svc_inv_def)
    then show ?thesis using assms(2) rest [of g] by (simp add: Some at_pre)
  qed
qed

lemma DelGSLB_durable:
  assumes "svc_inv s" and "durable K view s" and "plain_comp n"
  shows "hoare (\<lambda>t. t = s) (DelGSLB E n a) (\<lambda>_. durable K view) (durable K view)"
  unfolding DelGSLB_def gslbsInfo_eq Let_def
proof (intro at_guard at_gets at_lookup assms(2), goal_cases)
  case (1 g)
  with assms(1) gslb_invD have "glName g = n" by (fastforce simp: svc_inv_def)
  with assms(3) show ?case
    by (intro at_pre [where P = "durable K view"] assms(2) op_frames assignGslb_durable updateGslb_durable deleteGslb_durable refresh_durable)
      simp_all
qed

subsection \<open>Statistics and the life of the service\<close>

lemma onPool_durable:
  assumes "\<And>v. keeps (\<lambda>s. view (snd s) = v) m"
  shows "keeps (durable K view) (onStatsPool m)" and "keeps (durable K view) (onHaPool m)"
proof -
  have "view w = view (s_world s)" if "m (p, s_world s) = (r, (p', w))" for p r p' w and s :: "'a svc"
    using frameD [OF assms, where s = "(p, s_world s)"] that by simp
  then show "keeps (durable K view) (onStatsPool m)" "keeps (durable K view) (onHaPool m)"
    by (auto intro!: keepsI intro: durable_other simp: onStatsPool_def onHaPool_def split: prod.split)
qed

lemma timer_durable: "keeps (durable K view) (timer E)"
  unfolding timer_def
  by (rule onWorld_durable, rule keepsI) (use after_frame in \<open>auto simp: case_prod_beta\<close>)

lemma goStats_durable:
  "(\<And>a do. (a, do) \<in> set ds \<Longrightarrow> keeps (durable K view) do) \<Longrightarrow> keeps (durable K view) (goStats E ds vmap)"
proof (induction ds arbitrary: vmap)
  case (Cons d ds)
  obtain a do where d: "d = (a, do)" by fastforce
  with Cons show ?case
    unfolding d goStats.simps unix_now_def newRedisStats_def
    by (intro keeps_bind keeps_attempt timer_durable keeps_ret keeps_gets Cons.IH) auto
qed (simp add: keeps_ret)

lemma server_stats_durable: "keeps (durable K view) (server_stats E a)"
  unfolding server_stats_def Pool_InfoFull_def
  by (intro op_frames onPool_durable(1) with_pooled_frame InfoFull_frame)

lemma sentinel_stats_durable: "keeps (durable K view) (sentinel_stats E a)"
  unfolding sentinel_stats_def
  by (intro op_frames onPool_durable(2) with_pooled_frame Info_frame MastersAndSlaves_frame)

lemma refreshRedisStats_durable: "keeps (durable K view) (refreshRedisStats E)"
  unfolding refreshRedisStats_def groupsInfo_eq sentinelInfo_eq
  by (intro keeps_bind keeps_gets goStats_durable modify_durable)
    (auto intro: server_stats_durable sentinel_stats_durable)

lemma goGSLBStats_durable: "keeps (durable K view) (goGSLBStats E as vmap)"
  by (induction as arbitrary: vmap)
    (auto simp: newGSLBStats_def unix_now_def gslb_Info_def intro!: op_frames timer_durable http_frame)

lemma doStats_durable: "keeps (durable K view) (doStats_round E)"
  unfolding doStats_round_def refreshGSLBStats_def gslbsInfo_eq
  by (intro keeps_bind keeps_attempt keeps_gets keeps_ret refreshRedisStats_durable refresh_durable
      goGSLBStats_durable modify_durable) simp

lemma away_topom:
  assumes "plain_comp p"
  shows "away p (TopomPath p)"
proof -
  have "q \<noteq> TopomPath p \<and> \<not> ancestor q (TopomPath p)" if "child_of (GroupDir p) q" for q
  proof -
    from that obtain c where q: "q = ''/cache-manager/products/'' @ p @ ''/groups/'' @ c"
      using assms by (auto simp: child_of_iff GroupDir_plain)
    then show ?thesis using assms by (auto simp: ancestor_def HasPrefix_iff TopomPath_plain)
  qed
  with assms show ?thesis by (simp add: away_def group_node_child)
qed

lemma topom_node: "plain_comp p \<Longrightarrow> node_path (TopomPath p)"
  by (simp add: TopomPath_plain node_path_def plain_comp_def Split_append_general Split_word)

lemma topom_durable:
  "keeps (durable K view) (onTopom (topomMapper_Create (en_Client E)))"
  "keeps (durable K view) (onTopom (topomMapper_Delete (en_Client E)))"
proof -
  have p: "plain_comp (tmProduct (s_topom s))" "tmProduct (s_topom s) = gmProduct (s_groups s)"
    and st: "stored_but K view (s_groups s) (s_world s)" if "durable K view s" for s :: "'a svc"
    using that by (simp_all add: durable_def one_product_def)
  show "keeps (durable K view) (onTopom (topomMapper_Create (en_Client E)))"
  proof (rule keepsI)
    fix s :: "'a svc"
    assume s: "durable K view s"
    obtain r w where c: "cl_Create C (TopomPath (tmProduct (s_topom s))) (Topom_Encode (tmTopom (s_topom s))) (s_world s) = (r, w)"
      by fastforce
    from create_away [OF topom_node _ c st [OF s]] p [OF s] away_topom have "stored_but K view (s_groups s) w" by simp
    with s c show "durable K view (snd (onTopom (topomMapper_Create (en_Client E)) s))"
      by (cases r) (auto simp: onTopom_def topomMapper_Create_def io_defs client durable_def one_product_def)
  qed
  show "keeps (durable K view) (onTopom (topomMapper_Delete (en_Client E)))"
  proof (rule keepsI)
    fix s :: "'a svc"
    assume s: "durable K view s"
    obtain r w where c: "cl_Delete C (TopomPath (tmProduct (s_topom s))) (s_world s) = (r, w)" by fastforce
    from delete_away [OF topom_node _ c st [OF s]] p [OF s] away_topom have "stored_but K view (s_groups s) w" by simp
    with s c show "durable K view (snd (onTopom (topomMapper_Delete (en_Client E)) s))"
      by (cases r) (auto simp: onTopom_def topomMapper_Delete_def io_defs client durable_def one_product_def)
  qed
qed

lemma Close_durable: "keeps (durable K view) (service_Close E)"
  unfolding service_Close_def
  by (intro op_frames modify_durable onPool_durable PoolClose_frame topom_durable) simp_all

lemma is_done_durable: "durable K view s \<Longrightarrow> durable K view (snd (is_done E s))"
  by (rule durable_other) (simp_all add: is_done_def done_frame case_prod_beta)

lemma start_loop_durable: "durable K view s \<Longrightarrow> durable K view (snd (start_loop E n s))"
proof (induction n arbitrary: s)
  case (Suc n)
  obtain b1 s1 where 1: "is_done E s = (b1, s1)" by fastforce
  obtain r s2 where 2: "onTopom (topomMapper_Create (en_Client E)) s1 = (r, s2)" by fastforce
  obtain b3 s3 where 3: "is_done E s2 = (b3, s3)" by fastforce
  have d1: "durable K view s1" using is_done_durable [OF Suc.prems] 1 by simp
  have d2: "durable K view s2" using keepsD [OF topom_durable(1) d1] 2 by simp
  have d3: "durable K view s3" using is_done_durable [OF d2] 3 by simp
  show ?case using Suc.IH [OF d3] d1 d2 d3 by (simp add: 1 2 3 split: sum.split)
qed simp

lemma Start_durable:
  assumes "durable K view s"
  shows "durable K view (snd (service_Start E n s))"
proof -
  let ?s = "s\<lparr>s_started := True\<rparr>"
  have "durable K view ?s" by (rule durable_other [OF assms]) simp_all
  then have s1: "durable K view (snd (start_loop E n ?s))" by (rule start_loop_durable)
  have "keeps (durable K view) (bindE (modifyE (\<lambda>s. s\<lparr>s_online := True\<rparr>)) (\<lambda>_.
      bindE sentinelInfo (\<lambda>sentinel. reWatchSentinels (snServers sentinel))))"
    unfolding sentinelInfo_eq by (intro keeps_bind modify_durable keeps_gets reWatch_durable) simp
  from keepsD [OF this s1] s1 assms show ?thesis
    by (simp add: service_Start_def case_prod_beta split: option.split bool.split)
qed

subsection \<open>Operations that write many groups\<close>

text \<open>The groups of the cache stand under their own names meanwhile.\<close>

definition sound :: "string set \<Rightarrow> 'a svc \<Rightarrow> bool" where
  "sound K s \<longleftrightarrow> durable K view s \<and> gslb_frame (\<lambda>m _. gm_ok m) s"

lemma sound_durable: "sound K s \<Longrightarrow> durable K view s"
  by (simp add: sound_def)

lemma sound_start: "svc_inv s \<Longrightarrow> durable K view s \<Longrightarrow> sound K s"
  by (simp add: sound_def svc_inv_def groups_inv_def)

lemma gm_ok_name: "gm_ok m \<Longrightarrow> (k, g) \<in> set (gmGroups m) \<Longrightarrow> gName g = k \<and> CHR ''/'' \<notin> set k"
  by (auto simp: gm_ok_def list_all_iff named_def)

lemma keeps_sound: "keeps (durable K view) m \<Longrightarrow> keeps (gslb_frame (\<lambda>m _. gm_ok m)) m \<Longrightarrow> keeps (sound K) m"
  unfolding sound_def [abs_def] by (rule keepsI) (auto dest: keepsD)

lemma put_ok: "gm_ok m \<Longrightarrow> gName g = k \<Longrightarrow> CHR ''/'' \<notin> set k \<Longrightarrow> gm_ok (gm_put k g m)"
  by (auto simp: gm_ok_def gm_put_def named_def distinct_update intro: list_all_update)

lemma assignGroup_sound:
  assumes "k \<in> K" and "gName g = k" and "CHR ''/'' \<notin> set k"
  shows "keeps (sound K) (assignGroup k g)"
proof (rule keeps_sound [OF assignGroup_durable [OF assms(1)]])
  show "keeps (gslb_frame (\<lambda>m _. gm_ok m)) (assignGroup k g)"
    unfolding assignGroup_def gm_put_def [symmetric] by (rule keeps_modify) (simp add: put_ok assms)
qed

lemma updateGroup_sound:
  assumes "k \<in> K" and "gName g = k" and "CHR ''/'' \<notin> set k"
  shows "keeps (sound K) (updateGroup E g)"
proof (rule keeps_sound)
  have "insert k K = K" using assms(1) by blast
  with updateGroup_writes [of g K] assms show "keeps (durable K view) (updateGroup E g)"
    by (auto simp: writes_def elim: hoare_weaken durable_mono)
  show "keeps (gslb_frame (\<lambda>m _. gm_ok m)) (updateGroup E g)"
  proof (rule keepsI)
    fix s :: "'a svc"
    assume ok: "gslb_frame (\<lambda>m _. gm_ok m) s"
    obtain r w where "cl_Update C (GroupPath (gmProduct (s_groups s)) k) (Group_Encode g) (s_world s) = (r, w)" by fastforce
    with ok put_ok [OF conjunct1 [OF ok] assms(2,3)] assms(2)
    show "gslb_frame (\<lambda>m _. gm_ok m) (snd (updateGroup E g s))"
      by (cases r) (auto simp: updateGroup_def onGroups_def groupMapper_Update_def groupMapper_put_def io_defs
          gm_put_def client)
  qed
qed

lemma refresh_sound: "keeps (sound K) (refreshGSLBBackendInfo E)"
  by (intro keeps_sound refresh_durable refresh_keeps)

lemma sync_servers_sound: "keeps (sound K) (sync_servers E n ss errs)"
  by (rule keeps_sound [OF sync_servers_durable])
    (induction ss arbitrary: errs, auto simp: doSyncAction_def intro!: keeps_ret keeps_bind keeps_attempt keeps_gets keeps_onWorld)

lemma resyncGroup_sound:
  assumes "k \<in> K" and "gName g = k" and "CHR ''/'' \<notin> set k"
  shows "keeps (sound K) (resyncGroup E k g)"
  unfolding resyncGroup_def
  by (intro keeps_if keeps_ret keeps_bind sync_servers_sound assignGroup_sound keeps_attempt updateGroup_sound keeps_fail)
    (insert assms, simp_all)

lemma resync_goroutine_sound:
  assumes "k \<in> K" and "gName g = k" and "CHR ''/'' \<notin> set k"
  shows "keeps (sound K) (resync_goroutine E k g)"
  unfolding resync_goroutine_def Let_def
  by (intro keeps_bind assignGroup_sound keeps_attempt updateGroup_sound keeps_case_sum keeps_ret resyncGroup_sound)
    (insert assms, simp_all)

lemma resync_goroutines_sound:
  "fst ` set gs \<subseteq> K \<Longrightarrow> (\<And>k g. (k, g) \<in> set gs \<Longrightarrow> gName g = k \<and> CHR ''/'' \<notin> set k) \<Longrightarrow> keeps (sound K) (resync_goroutines E gs)"
proof (induction gs)
  case (Cons e gs)
  obtain k g where e: "e = (k, g)" by fastforce
  have "gName g = k \<and> CHR ''/'' \<notin> set k" by (rule Cons.prems(2)) (simp add: e)
  then have g: "gName g = k" "CHR ''/'' \<notin> set k" by blast+
  from Cons.prems(1) e have "k \<in> K" "fst ` set gs \<subseteq> K" by simp_all
  moreover have "keeps (sound K) (resync_goroutines E gs)"
    by (rule Cons.IH [OF \<open>fst ` set gs \<subseteq> K\<close>]) (rule Cons.prems(2), simp add: e)
  ultimately show ?case
    unfolding e resync_goroutines.simps by (intro keeps_bind keeps_ret resync_goroutine_sound g)
qed (simp add: keeps_ret)

lemma ResyncGroupAll_durable:
  assumes "svc_inv s" and "durable K view s"
  shows "durable (K \<union> fst ` set (gmGroups (s_groups s))) view (snd (ResyncGroupAll E s))"
proof -
  let ?K = "K \<union> fst ` set (gmGroups (s_groups s))"
  have "durable ?K view s" by (rule durable_mono [OF assms(2)]) simp
  from sound_start [OF assms(1) this] have s: "sound ?K s" .
  then have "keeps (sound ?K) (resync_goroutines E (gmGroups (s_groups s)))"
    by (intro resync_goroutines_sound) (auto simp: sound_def dest: gm_ok_name)
  from keepsD [OF this s] show ?thesis
    by (simp add: ResyncGroupAll_def bindE_gets sound_durable case_prod_beta split: sum.split option.split list.split)
qed

subsubsection \<open>Failover\<close>

lemma runId_sound: "keeps (\<lambda>cs. sound K (snd cs)) (runId E a)"
proof (rule keepsI)
  fix cs :: "info_cache \<times> 'a svc"
  assume "sound K (snd cs)"
  then show "sound K (snd (snd (runId E a cs)))"
    using GetRunId_frame [of a "(fst cs, s_world (snd cs))"]
    by (auto simp: runId_def sound_def case_prod_beta intro: durable_other)
qed

lemma find_run_id_sound: "keeps (\<lambda>cs. sound K (snd cs)) (find_run_id E a i vs)"
  by (induction vs arbitrary: i) (auto intro!: keeps_ret keeps_bind runId_sound keeps_if)

lemma find_master_sound: "keeps (\<lambda>cs. sound K (snd cs)) (find_master E g a)"
  unfolding find_master_def Let_def by (intro keeps_if keeps_ret find_run_id_sound)

lemma switch_to_sound:
  assumes "k \<in> K" and "gName g = k" and "CHR ''/'' \<notin> set k"
  shows "keeps (sound K) (switch_to E k g i)"
  unfolding switch_to_def Let_def
  by (intro keeps_bind assignGroup_sound updateGroup_sound refresh_sound) (insert assms, simp_all)

lemma trySwitch_sound:
  assumes "k \<in> K"
  shows "keeps (\<lambda>cs. sound K (snd cs)) (trySwitchGroupMaster E k a)"
proof (rule hoare_at)
  fix cs :: "info_cache \<times> 'a svc"
  assume s: "sound K (snd cs)"
  have info: "onW groupsInfo = gets (\<lambda>cs. gmGroups (s_groups (snd cs)))"
    by (rule ext) (simp add: onW_def gets_def)
  show "hoare (\<lambda>t. t = cs) (trySwitchGroupMaster E k a) (\<lambda>_ cs. sound K (snd cs)) (\<lambda>cs. sound K (snd cs))"
    unfolding trySwitchGroupMaster_def info
  proof (intro at_gets at_lookup s, goal_cases)
    case (1 g)
    with s have "gName g = k \<and> CHR ''/'' \<notin> set k" by (auto simp: sound_def dest: gm_ok_name map_of_SomeD)
    with assms show ?case
      by (intro at_pre [where P = "\<lambda>cs. sound K (snd cs)"] s keeps_bind find_master_sound keeps_if runId_sound
          keeps_fail keeps_ret keeps_onW switch_to_sound) simp_all
  qed
qed

lemma switchMasters_durable:
  assumes "svc_inv s" and "durable K view s"
  shows "durable (K \<union> fst ` set masters) view (snd (switchMasters E masters s))"
proof -
  let ?K = "K \<union> fst ` set masters"
  let ?loop = "forE masters (\<lambda>(k, a). bindE (attempt (trySwitchGroupMaster E k a)) (\<lambda>_. ret ()))"
  have loop: "keeps (\<lambda>cs. sound ?K (snd cs)) ?loop"
  proof (rule keeps_forE)
    fix e
    assume "e \<in> set masters"
    then have "fst e \<in> ?K" by simp
    then show "keeps (\<lambda>cs. sound ?K (snd cs)) (case e of (k, a) \<Rightarrow>
        bindE (attempt (trySwitchGroupMaster E k a)) (\<lambda>_. ret ()))"
      by (cases e) (auto intro!: keeps_bind keeps_attempt trySwitch_sound keeps_ret)
  qed
  have "durable ?K view s" by (rule durable_mono [OF assms(2)]) simp
  from sound_start [OF assms(1) this] have s: "sound ?K s" .
  then have "sound ?K (s\<lparr>s_haMasters := Some masters\<rparr>)" by (auto simp: sound_def intro: durable_other)
  then have "sound ?K (snd (snd (?loop (c, s\<lparr>s_haMasters := Some masters\<rparr>))))" for c
    using keepsD [OF loop, of "(c, s\<lparr>s_haMasters := Some masters\<rparr>)"] by simp
  with s show ?thesis
    by (simp add: switchMasters_def bindE_gets bindE_modify guardE_def bindE_def fail_def ret_def gets_def modifyE_def
        sound_durable case_prod_beta)
qed

end

subsection \<open>A run\<close>

text \<open>What an operation does to the set of the names whose last write is open.\<close>

definition settle :: "string \<Rightarrow> error + 'a \<Rightarrow> string set \<Rightarrow> string set" where
  "settle n r K = (case r of Inr _ \<Rightarrow> K - {n} | Inl _ \<Rightarrow> insert n K)"

fun open_after :: "'w env \<Rightarrow> op \<Rightarrow> 'w svc \<Rightarrow> string set \<Rightarrow> string set" where
  "open_after E (OpCreateGroup n r w) s K = settle n (fst (CreateGroup E n r w s)) K"
| "open_after E (OpRemoveGroup n) s K = settle n (fst (RemoveGroup E n s)) K"
| "open_after E (OpResyncGroup n) s K = settle n (fst (ResyncGroup E n s)) K"
| "open_after E (OpAddGroupServer n a) s K = settle n (fst (AddGroupServer E n a s)) K"
| "open_after E (OpDelGroupServer n a) s K = settle n (fst (DelGroupServer E n a s)) K"
| "open_after E (OpPromoteServer n a) s K = settle n (fst (GroupPromoteServer E n a s)) K"
| "open_after E OpResyncGroupAll s K = K \<union> fst ` set (gmGroups (s_groups s))"
| "open_after E (OpSwitchMasters masters) s K = K \<union> fst ` set masters"
| "open_after E _ s K = K"

text \<open>The name of a balancer comes from a path too; it is one component of its node.\<close>

fun op_named :: "op \<Rightarrow> bool" where
  "op_named (OpAddGSLB n a) = plain_comp n"
| "op_named (OpDelGSLB n a) = plain_comp n"
| "op_named _ = True"

inductive tracked :: "('w \<Rightarrow> string \<Rightarrow> data option) \<Rightarrow> 'w env \<Rightarrow> 'w svc \<Rightarrow> 'w svc \<Rightarrow> string set \<Rightarrow> bool"
    for view :: "'w \<Rightarrow> string \<Rightarrow> data option" and E :: "'w env" and s0 :: "'w svc" where
  begins: "tracked view E s0 s0 {}"
| acts: "tracked view E s0 s K \<Longrightarrow> op_ok op \<Longrightarrow> op_named op \<Longrightarrow> tracked view E s0 (run_op E op s) (open_after E op s K)"
| outside: "tracked view E s0 s K \<Longrightarrow> view w = view (s_world s) \<Longrightarrow> tracked view E s0 (s\<lparr>s_world := w\<rparr>) K"
| collected: "tracked view E s0 s K \<Longrightarrow> tracked view E s0 (s\<lparr>s_servers := stats, s_gslbStats := gstats\<rparr>) K"
| groups_moved: "tracked view E s0 s K \<Longrightarrow> mset gs = mset (gmGroups (s_groups s)) \<Longrightarrow>
    tracked view E s0 (s\<lparr>s_groups := (s_groups s)\<lparr>gmGroups := gs\<rparr>\<rparr>) K"
| gslbs_moved: "tracked view E s0 s K \<Longrightarrow> mset bs = mset (bmGslbs (s_gslb s)) \<Longrightarrow>
    tracked view E s0 (s\<lparr>s_gslb := (s_gslb s)\<lparr>bmGslbs := bs\<rparr>\<rparr>) K"

lemma tracked_reachable: "tracked view E s0 s K \<Longrightarrow> reachable E s0 s"
  by (induction rule: tracked.induct)
    (auto intro: reach_init reach_step operation world statistics group_order gslb_order)

lemma settle_durable:
  assumes "hoare (\<lambda>t. t = s) m (\<lambda>_. durable (K - {n}) view) (durable (insert n K) view)"
  shows "durable (settle n (fst (m s)) K) view (snd (m s))"
  using hoare_result [OF assms, of "fst (m s)" "snd (m s)"] by (auto simp: settle_def split: sum.splits)

context dashboard
begin

lemma acts_durable:
  assumes inv: "svc_inv s" and K: "durable K view s" and "op_ok op" and "op_named op"
  shows "durable (open_after E op s K) view (run_op E op s)"
proof (cases op)
  case (OpCreateGroup n r w)
  with assms show ?thesis by (simp add: settle_durable [OF writes_at [OF CreateGroup_writes K]])
next
  case (OpRemoveGroup n)
  then show ?thesis by (simp add: settle_durable [OF RemoveGroup_durable [OF inv K]])
next
  case (OpResyncGroup n)
  then show ?thesis by (simp add: settle_durable [OF ResyncGroup_durable [OF inv K]])
next
  case OpResyncGroupAll
  then show ?thesis by (simp add: ResyncGroupAll_durable [OF inv K])
next
  case (OpAddGroupServer n a)
  then show ?thesis by (simp add: settle_durable [OF AddGroupServer_durable [OF inv K]])
next
  case (OpDelGroupServer n a)
  then show ?thesis by (simp add: settle_durable [OF DelGroupServer_durable [OF inv K]])
next
  case (OpPromoteServer n a)
  then show ?thesis by (simp add: settle_durable [OF GroupPromoteServer_durable [OF inv K]])
next
  case (OpForceFullSync n a)
  then show ?thesis by (simp add: keepsD [OF ForceFullSync_durable K])
next
  case (OpAddSentinel a)
  then show ?thesis by (simp add: keepsD [OF AddSentinel_durable K])
next
  case (OpDelSentinel a force)
  then show ?thesis by (simp add: keepsD [OF DelSentinel_durable K])
next
  case OpResyncSentinels
  then show ?thesis by (simp add: keepsD [OF ResyncSentinels_durable K])
next
  case (OpSwitchMasters masters)
  then show ?thesis by (simp add: switchMasters_durable [OF inv K])
next
  case (OpAddGSLB n a)
  with assms hoare_result [OF AddGSLB_durable [OF inv K], of n a "fst (AddGSLB E n a s)" "snd (AddGSLB E n a s)"]
  show ?thesis by (auto split: sum.splits)
next
  case (OpDelGSLB n a)
  with assms hoare_result [OF DelGSLB_durable [OF inv K], of n a "fst (DelGSLB E n a s)" "snd (DelGSLB E n a s)"]
  show ?thesis by (auto split: sum.splits)
next
  case OpStats
  then show ?thesis by (simp add: keepsD [OF doStats_durable K])
next
  case (OpStart n)
  then show ?thesis by (simp add: Start_durable [OF K])
next
  case OpClose
  then show ?thesis by (simp add: keepsD [OF Close_durable K])
qed

lemma tracked_durable:
  "tracked view E s0 s K \<Longrightarrow> svc_inv s0 \<Longrightarrow> durable {} view s0 \<Longrightarrow> durable K view s"
proof (induction rule: tracked.induct)
  case (acts s K op)
  then show ?case using acts_durable reachable_inv [OF tracked_reachable] by blast
next
  case (groups_moved s K gs)
  then have "svc_inv s" using reachable_inv [OF tracked_reachable] by blast
  then have "distinct (map fst (gmGroups (s_groups s)))" by (simp add: svc_inv_def groups_inv_def gm_ok_def)
  with groups_moved have "map_of gs = map_of (gmGroups (s_groups s))"
    by (metis map_of_inject_set mset_eq_setD distinct_map_mset)
  with groups_moved show ?case by (simp add: durable_def one_product_def stored_but_def)
qed (auto intro: durable_other)

end

end
