(* ===== verification/Liveness.thy ===== *)
theory Liveness
  imports ServiceSystem
begin

section \<open>What cannot fail, and when Start returns\<close>

text \<open>
  \<open>sure m\<close>: the operation returns normally from every state. With a coordinator that accepts
  every write, a promotion or a creation that is allowed is carried out: nothing that the
  redis servers or the sentinels answer can make it fail.
  \<open>start_round\<close> is one turn of the loop of \<open>Start\<close>; the loop with \<open>n\<close> turns returns exactly
  when one of the first \<open>n\<close> turns ends it.
\<close>

definition sure :: "('s, 'a) io \<Rightarrow> bool" where
  "sure m \<longleftrightarrow> (\<forall>s. \<exists>x t. m s = (Inr x, t))"

lemma sureD: "sure m \<Longrightarrow> \<exists>x t. m s = (Inr x, t)"
  by (simp add: sure_def)

lemma sure_bind: "sure m \<Longrightarrow> (\<And>x. sure (f x)) \<Longrightarrow> sure (bindE m f)"
  unfolding sure_def bindE_def by (metis (no_types, lifting) old.prod.case old.sum.simps(6))

lemma sure_ret: "sure (ret x)"
  and sure_gets: "sure (gets g)"
  and sure_modify: "sure (modifyE h)"
  and sure_attempt: "sure (attempt m)"
  by (auto simp: sure_def ret_def gets_def modifyE_def attempt_def split: prod.split)

lemma sure_if: "(c \<Longrightarrow> sure m) \<Longrightarrow> (\<not> c \<Longrightarrow> sure n) \<Longrightarrow> sure (if c then m else n)"
  by simp

lemma sure_prod: "(\<And>a b. sure (f a b)) \<Longrightarrow> sure (case p of (a, b) \<Rightarrow> f a b)"
  by (cases p) simp

lemmas sure_intros = sure_bind sure_ret sure_gets sure_modify sure_attempt sure_if sure_prod

subsection \<open>Operations against a reliable coordinator\<close>

definition reliable :: "'w env \<Rightarrow> bool" where
  "reliable E \<longleftrightarrow> (\<forall>p d w. fst (cl_Update (en_Client E) p d w) = Inr ())"

lemma sure_updateGroup:
  assumes "reliable E"
  shows "sure (updateGroup E g)"
  unfolding sure_def
proof
  fix s :: "'a svc"
  obtain w where "cl_Update (en_Client E) (GroupPath (gmProduct (s_groups s)) (gName g)) (Group_Encode g) (s_world s) =
      (Inr (), w)"
    using assms by (metis prod.collapse reliable_def)
  then show "\<exists>x t. updateGroup E g s = (Inr x, t)"
    by (simp add: updateGroup_def onGroups_def groupMapper_Update_def groupMapper_put_def io_defs)
qed

lemma sure_createGroup:
  assumes "reliable E"
  shows "sure (onGroups (groupMapper_Create (en_Client E) g))"
  unfolding sure_def
proof
  fix s :: "'a svc"
  obtain w where "cl_Update (en_Client E) (GroupPath (gmProduct (s_groups s)) (gName g)) (Group_Encode g) (s_world s) =
      (Inr (), w)"
    using assms by (metis prod.collapse reliable_def)
  then show "\<exists>x t. onGroups (groupMapper_Create (en_Client E) g) s = (Inr x, t)"
    by (simp add: onGroups_def groupMapper_Create_def groupMapper_put_def io_defs)
qed

lemma sure_updateSentinel:
  assumes "reliable E"
  shows "sure (updateSentinel E sn)"
  unfolding sure_def
proof
  fix s :: "'a svc"
  obtain w where "cl_Update (en_Client E) (SentinelPath (smProduct (s_sentinel s))) (Sentinel_Encode sn) (s_world s) =
      (Inr (), w)"
    using assms by (metis prod.collapse reliable_def)
  then show "\<exists>x t. updateSentinel E sn s = (Inr x, t)"
    by (simp add: updateSentinel_def onSentinel_def sentinelMapper_Update_def io_defs)
qed

lemma sure_assign: "sure (assignGroup k g)" "sure (assignSentinel sn)"
  by (simp_all add: assignGroup_def assignSentinel_def sure_modify)

lemma sure_promote:
  assumes "reliable E"
  shows "sure (promoteFinished E g)" and "sure (promotePrepared E k g)" and "sure (promotePreparing E k g)"
    and "sure (promoteNothing E k g i)"
proof -
  show fin: "sure (promoteFinished E g)" for g
    unfolding promoteFinished_def by (rule sure_updateGroup [OF assms])
  have sn: "sure (promote_sentinel E g)" for g
    unfolding promote_sentinel_def sentinelInfo_eq sentinel_product_def
    by (intro sure_intros sure_assign sure_updateSentinel assms)
  show prep: "sure (promotePrepared E k g)" for k g
    unfolding promotePrepared_def Let_def by (intro sure_intros sn sure_assign sure_updateGroup assms fin)
  show preparing: "sure (promotePreparing E k g)" for k g
    unfolding promotePreparing_def Let_def by (intro sure_intros sure_assign sure_updateGroup assms prep)
  show "sure (promoteNothing E k g i)"
    unfolding promoteNothing_def Let_def by (intro sure_intros sure_assign sure_updateGroup assms preparing)
qed

lemma GroupPromoteServer_sure:
  assumes "reliable E" and "gm_at (s_groups s) k = Some g" and "may_promote g a"
  shows "fst (GroupPromoteServer E k a s) = Inr ()"
proof -
  note sure = sure_promote [OF assms(1)]
  let ?m = "if gPromotingState g = ActionNothing then promoteNothing E k g (GetServerIndex g a)
      else if gPromotingState g = ActionPreparing then promotePreparing E k g
      else if gPromotingState g = ActionPrepared then promotePrepared E k g
      else promoteFinished E g"
  have "sure ?m" by (intro sure_if sure)
  moreover have "GroupPromoteServer E k a s = ?m s"
    using assms(2,3)
    by (auto simp: GroupPromoteServer_def Let_def bindE_gets bindE_lookup gm_at_def may_promote_def in_promotion_def)
  ultimately show ?thesis using sureD [of ?m s] by auto
qed

lemma CreateGroup_sure:
  assumes "reliable E" and "may_create (gmGroups (s_groups s)) n r w"
  shows "fst (CreateGroup E n r w s) = Inr ()"
proof -
  have none: "find (\<lambda>(_, g). ports_conflict r w g) (gmGroups (s_groups s)) = None"
    using assms(2) by (auto simp: may_create_def find_None_iff list_all_iff)
  have "sure (bindE (time_Now E) (\<lambda>now. onGroups (groupMapper_Create (en_Client E) (fresh_group n r w now))))"
    using sure_createGroup [OF assms(1)]
    by (intro sure_bind) (auto simp: time_Now_def onWorld_def sure_def split: prod.split)
  from sureD [OF this, of s] obtain x t where
    "bindE (time_Now E) (\<lambda>now. onGroups (groupMapper_Create (en_Client E) (fresh_group n r w now))) s = (Inr x, t)"
    by blast
  then show ?thesis
    using assms(2) none
    by (simp add: CreateGroup_def bindE_gets may_create_def fresh_group_def)
qed

subsection \<open>Start\<close>

definition start_round :: "'w env \<Rightarrow> 'w svc \<Rightarrow> bool \<times> 'w svc" where
  "start_round E s =
     (case is_done E s of (d, s1) \<Rightarrow>
      if d then (True, s1)
      else (case onTopom (topomMapper_Create (en_Client E)) s1 of (r, s2) \<Rightarrow>
            (case r of Inr _ \<Rightarrow> (True, s2) | Inl _ \<Rightarrow> is_done E s2)))"

definition after_rounds :: "'w env \<Rightarrow> nat \<Rightarrow> 'w svc \<Rightarrow> 'w svc" where
  "after_rounds E k s = ((\<lambda>t. snd (start_round E t)) ^^ k) s"

lemma start_loop_round:
  "start_round E s = (ends, t) \<Longrightarrow>
     (if ends then \<exists>b. start_loop E (Suc n) s = (Some b, t) else start_loop E (Suc n) s = start_loop E n t)"
  by (auto simp: start_round_def split: prod.splits sum.splits if_splits)

lemma after_rounds_Suc: "after_rounds E (Suc k) s = after_rounds E k (snd (start_round E s))"
  unfolding after_rounds_def funpow_Suc_right comp_def ..

lemma start_loop_returns:
  "fst (start_loop E n s) \<noteq> None \<longleftrightarrow> (\<exists>k < n. fst (start_round E (after_rounds E k s)))"
proof (induction n arbitrary: s)
  case 0
  then show ?case by simp
next
  case (Suc n)
  obtain ends t where round: "start_round E s = (ends, t)" by fastforce
  have split: "(\<exists>k < Suc n. fst (start_round E (after_rounds E k s))) \<longleftrightarrow>
      ends \<or> (\<exists>k < n. fst (start_round E (after_rounds E k t)))"
    by (auto simp: Ex_less_Suc2 after_rounds_Suc round) (simp_all add: after_rounds_def round)
  show ?case
  proof (cases ends)
    case True
    with start_loop_round [OF round, of n] show ?thesis unfolding split by auto
  next
    case False
    with start_loop_round [OF round, of n] Suc.IH [of t] show ?thesis unfolding split by simp
  qed
qed

end
