(* ===== verification/Http.thy ===== *)
theory Http
  imports ServiceSystem
begin

section \<open>The HTTP interface (package handler)\<close>

text \<open>
  The handlers that the router calls with the segments of the path: the checks each one makes,
  the operation it calls, the status it answers with.
  \<^item> \<open>respond\<close> runs an operation and turns its error into \<open>500\<close>; \<open>None\<close> is a handler that
    never answers (\<open>ResyncGroupAll\<close> can be one).
  \<^item> \<open>request\<close> has one constructor per registered route, with the segments the handler reads;
    the segment \<open>xauth\<close> is read by no handler. A segment holds no slash.
  \<^item> Logging, compression and the encoding of the answers are left out.
\<close>

subsection \<open>Answers\<close>

datatype body =
    NoBody
  | Html string
  | Raw string
  | MonitoredBody "(string \<times> sentinel_group) list"
  | OverviewBody overview
  | StatsBody protocol_stats

datatype response =
    StatusOK body
  | StatusBadRequest string
  | StatusInternalServerError error

type_synonym 'w handler = "'w svc \<Rightarrow> response option \<times> 'w svc"

definition respond :: "('a \<Rightarrow> body) \<Rightarrow> ('w svc, 'a) io \<Rightarrow> 'w handler" where
  "respond f m s =
     (case m s of (r, s') \<Rightarrow>
       (Some (case r of Inl e \<Rightarrow> StatusInternalServerError e | Inr x \<Rightarrow> StatusOK (f x)), s'))"

definition bad_request :: "string \<Rightarrow> 'w handler" where
  "bad_request text s = (Some (StatusBadRequest text), s)"

definition validPort :: "int \<Rightarrow> bool" where
  "validPort port = (if port < 10000 \<or> port > 59999 then False else True)"

definition TextPreHtml :: "string \<Rightarrow> string" where
  "TextPreHtml text =
     [CHR 10] @ ''<html>'' @ [CHR 10] @ ''<head>'' @ [CHR 10] @ ''  <meta charset='' @ [CHR 34] @ ''UTF-8'' @ [CHR 34] @ ''>'' @ [CHR 10] @
     ''</head>'' @ [CHR 10] @ ''<body>'' @ [CHR 10] @ [CHR 9] @ ''<pre>'' @ [CHR 10] @ text @ [CHR 10] @ [CHR 9] @ ''</pre>'' @ [CHR 10] @
     ''</body>'' @ [CHR 10] @ ''</html>'' @ [CHR 10]"

subsection \<open>Groups (handler/group\_handler.go)\<close>

definition h_Create :: "'w env \<Rightarrow> string \<Rightarrow> string \<Rightarrow> string \<Rightarrow> 'w handler" where
  "h_Create E groupName rport wport =
     (if groupName = [] then bad_request ''group name invalid''
      else (case Atoi rport of
              None \<Rightarrow> bad_request ''proxy read port invalid''
            | Some readPort \<Rightarrow>
                if \<not> validPort readPort then bad_request ''proxy read port invalid''
                else (case Atoi wport of
                        None \<Rightarrow> bad_request ''proxy write port invalid''
                      | Some writePort \<Rightarrow>
                          if \<not> validPort writePort then bad_request ''proxy write port invalid''
                          else respond (\<lambda>_. NoBody) (CreateGroup E groupName readPort writePort))))"

definition h_Remove :: "'w env \<Rightarrow> string \<Rightarrow> 'w handler" where
  "h_Remove E groupName =
     (if groupName = [] then bad_request ''group name invalid''
      else respond (\<lambda>_. NoBody) (RemoveGroup E groupName))"

definition h_Resync :: "'w env \<Rightarrow> string \<Rightarrow> 'w handler" where
  "h_Resync E groupName =
     (if groupName = [] then bad_request ''group name invalid''
      else respond (\<lambda>_. NoBody) (ResyncGroup E groupName))"

definition h_ResyncAll :: "'w env \<Rightarrow> 'w handler" where
  "h_ResyncAll E s =
     (case ResyncGroupAll E s of (r, s') \<Rightarrow>
       (map_option (\<lambda>x. case x of Inl e \<Rightarrow> StatusInternalServerError e | Inr _ \<Rightarrow> StatusOK NoBody) r, s'))"

definition with_server :: "string \<Rightarrow> string \<Rightarrow> ('w svc, unit) io \<Rightarrow> 'w handler" where
  "with_server groupName addr m =
     (if groupName = [] then bad_request ''group name invalid''
      else if addr = [] then bad_request ''missing addr''
      else respond (\<lambda>_. NoBody) m)"

definition h_AddServer :: "'w env \<Rightarrow> string \<Rightarrow> string \<Rightarrow> 'w handler" where
  "h_AddServer E groupName addr = with_server groupName addr (AddGroupServer E groupName addr)"

definition h_DelServer :: "'w env \<Rightarrow> string \<Rightarrow> string \<Rightarrow> 'w handler" where
  "h_DelServer E groupName addr = with_server groupName addr (DelGroupServer E groupName addr)"

definition h_PromoteServer :: "'w env \<Rightarrow> string \<Rightarrow> string \<Rightarrow> 'w handler" where
  "h_PromoteServer E groupName addr = with_server groupName addr (GroupPromoteServer E groupName addr)"

definition h_ForceFullSyncServer :: "'w env \<Rightarrow> string \<Rightarrow> string \<Rightarrow> 'w handler" where
  "h_ForceFullSyncServer E groupName addr = with_server groupName addr (GroupForceFullSyncServer E groupName addr)"

definition with_addr :: "string \<Rightarrow> ('a \<Rightarrow> body) \<Rightarrow> ('w svc, 'a) io \<Rightarrow> 'w handler" where
  "with_addr addr f m = (if addr = [] then bad_request ''missing addr'' else respond f m)"

definition h_ServerInfo :: "'w env \<Rightarrow> string \<Rightarrow> 'w handler" where
  "h_ServerInfo E addr = with_addr addr (Html \<circ> TextPreHtml) (ServerInfo E addr)"

subsection \<open>Sentinels (handler/sentinel\_handler.go)\<close>

definition h_AddSentinel :: "'w env \<Rightarrow> string \<Rightarrow> 'w handler" where
  "h_AddSentinel E addr = with_addr addr (\<lambda>_. NoBody) (AddSentinel E addr)"

definition h_DelSentinel :: "'w env \<Rightarrow> string \<Rightarrow> string \<Rightarrow> 'w handler" where
  "h_DelSentinel E addr force =
     (if addr = [] then bad_request ''missing addr''
      else (case Atoi force of
              None \<Rightarrow> bad_request ''invalid force''
            | Some n \<Rightarrow> respond (\<lambda>_. NoBody) (DelSentinel E addr (n \<noteq> 0))))"

definition h_ResyncSentinels :: "'w env \<Rightarrow> 'w handler" where
  "h_ResyncSentinels E = respond (\<lambda>_. NoBody) (ResyncSentinels E)"

definition h_SentinelInfo :: "'w env \<Rightarrow> string \<Rightarrow> 'w handler" where
  "h_SentinelInfo E addr = with_addr addr (Html \<circ> TextPreHtml) (SentinelInfo E addr)"

definition h_SentinelMonitoredInfo :: "'w env \<Rightarrow> string \<Rightarrow> 'w handler" where
  "h_SentinelMonitoredInfo E addr = with_addr addr MonitoredBody (SentinelMonitoredInfo E addr)"

subsection \<open>GSLB (handler/gslb\_handler.go)\<close>

definition with_gslb :: "string \<Rightarrow> string \<Rightarrow> ('w svc, unit) io \<Rightarrow> 'w handler" where
  "with_gslb gslbName addr m =
     (if gslbName = [] then bad_request ''gslb name invalid''
      else if addr = [] then bad_request ''missing addr''
      else respond (\<lambda>_. NoBody) m)"

definition h_AddGSLB :: "'w env \<Rightarrow> string \<Rightarrow> string \<Rightarrow> 'w handler" where
  "h_AddGSLB E gslbName addr = with_gslb gslbName addr (AddGSLB E gslbName addr)"

definition h_DelGSLB :: "'w env \<Rightarrow> string \<Rightarrow> string \<Rightarrow> 'w handler" where
  "h_DelGSLB E gslbName addr = with_gslb gslbName addr (DelGSLB E gslbName addr)"

definition h_GSLBMonitorInfo :: "'w env \<Rightarrow> string \<Rightarrow> 'w handler" where
  "h_GSLBMonitorInfo E addr = with_addr addr Raw (GSLBMonitorInfo E addr)"

subsection \<open>Views (handler/agg\_handler.go, handler/template\_file\_handler.go)\<close>

text \<open>\<open>aggHandler.Topom\<close> calls \<open>Overview\<close>, as \<open>aggHandler.Overview\<close> does.\<close>

definition h_Overview :: "'w handler" where
  "h_Overview = respond OverviewBody Overview"

definition h_Topom :: "'w handler" where
  "h_Topom = respond OverviewBody Overview"

definition h_Stats :: "'w handler" where
  "h_Stats = respond StatsBody service_Stats"

definition h_TemplateFile :: "string \<Rightarrow> 'w handler" where
  "h_TemplateFile fileName =
     (if fileName = [] then bad_request ''template file name invalid''
      else respond (Html \<circ> TextPreHtml) (ViewTemplateFile fileName))"

subsection \<open>The routes\<close>

datatype request =
    PutGroupCreate string string string
  | PutGroupRemove string
  | PutGroupResync string
  | PutGroupResyncAll
  | PutGroupAdd string string
  | PutGroupDel string string
  | PutGroupPromote string string
  | PutGroupForceFullSync string string
  | GetGroupInfo string
  | PutSentinelAdd string
  | PutSentinelDel string string
  | PutSentinelResyncAll
  | GetSentinelInfo string
  | GetSentinelMonitored string
  | PutGslbAdd string string
  | PutGslbDel string string
  | GetGslbMonitored string
  | GetTopom
  | GetTopomModel
  | GetTopomStats
  | GetTemplateFile string

fun serve :: "'w env \<Rightarrow> request \<Rightarrow> 'w handler" where
  "serve E (PutGroupCreate gname rport wport) = h_Create E gname rport wport"
| "serve E (PutGroupRemove gname) = h_Remove E gname"
| "serve E (PutGroupResync gname) = h_Resync E gname"
| "serve E PutGroupResyncAll = h_ResyncAll E"
| "serve E (PutGroupAdd gname addr) = h_AddServer E gname addr"
| "serve E (PutGroupDel gname addr) = h_DelServer E gname addr"
| "serve E (PutGroupPromote gname addr) = h_PromoteServer E gname addr"
| "serve E (PutGroupForceFullSync gname addr) = h_ForceFullSyncServer E gname addr"
| "serve E (GetGroupInfo addr) = h_ServerInfo E addr"
| "serve E (PutSentinelAdd addr) = h_AddSentinel E addr"
| "serve E (PutSentinelDel addr force) = h_DelSentinel E addr force"
| "serve E PutSentinelResyncAll = h_ResyncSentinels E"
| "serve E (GetSentinelInfo addr) = h_SentinelInfo E addr"
| "serve E (GetSentinelMonitored addr) = h_SentinelMonitoredInfo E addr"
| "serve E (PutGslbAdd name addr) = h_AddGSLB E name addr"
| "serve E (PutGslbDel name addr) = h_DelGSLB E name addr"
| "serve E (GetGslbMonitored addr) = h_GSLBMonitorInfo E addr"
| "serve E GetTopom = h_Overview"
| "serve E GetTopomModel = h_Topom"
| "serve E GetTopomStats = h_Stats"
| "serve E (GetTemplateFile name) = h_TemplateFile name"

subsection \<open>What a request can do\<close>

named_theorems http_defs \<open>unfolding of the handlers\<close>

lemmas [http_defs] = bad_request_def h_Create_def h_Remove_def h_Resync_def with_server_def
  h_AddServer_def h_DelServer_def h_PromoteServer_def h_ForceFullSyncServer_def with_addr_def h_ServerInfo_def
  h_AddSentinel_def h_DelSentinel_def h_ResyncSentinels_def h_SentinelInfo_def h_SentinelMonitoredInfo_def
  with_gslb_def h_AddGSLB_def h_DelGSLB_def h_GSLBMonitorInfo_def h_Overview_def h_Topom_def h_Stats_def
  h_TemplateFile_def

lemma respond_not_400: "respond f m s \<noteq> (Some (StatusBadRequest text), t)"
  by (auto simp: respond_def split: prod.split sum.split)

lemma snd_respond: "snd (respond f m s) = snd (m s)"
  by (simp add: respond_def split: prod.split)

lemma respond_OK: "respond f m s = (Some (StatusOK b), t) \<Longrightarrow> \<exists>x. m s = (Inr x, t)"
  by (auto simp: respond_def split: prod.splits sum.splits)

lemma ResyncAll_not_400: "h_ResyncAll E s \<noteq> (Some (StatusBadRequest text), t)"
proof -
  obtain r u where run: "ResyncGroupAll E s = (r, u)" by fastforce
  then show ?thesis by (cases r) (auto simp: h_ResyncAll_def split: sum.split)
qed

lemma bad_request_unchanged:
  assumes "serve E req s = (Some (StatusBadRequest text), t)"
  shows "t = s"
  using assms
  by (cases req) (auto simp: http_defs respond_not_400 ResyncAll_not_400 split: option.splits if_splits)

text \<open>The routes that only read leave the three caches alone.\<close>

lemma views_keep:
  "keeps (of_caches P) (service_Topom)" "keeps (of_caches P) service_Stats"
  "keeps (of_caches P) (ServerInfo E addr)" "keeps (of_caches P) (SentinelInfo E addr)"
  "keeps (of_caches P) (SentinelMonitoredInfo E addr)" "keeps (of_caches P) (GSLBMonitorInfo E addr)"
  "keeps (of_caches P) (ViewTemplateFile name)"
  unfolding service_Topom_def service_Stats_def ServerInfo_def SentinelInfo_def SentinelMonitoredInfo_def
    GSLBMonitorInfo_def ViewTemplateFile_def groupsInfo_eq sentinelInfo_eq gslbsInfo_eq sentinel_product_def
  by (intro keeps_bind keeps_gets keeps_onWorld keeps_onTopom keeps_lookup keeps_ret | (simp split: prod.split, intro allI impI keeps_onWorld))+

text \<open>
  A segment of a path holds no slash; it is the only way a group name comes in.
\<close>

fun segments_ok :: "request \<Rightarrow> bool" where
  "segments_ok (PutGroupCreate gname rport wport) = (CHR ''/'' \<notin> set gname)"
| "segments_ok _ = True"

lemma respond_inv: "svc_inv (snd (m s)) \<Longrightarrow> svc_inv (snd (respond f m s))"
  by (simp add: snd_respond)

lemma bad_inv: "svc_inv s \<Longrightarrow> svc_inv (snd (bad_request text s))"
  by (simp add: bad_request_def)

lemma view_inv: "svc_inv s \<Longrightarrow> (\<And>P. keeps (of_caches P) m) \<Longrightarrow> svc_inv (snd (respond f m s))"
  by (intro respond_inv keeps_inv)

lemma Overview_keeps: "keeps (of_caches P) Overview"
  unfolding Overview_def by (intro keeps_bind views_keep keeps_gets)

lemma ResyncAll_inv: "svc_inv s \<Longrightarrow> svc_inv (snd (h_ResyncAll E s))"
  using ResyncGroupAll_inv(1) [of s E] by (simp add: h_ResyncAll_def case_prod_beta)

lemma h_Create_inv:
  assumes "svc_inv s" and "CHR ''/'' \<notin> set gname"
  shows "svc_inv (snd (h_Create E gname rport wport s))"
proof -
  have "svc_inv (snd (respond f (CreateGroup E gname r w) s))" for f r w
    using run_op_inv [OF assms(1), of "OpCreateGroup gname r w" E] assms(2) by (simp add: snd_respond)
  then show ?thesis using bad_inv [OF assms(1)] by (simp add: h_Create_def split: option.split)
qed

lemma serve_inv:
  assumes inv: "svc_inv s" and "segments_ok req"
  shows "svc_inv (snd (serve E req s))"
proof (cases req)
  case (PutGroupCreate gname rport wport)
  with assms(2) h_Create_inv [OF inv] show ?thesis by simp
next
  case (PutGroupRemove gname)
  then show ?thesis using run_op_inv [OF inv, of "OpRemoveGroup gname" E] inv by (simp add: http_defs snd_respond)
next
  case (PutGroupResync gname)
  then show ?thesis using run_op_inv [OF inv, of "OpResyncGroup gname" E] inv by (simp add: http_defs snd_respond)
next
  case PutGroupResyncAll
  then show ?thesis using ResyncAll_inv [OF inv] by simp
next
  case (PutGroupAdd gname addr)
  then show ?thesis using run_op_inv [OF inv, of "OpAddGroupServer gname addr" E] inv by (simp add: http_defs snd_respond)
next
  case (PutGroupDel gname addr)
  then show ?thesis using run_op_inv [OF inv, of "OpDelGroupServer gname addr" E] inv by (simp add: http_defs snd_respond)
next
  case (PutGroupPromote gname addr)
  then show ?thesis using run_op_inv [OF inv, of "OpPromoteServer gname addr" E] inv by (simp add: http_defs snd_respond)
next
  case (PutGroupForceFullSync gname addr)
  then show ?thesis using run_op_inv [OF inv, of "OpForceFullSync gname addr" E] inv by (simp add: http_defs snd_respond)
next
  case (PutSentinelAdd addr)
  then show ?thesis using run_op_inv [OF inv, of "OpAddSentinel addr" E] inv by (simp add: http_defs snd_respond)
next
  case (PutSentinelDel addr force)
  have "svc_inv (snd (respond f (DelSentinel E addr b) s))" for f b
    using run_op_inv [OF inv, of "OpDelSentinel addr b" E] by (simp add: snd_respond)
  then show ?thesis using bad_inv [OF inv] PutSentinelDel by (simp add: h_DelSentinel_def split: option.split)
next
  case PutSentinelResyncAll
  then show ?thesis using run_op_inv [OF inv, of OpResyncSentinels E] inv by (simp add: http_defs snd_respond)
next
  case (PutGslbAdd name addr)
  then show ?thesis using run_op_inv [OF inv, of "OpAddGSLB name addr" E] inv by (simp add: http_defs snd_respond)
next
  case (PutGslbDel name addr)
  then show ?thesis using run_op_inv [OF inv, of "OpDelGSLB name addr" E] inv by (simp add: http_defs snd_respond)
qed (simp_all add: h_ServerInfo_def h_SentinelInfo_def h_SentinelMonitoredInfo_def h_GSLBMonitorInfo_def with_addr_def
    h_Overview_def h_Topom_def h_Stats_def h_TemplateFile_def bad_inv inv view_inv views_keep Overview_keeps)

lemma validPort_iff: "validPort p \<longleftrightarrow> 10000 \<le> p \<and> p \<le> 59999"
  by (auto simp: validPort_def)

text \<open>A group created over HTTP has two different ports of the allowed range, free until then.\<close>

lemma h_Create_OK:
  assumes "svc_inv s" and "CHR ''/'' \<notin> set gname" and "h_Create E gname rport wport s = (Some (StatusOK b), t)"
  obtains r w now where "Atoi rport = Some r" and "Atoi wport = Some w" and "validPort r" and "validPort w"
    and "may_create (gmGroups (s_groups s)) gname r w" and "svc_inv t"
    and "s_groups t = gm_put gname (fresh_group gname r w now) (s_groups s)"
proof -
  from assms(3) obtain r w where rw: "Atoi rport = Some r" "Atoi wport = Some w" "validPort r" "validPort w"
    and "respond (\<lambda>_. NoBody) (CreateGroup E gname r w) s = (Some (StatusOK b), t)"
    by (auto simp: h_Create_def bad_request_def split: if_splits option.splits)
  from respond_OK [OF this(5)] have "CreateGroup E gname r w s = (Inr (), t)" by auto
  from hoareD(1) [OF CreateGroup_spec [OF assms(1,2)] refl this] that [OF rw] show thesis by blast
qed

end
