(* ===== verification/Routes.thy ===== *)
theory Routes
  imports Http Logging
begin

section \<open>Routing (the Init functions of package handler, cmd/dashboard/main.go)\<close>

text \<open>
  The routes as \<open>main\<close> registers them, with their patterns as the source writes them, and how a
  request finds its handler.
  \<^item> \<open>match_pattern\<close> is what gin documents: a pattern matches segment by segment, \<open>:name\<close> takes
    any segment, at the end only one that is not empty. A path has been unescaped before it is
    split, so a segment holds no slash.
  \<^item> \<open>Unrouted\<close> is any answer gin gives itself (\<open>404\<close>, a redirect to the path without its last
    slash).
\<close>

type_synonym route = "string \<times> string \<times> ((string \<Rightarrow> string) \<Rightarrow> request)"

definition InitGroupHandler :: "string \<Rightarrow> route list" where
  "InitGroupHandler router =
     (let r = router @ ''/group'' in
      [(''PUT'', r @ ''/create/:xauth/:gname/:rport/:wport'', \<lambda>p. PutGroupCreate (p ''gname'') (p ''rport'') (p ''wport'')),
       (''PUT'', r @ ''/remove/:xauth/:gname'', \<lambda>p. PutGroupRemove (p ''gname'')),
       (''PUT'', r @ ''/resync/:xauth/:gname'', \<lambda>p. PutGroupResync (p ''gname'')),
       (''PUT'', r @ ''/resync-all/:xauth'', \<lambda>p. PutGroupResyncAll),
       (''PUT'', r @ ''/add/:xauth/:gname/:addr'', \<lambda>p. PutGroupAdd (p ''gname'') (p ''addr'')),
       (''PUT'', r @ ''/del/:xauth/:gname/:addr'', \<lambda>p. PutGroupDel (p ''gname'') (p ''addr'')),
       (''PUT'', r @ ''/promote/:xauth/:gname/:addr'', \<lambda>p. PutGroupPromote (p ''gname'') (p ''addr'')),
       (''PUT'', r @ ''/force-full-sync/:xauth/:gname/:addr'', \<lambda>p. PutGroupForceFullSync (p ''gname'') (p ''addr'')),
       (''GET'', r @ ''/info/:addr'', \<lambda>p. GetGroupInfo (p ''addr''))])"

definition InitSentinelHandler :: "string \<Rightarrow> route list" where
  "InitSentinelHandler router =
     (let r = router @ ''/sentinels'' in
      [(''PUT'', r @ ''/add/:xauth/:addr'', \<lambda>p. PutSentinelAdd (p ''addr'')),
       (''PUT'', r @ ''/del/:xauth/:addr/:force'', \<lambda>p. PutSentinelDel (p ''addr'') (p ''force'')),
       (''PUT'', r @ ''/resync-all/:xauth'', \<lambda>p. PutSentinelResyncAll),
       (''GET'', r @ ''/info/:addr'', \<lambda>p. GetSentinelInfo (p ''addr'')),
       (''GET'', r @ ''/info/:addr/monitored'', \<lambda>p. GetSentinelMonitored (p ''addr''))])"

definition InitGSLBHandler :: "string \<Rightarrow> route list" where
  "InitGSLBHandler router =
     (let r = router @ ''/gslbs'' in
      [(''PUT'', r @ ''/add/:xauth/:gslbname/:addr'', \<lambda>p. PutGslbAdd (p ''gslbname'') (p ''addr'')),
       (''PUT'', r @ ''/del/:xauth/:gslbname/:addr'', \<lambda>p. PutGslbDel (p ''gslbname'') (p ''addr'')),
       (''GET'', r @ ''/info/:addr/monitored'', \<lambda>p. GetGslbMonitored (p ''addr''))])"

definition InitAggHandler :: "string \<Rightarrow> string \<Rightarrow> route list" where
  "InitAggHandler router apiRouter =
     (let r = router @ ''/topom'' in
      [(''GET'', r, \<lambda>p. GetTopom),
       (''GET'', r @ ''/model'', \<lambda>p. GetTopomModel),
       (''GET'', r @ ''/stats'', \<lambda>p. GetTopomStats),
       (''GET'', apiRouter @ ''/stats/:xauth'', \<lambda>p. GetTopomStats)])"

definition InitTFHandler :: "string \<Rightarrow> route list" where
  "InitTFHandler router =
     (let r = router @ ''/tf'' in [(''GET'', r @ ''/info/:filename'', \<lambda>p. GetTemplateFile (p ''filename''))])"

definition routes :: "route list" where
  "routes =
     (let apiRouter = ''/api/topom'' in
      InitAggHandler '''' apiRouter @ InitGroupHandler apiRouter @ InitSentinelHandler apiRouter @
      InitGSLBHandler apiRouter @ InitTFHandler apiRouter)"

fun match_pattern :: "string list \<Rightarrow> string list \<Rightarrow> (string \<times> string) list option" where
  "match_pattern [] [] = Some []"
| "match_pattern (p # ps) (s # ss) =
     (if HasPrefix p '':''
      then (if ps = [] \<and> s = [] then None else map_option (Cons (tl p, s)) (match_pattern ps ss))
      else if p = s then match_pattern ps ss
      else None)"
| "match_pattern _ _ = None"

definition ctx_Param :: "(string \<times> string) list \<Rightarrow> string \<Rightarrow> string" where
  "ctx_Param params name = (case map_of params name of None \<Rightarrow> [] | Some v \<Rightarrow> v)"

fun lookup_route :: "route list \<Rightarrow> string \<Rightarrow> string \<Rightarrow> request option" where
  "lookup_route [] meth path = None"
| "lookup_route ((m, pat, h) # rs) meth path =
     (case (if m = meth then match_pattern (Split CHR ''/'' pat) (Split CHR ''/'' path) else None) of
        Some params \<Rightarrow> Some (h (ctx_Param params))
      | None \<Rightarrow> lookup_route rs meth path)"

definition find_route :: "string \<Rightarrow> string \<Rightarrow> request option" where
  "find_route meth path = lookup_route routes meth path"

datatype http_answer = Unrouted | NoAnswer | Answer response

definition http :: "'w env \<Rightarrow> string \<Rightarrow> string \<Rightarrow> 'w svc \<Rightarrow> http_answer \<times> 'w svc" where
  "http E meth path s =
     (case find_route meth path of
        None \<Rightarrow> (Unrouted, s)
      | Some req \<Rightarrow>
          (case serve E req s of
             (None, t) \<Rightarrow> (NoAnswer, t)
           | (Some a, t) \<Rightarrow> (Answer a, t)))"

text \<open>What the first of the middlewares logs of a request.\<close>

definition RecordSourceHandler :: "string \<Rightarrow> string \<Rightarrow> string \<Rightarrow> (string \<Rightarrow> string) \<Rightarrow> severity \<times> message" where
  "RecordSourceHandler meth path remoteAddr header =
     (let headerAddr = (case find (\<lambda>key. header key \<noteq> []) [''X-Real-IP'', ''X-Forwarded-For''] of
                          None \<Rightarrow> []
                        | Some key \<Rightarrow> header key)
      in (if meth = ''GET'' then SevDebug else SevInfo,
          Printf ''API call %s from %s [%s]'' [path, remoteAddr, headerAddr]))"

subsection \<open>The handlers get what the path holds\<close>

lemma match_pattern_segments:
  "match_pattern ps ss = Some params \<Longrightarrow> (name, v) \<in> set params \<Longrightarrow> v \<in> set ss"
proof (induction ps ss arbitrary: params rule: match_pattern.induct)
  case (2 p ps s ss)
  then show ?case by (auto split: if_splits)
qed auto

lemma ctx_Param_no_slash:
  assumes "match_pattern ps (Split CHR ''/'' path) = Some params"
  shows "CHR ''/'' \<notin> set (ctx_Param params name)"
proof (cases "map_of params name")
  case (Some v)
  from match_pattern_segments [OF assms map_of_SomeD [OF this]] Split_words Some show ?thesis
    by (auto simp: ctx_Param_def)
qed (simp add: ctx_Param_def)

lemma lookup_routeD:
  "lookup_route rs meth path = Some req \<Longrightarrow>
   \<exists>pat h params. (meth, pat, h) \<in> set rs \<and> match_pattern (Split CHR ''/'' pat) (Split CHR ''/'' path) = Some params \<and>
     req = h (ctx_Param params)"
  by (induction rs meth path rule: lookup_route.induct) (auto split: option.splits if_splits)

lemmas Init_defs = InitGroupHandler_def InitSentinelHandler_def InitGSLBHandler_def InitAggHandler_def
  InitTFHandler_def

lemma routes_segments_ok:
  "(meth, pat, h) \<in> set routes \<Longrightarrow> (\<And>name. CHR ''/'' \<notin> set (f name)) \<Longrightarrow> segments_ok (h f)"
  by (auto simp: routes_def Init_defs Let_def)

lemma dispatch_segments_ok: "find_route meth path = Some req \<Longrightarrow> segments_ok req"
  unfolding find_route_def using lookup_routeD routes_segments_ok ctx_Param_no_slash by metis

lemma http_inv: "svc_inv s \<Longrightarrow> svc_inv (snd (http E meth path s))"
  using serve_inv [OF _ dispatch_segments_ok, of s meth path _ E]
  by (auto simp: http_def split: option.split prod.split)

subsection \<open>No path has two handlers\<close>

fun apart :: "string list \<Rightarrow> string list \<Rightarrow> bool" where
  "apart [] [] = False"
| "apart (p # ps) (q # qs) =
     (p \<noteq> q \<and> \<not> HasPrefix p '':'' \<and> \<not> HasPrefix q '':'' \<or> apart ps qs)"
| "apart _ _ = True"

fun routes_apart :: "route list \<Rightarrow> bool" where
  "routes_apart [] = True"
| "routes_apart ((m, pat, h) # rs) =
     (list_all (\<lambda>(m', pat', _). m \<noteq> m' \<or> apart (Split CHR ''/'' pat) (Split CHR ''/'' pat')) rs \<and> routes_apart rs)"

lemma match_tail: "match_pattern (p # ps) (s # ss) = Some params \<Longrightarrow> \<exists>params'. match_pattern ps ss = Some params'"
  by (auto split: if_splits)

lemma apart_no_common:
  "apart ps qs \<Longrightarrow> match_pattern ps ss = Some a \<Longrightarrow> match_pattern qs ss = None"
proof (induction ps qs arbitrary: ss a rule: apart.induct)
  case (2 p ps q qs)
  from "2.prems"(2) obtain s ss' where ss: "ss = s # ss'" by (cases ss) auto
  show ?case
  proof (cases "apart ps qs")
    case True
    from match_tail "2.prems"(2) ss obtain a' where "match_pattern ps ss' = Some a'" by blast
    with "2.IH" True have "match_pattern qs ss' = None" by blast
    with match_tail [of q qs s ss'] ss show ?thesis by (cases "match_pattern (q # qs) ss") auto
  next
    case False
    with "2.prems" ss show ?thesis by (auto split: if_splits)
  qed
qed (auto elim: match_pattern.elims)

lemma lookup_route_unique:
  assumes "routes_apart rs" and "(meth, pat, h) \<in> set rs"
    and "match_pattern (Split CHR ''/'' pat) (Split CHR ''/'' path) = Some params"
  shows "lookup_route rs meth path = Some (h (ctx_Param params))"
  using assms(1,2)
proof (induction rs)
  case (Cons r rs)
  obtain m' pat' h' where r: "r = (m', pat', h')" by (cases r)
  show ?case
  proof (cases "(meth, pat, h) = r")
    case False
    with Cons.prems have mem: "(meth, pat, h) \<in> set rs" by simp
    with Cons.prems(1) r have "m' \<noteq> meth \<or> apart (Split CHR ''/'' pat') (Split CHR ''/'' pat)"
      by (auto simp: list_all_iff)
    with assms(3) apart_no_common have "m' \<noteq> meth \<or> match_pattern (Split CHR ''/'' pat') (Split CHR ''/'' path) = None"
      by (metis option.exhaust option.distinct(1))
    with Cons mem r show ?thesis by auto
  qed (use r assms(3) in auto)
qed simp

lemma routes_are_apart: "routes_apart routes"
  by code_simp

lemma dispatch_route:
  "(meth, pat, h) \<in> set routes \<Longrightarrow> match_pattern (Split CHR ''/'' pat) (Split CHR ''/'' path) = Some params \<Longrightarrow>
   find_route meth path = Some (h (ctx_Param params))"
  unfolding find_route_def by (rule lookup_route_unique [OF routes_are_apart])

lemma http_refused:
  assumes "http E meth path s = (a, t)" and "a = Unrouted \<or> (\<exists>msg. a = Answer (StatusBadRequest msg))"
  shows "t = s"
  using assms bad_request_unchanged by (auto simp: http_def split: option.splits prod.splits)

text \<open>A path that creates a group.\<close>

lemma dispatch_create:
  assumes "Split CHR ''/'' path = ['''', ''api'', ''topom'', ''group'', ''create'', xauth, n, rport, wport]" and "wport \<noteq> []"
  shows "find_route ''PUT'' path = Some (PutGroupCreate n rport wport)"
proof -
  have pat: "Split CHR ''/'' ''/api/topom/group/create/:xauth/:gname/:rport/:wport'' =
      ['''', ''api'', ''topom'', ''group'', ''create'', '':xauth'', '':gname'', '':rport'', '':wport'']" by code_simp
  have "match_pattern (Split CHR ''/'' ''/api/topom/group/create/:xauth/:gname/:rport/:wport'') (Split CHR ''/'' path) =
      Some [(''xauth'', xauth), (''gname'', n), (''rport'', rport), (''wport'', wport)]"
    unfolding pat assms(1) using assms(2) by (simp add: HasPrefix_def)
  from dispatch_route [OF _ this, of "''PUT''" "\<lambda>p. PutGroupCreate (p ''gname'') (p ''rport'') (p ''wport'')"]
  show ?thesis by (simp add: routes_def Init_defs ctx_Param_def)
qed

lemma match_last:
  "match_pattern ps ss = Some params \<Longrightarrow>
   length ps = length ss \<and> (ps \<noteq> [] \<longrightarrow> HasPrefix (last ps) '':'' \<longrightarrow> last ss \<noteq> [])"
  by (induction ps ss arbitrary: params rule: match_pattern.induct) (auto split: if_splits)

lemma dispatch_create_short:
  assumes "Split CHR ''/'' path = ['''', ''api'', ''topom'', ''group'', ''create'', xauth, n, rport, []]"
  shows "find_route ''PUT'' path = None"
proof (rule ccontr)
  assume "find_route ''PUT'' path \<noteq> None"
  then obtain pat h params where r: "(''PUT'', pat, h) \<in> set routes"
    and m: "match_pattern (Split CHR ''/'' pat) (Split CHR ''/'' path) = Some params"
    by (auto simp: find_route_def dest: lookup_routeD)
  have "list_all (\<lambda>(m, pat, h). m \<noteq> ''PUT'' \<or> length (Split CHR ''/'' pat) \<noteq> 9 \<or>
      HasPrefix (last (Split CHR ''/'' pat)) '':'') routes" by code_simp
  with r have "length (Split CHR ''/'' pat) \<noteq> 9 \<or> HasPrefix (last (Split CHR ''/'' pat)) '':''"
    by (auto simp: list_all_iff)
  with match_last [OF m] Split_nonempty [of "CHR ''/''" pat] show False unfolding assms by auto
qed

lemma http_create:
  assumes "Split CHR ''/'' path = ['''', ''api'', ''topom'', ''group'', ''create'', xauth, n, rport, wport]"
    and "http E ''PUT'' path s = (Answer (StatusOK b), t)"
  shows "CHR ''/'' \<notin> set n \<and> h_Create E n rport wport s = (Some (StatusOK b), t)"
proof -
  have "wport \<noteq> []" using assms dispatch_create_short by (auto simp: http_def)
  from dispatch_create [OF assms(1) this] assms(2) have "h_Create E n rport wport s = (Some (StatusOK b), t)"
    by (auto simp: http_def split: prod.splits option.splits)
  moreover have "n \<in> set (Split CHR ''/'' path)" by (simp add: assms(1))
  ultimately show ?thesis using Split_words by blast
qed

end
