(* ===== verification/ZookeeperFacts.thy ===== *)
theory ZookeeperFacts
  imports Zookeeper
begin

section \<open>The zookeeper client keeps the contract of the coordinator\<close>

text \<open>
  What zookeeper promises (\<open>zk_service\<close>), what the client makes of it, and a zookeeper in
  memory. \<open>climb\<close> is the induction over the path that \<open>zk_mkdir\<close> does.
\<close>

subsection \<open>A path and the one above it\<close>

lemma node_path_cases:
  assumes "node_path p"
  obtains d b where "p = d @ CHR ''/'' # b" and "plain_comp b" and "d = [] \<or> node_path d"
proof -
  from assms obtain s where p: "p = CHR ''/'' # s" and plain: "list_all plain_comp (Split (CHR ''/'') s)"
    by (cases p) (auto simp: node_path_def)
  let ?cs = "Split (CHR ''/'') s"
  have s: "s = JoinWith (CHR ''/'') ?cs" by (simp add: JoinWith_Split)
  obtain as b where cs: "?cs = as @ [b]" using Split_nonempty [of "CHR ''/''" s] by (metis append_butlast_last_id)
  with plain have b: "plain_comp b" and as: "list_all plain_comp as" by simp_all
  show thesis
  proof (cases "as = []")
    case True
    with s cs have "s = b" by simp
    with p b that [of "[]" b] show thesis by simp
  next
    case False
    have join: "JoinWith (CHR ''/'') (as @ [b]) = JoinWith (CHR ''/'') as @ CHR ''/'' # b" if "as \<noteq> []" for as
      using that by (induction as rule: induct_list012) (simp_all add: JoinWith_Cons)
    have "Split (CHR ''/'') (JoinWith (CHR ''/'') as) = as"
      using False as by (intro Split_JoinWith) (auto simp: list_all_iff plain_comp_def)
    with as have "node_path (CHR ''/'' # JoinWith (CHR ''/'') as)" by (simp add: node_path_def)
    with p s cs join [OF False] b that [of "CHR ''/'' # JoinWith (CHR ''/'') as" b] show thesis by simp
  qed
qed

lemma path_Dir_append:
  assumes "plain_comp b" and "d = [] \<or> node_path d"
  shows "path_Dir (d @ CHR ''/'' # b) = (if d = [] then ''/'' else d)"
proof -
  have dir: "path_Dir (d @ CHR ''/'' # b) = path_Clean (d @ ''/'')"
    using assms(1) by (simp add: path_Dir_def last_index_append plain_comp_def)
  show ?thesis
  proof (cases "d = []")
    case True
    then show ?thesis using dir by (simp add: path_Clean_def)
  next
    case False
    with assms(2) obtain s where d: "d = CHR ''/'' # s" and plain: "list_all plain_comp (Split (CHR ''/'') s)"
      by (cases d) (auto simp: node_path_def)
    have "Split (CHR ''/'') (d @ ''/'') = [] # Split (CHR ''/'') s @ [[]]"
      by (simp add: d Split_append_general)
    moreover have "clean_comps True [] ([] # Split (CHR ''/'') s @ [[]]) = Split (CHR ''/'') s"
      using plain by (subst clean_comps_plain) (auto simp: list_all_iff plain_comp_def filter_id_conv)
    ultimately have "path_Clean (d @ ''/'') = CHR ''/'' # JoinWith (CHR ''/'') (Split (CHR ''/'') s)"
      by (simp add: path_Clean_def d)
    then have "path_Clean (d @ ''/'') = d" using d by (simp add: JoinWith_Split)
    with dir False show ?thesis by simp
  qed
qed

lemma node_path_not_root: "node_path p \<Longrightarrow> p \<noteq> [] \<and> p \<noteq> ''/''"
  by (auto simp: node_path_def plain_comp_def)

lemma ancestor_trans: "ancestor p q \<Longrightarrow> ancestor q r \<Longrightarrow> ancestor p r"
  by (auto simp: ancestor_def HasPrefix_iff)

lemma not_ancestor_self: "\<not> ancestor p p"
  by (auto simp: ancestor_def HasPrefix_iff)

lemma path_Dir_node:
  assumes "node_path p"
  shows "path_Dir p = ''/'' \<or> (node_path (path_Dir p) \<and> ancestor (path_Dir p) p \<and> length (path_Dir p) < length p)"
proof -
  obtain d b where p: "p = d @ CHR ''/'' # b" and "plain_comp b" "d = [] \<or> node_path d"
    using node_path_cases [OF assms] .
  from path_Dir_append [OF this(2,3)] this(3) show ?thesis
    by (auto simp: p ancestor_def HasPrefix_iff)
qed

lemma path_Join_child:
  assumes "node_path p" and "plain_comp c"
  shows "path_Join [p, c] = p @ ''/'' @ c"
proof -
  from assms(1) obtain s where p: "p = CHR ''/'' # s" and plain: "list_all plain_comp (Split (CHR ''/'') s)"
    by (cases p) (auto simp: node_path_def)
  have "Split (CHR ''/'') (p @ ''/'' @ c) = [] # Split (CHR ''/'') s @ [c]"
    using assms(2) by (simp add: p Split_append_general Split_word plain_comp_def)
  moreover have "clean_comps True [] ([] # Split (CHR ''/'') s @ [c]) = Split (CHR ''/'') s @ [c]"
    using plain assms(2) by (subst clean_comps_plain) (auto simp: list_all_iff plain_comp_def filter_id_conv)
  moreover have "Split (CHR ''/'') (s @ CHR ''/'' # c) = Split (CHR ''/'') s @ [c]"
    using assms(2) by (simp add: Split_append_general Split_word plain_comp_def)
  then have "JoinWith (CHR ''/'') (Split (CHR ''/'') s @ [c]) = s @ CHR ''/'' # c"
    by (metis JoinWith_Split)
  ultimately show ?thesis using assms(2) by (simp add: path_Join_def path_Clean_def p plain_comp_def)
qed

subsection \<open>The shell\<close>

lemma shell_InrD:
  assumes "shell Z fn s = (Inr x, t)"
  obtains h w where "zcConn (fst s) = Some h" and "fn h (snd s) = (Inr x, w)" and "t = (fst s, w)"
proof -
  from assms obtain h where h: "zcConn (fst s) = Some h"
    by (cases "zcConn (fst s)") (auto simp: shell_def bindE_gets fail_def)
  obtain r w where fn: "fn h (snd s) = (r, w)" by fastforce
  have no: "redial Z e u \<noteq> (Inr x, t)" for e u
    by (auto simp: redial_def bindE_def fail_def split: prod.splits sum.splits)
  from assms h fn no have "r = Inr x \<and> t = (fst s, w)"
    by (cases r) (auto simp: shell_def bindE_def gets_def attempt_def onW_def ret_def fail_def split: if_splits)
  with h fn that show thesis by blast
qed

lemma zk_Do_InrD:
  assumes "zk_Do Z fn s = (Inr x, t)"
  obtains h w where "zcConn (fst s) = Some h" and "fn h (snd s) = (Inr x, w)" and "t = (fst s, w)"
proof -
  from assms have "shell Z fn s = (Inr x, t)"
    by (auto simp: zk_Do_def gets_def bindE_def guardE_def split: if_splits)
  then show thesis by (rule shell_InrD) (rule that)
qed

lemma with_self_InrD:
  assumes "with_self Z fn s = (Inr x, t)"
  obtains h w where "fn (fst s) h (snd s) = (Inr x, w)" and "t = (fst s, w)"
  using assms by (auto simp: with_self_def bindE_gets elim: zk_Do_InrD)

lemma tolerate_InrD:
  "tolerate e m w = (Inr x, w') \<Longrightarrow> (\<exists>y. m w = (Inr y, w')) \<or> m w = (Inl e, w')"
  by (auto simp: tolerate_def bindE_def attempt_def fail_def ret_def split: prod.splits sum.splits if_splits)

lemma keeps_tolerate: "keeps I m \<Longrightarrow> keeps I (tolerate e m)"
  unfolding tolerate_def
  by (intro keeps_bind keeps_attempt) (auto intro: keeps_ret keeps_fail split: sum.split)

lemma keeps_onW_snd: "keeps I m \<Longrightarrow> keeps (\<lambda>s. I (snd s)) (onW m)"
  by (auto simp: hoare_def onW_def split: prod.split sum.splits)

subsection \<open>The service behind the client\<close>

locale zk_service =
  fixes Z :: "'w zk_api" and view :: "'w \<Rightarrow> string \<Rightarrow> data option"
  assumes connect_frame: "za_Connect Z as t w = (conn, w') \<Longrightarrow> view w' = view w"
    and close_frame: "view (za_Close Z h w) = view w"
    and auth_frame: "za_AddAuth Z h scheme auth w = (r, w') \<Longrightarrow> view w' = view w"
    and exists_ok: "node_path p \<Longrightarrow> za_Exists Z h p w = (Inr ex, w') \<Longrightarrow> ex \<longleftrightarrow> view w p \<noteq> None"
    and exists_frame: "za_Exists Z h p w = (e, w') \<Longrightarrow> view w' = view w"
    and create_ok: "node_path p \<Longrightarrow> za_Create Z h p d 0 a w = (Inr q, w') \<Longrightarrow> view w p = None \<and> view w' p = Some d"
    and create_other: "node_path p \<Longrightarrow> za_Create Z h p d 0 a w = (cr, w') \<Longrightarrow> q \<noteq> p \<Longrightarrow> view w' q = view w q"
    and set_ok: "node_path p \<Longrightarrow> za_Set Z h p d w = (Inr x, w') \<Longrightarrow> view w' p = Some d"
    and set_other: "node_path p \<Longrightarrow> za_Set Z h p d w = (r, w') \<Longrightarrow> q \<noteq> p \<Longrightarrow> view w' q = view w q"
    and del_ok: "node_path p \<Longrightarrow> za_Delete Z h p w = (Inr x, w') \<Longrightarrow> view w' p = None"
    and del_missing: "node_path p \<Longrightarrow> za_Delete Z h p w = (Inl (ErrCoord NoNode), w') \<Longrightarrow> view w' p = None"
    and del_other: "node_path p \<Longrightarrow> za_Delete Z h p w = (r, w') \<Longrightarrow> q \<noteq> p \<Longrightarrow> view w' q = view w q"
    and get_ok: "node_path p \<Longrightarrow> za_Get Z h p w = (Inr d, w') \<Longrightarrow> view w p = Some d"
    and get_missing: "node_path p \<Longrightarrow> za_Get Z h p w = (Inl (ErrCoord NoNode), w') \<Longrightarrow> view w p = None"
    and get_frame: "za_Get Z h p w = (g, w') \<Longrightarrow> view w' = view w"
    and children_ok: "node_path p \<Longrightarrow> za_Children Z h p w = (Inr ns, w') \<Longrightarrow>
      list_all plain_comp ns \<and> (\<forall>c. plain_comp c \<longrightarrow> view w (p @ ''/'' @ c) \<noteq> None \<longrightarrow> c \<in> set ns)"
    and children_missing: "node_path p \<Longrightarrow> za_Children Z h p w = (Inl (ErrCoord NoNode), w') \<Longrightarrow>
      plain_comp c \<Longrightarrow> view w (p @ ''/'' @ c) = None"
    and children_frame: "za_Children Z h p w = (n, w') \<Longrightarrow> view w' = view w"
begin

lemma reset_frame: "keeps (\<lambda>s. view (snd s) = v) (zk_reset Z)"
  unfolding zk_reset_def
  by (intro keeps_bind keeps_modify keeps_gets keeps_if keeps_ret keeps_onW_snd [where I = "\<lambda>w. view w = v"])
    (auto simp: hoare_def close_frame split: sum.splits option.split dest: connect_frame auth_frame)

lemma shell_frame:
  assumes "\<And>h. keeps (\<lambda>w. view w q = v) (fn h)"
  shows "keeps (\<lambda>s. view (snd s) q = v) (shell Z fn)"
proof -
  have reset: "keeps (\<lambda>s. view (snd s) q = v) (zk_reset Z)"
    using keepsD [OF reset_frame] by (intro keepsI) metis
  show ?thesis
    unfolding shell_def redial_def
    by (intro keeps_bind keeps_gets)
      (auto split: option.split sum.split
        intro!: keeps_fail keeps_ret keeps_bind keeps_gets keeps_attempt keeps_onW_snd assms reset)
qed

lemma with_self_frame:
  assumes "\<And>c h. keeps (\<lambda>w. view w q = v) (fn c h)"
  shows "keeps (\<lambda>s. view (snd s) q = v) (with_self Z fn)"
  unfolding with_self_def zk_Do_def by (intro keeps_bind keeps_gets keeps_guard shell_frame assms)

lemma exists_keeps: "keeps (\<lambda>w. view w q = v) (za_Exists Z h p)"
  by (auto simp: hoare_def split: sum.split dest: exists_frame)

lemma create_keeps: "node_path p \<Longrightarrow> q \<noteq> p \<Longrightarrow> keeps (\<lambda>w. view w q = v) (za_Create Z h p d 0 a)"
  by (auto simp: hoare_def split: sum.split dest: create_other)

text \<open>\<open>zk_mkdir\<close> leaves all nodes alone that are not its own or above it.\<close>

lemma climb:
  "path = ''/'' \<or> node_path path \<Longrightarrow> q \<noteq> path \<Longrightarrow> \<not> ancestor q path \<Longrightarrow>
   keeps (\<lambda>w. view w q = v) (zk_mkdir Z c h n path)"
proof (induction n arbitrary: path)
  case 0
  then show ?case by (auto intro: keeps_ret keeps_fail)
next
  case (Suc n)
  show ?case
  proof (cases "path = ''/''")
    case True
    then show ?thesis by (simp add: keeps_ret)
  next
    case False
    with Suc.prems have p: "node_path path" by simp
    from path_Dir_node [OF p] have d: "path_Dir path = ''/'' \<or> node_path (path_Dir path)" by blast
    show ?thesis
    proof (cases "q = path_Dir path")
      case True
      with Suc.prems(3) path_Dir_node [OF p] have "path_Dir path = ''/''" by auto
      then have "keeps (\<lambda>w. view w q = v) (zk_mkdir Z c h n (path_Dir path))"
        by (cases n) (simp_all add: keeps_ret)
      then show ?thesis using node_path_not_root [OF p] Suc.prems(2) p
        by (auto intro!: keeps_bind exists_keeps keeps_ret keeps_tolerate create_keeps)
    next
      case diff: False
      have "\<not> ancestor q (path_Dir path)"
      proof
        assume a: "ancestor q (path_Dir path)"
        from path_Dir_node [OF p] show False
        proof
          assume "path_Dir path = ''/''"
          with a have "q = []" by (cases q) (auto simp: ancestor_def HasPrefix_iff)
          moreover have "hd path = CHR ''/''" "path \<noteq> []" using p by (auto simp: node_path_def)
          ultimately show False using Suc.prems(3) by (cases path) (auto simp: ancestor_def HasPrefix_iff)
        qed (use a Suc.prems(3) ancestor_trans in blast)
      qed
      with Suc.IH [OF d diff] have "keeps (\<lambda>w. view w q = v) (zk_mkdir Z c h n (path_Dir path))" by blast
      then show ?thesis using node_path_not_root [OF p] Suc.prems(2) p
        by (auto intro!: keeps_bind exists_keeps keeps_ret keeps_tolerate create_keeps)
    qed
  qed
qed

text \<open>Creating the nodes above \<open>p\<close> leaves \<open>p\<close> and everything else alone.\<close>

lemma climb_above:
  assumes "node_path p" and "\<not> ancestor q p"
  shows "keeps (\<lambda>w. view w q = v) (zk_mkdir Z c h n (path_Dir p))"
proof (cases "path_Dir p = ''/''")
  case True
  then show ?thesis by (cases n) (simp_all add: keeps_ret)
next
  case False
  with path_Dir_node [OF assms(1)] have "node_path (path_Dir p)" "ancestor (path_Dir p) p" by auto
  with assms(2) show ?thesis by (intro climb) (auto dest: ancestor_trans)
qed

lemma zk_create_frame:
  "node_path p \<Longrightarrow> q \<noteq> p \<Longrightarrow> \<not> ancestor q p \<Longrightarrow> keeps (\<lambda>w. view w q = v) (zk_create Z c h p d 0)"
  unfolding zk_create_def by (intro keeps_bind climb_above create_keeps)

lemma zk_create_InrD:
  assumes "node_path p" and "zk_create Z c h p d 0 w = (Inr x, w')"
  shows "view w p = None \<and> view w' p = Some d"
proof -
  from assms(2) obtain u y where mkdir: "zk_mkdir Z c h (length p) (path_Dir p) w = (Inr y, u)"
    and "za_Create Z h p d 0 (zk_acl c (or (or PermAdmin PermRead) PermWrite)) u = (Inr x, w')"
    unfolding zk_create_def by (elim bindE_InrD)
  with create_ok [OF assms(1)] have "view u p = None \<and> view w' p = Some d" by blast
  moreover have "view u p = view w p"
    using keepsD [OF climb_above [OF assms(1) not_ancestor_self], of w "view w p" c h "length p"] mkdir by simp
  ultimately show ?thesis by simp
qed

lemma zk_update_frame:
  "node_path p \<Longrightarrow> q \<noteq> p \<Longrightarrow> \<not> ancestor q p \<Longrightarrow> keeps (\<lambda>w. view w q = v) (zk_update Z c h p d)"
  unfolding zk_update_def
  by (intro keeps_bind exists_keeps keeps_if keeps_ret keeps_tolerate zk_create_frame)
    (auto simp: hoare_def split: sum.split dest: set_other)

lemma delete_frame: "node_path p \<Longrightarrow> q \<noteq> p \<Longrightarrow> keeps (\<lambda>w. view w q = v) (tolerate e (za_Delete Z h p))"
  by (rule keeps_tolerate) (auto simp: hoare_def split: sum.split dest: del_other)

lemma do_frame:
  assumes "\<And>h. keeps (\<lambda>w. view w q = v) (fn h)"
  shows "keeps (\<lambda>s. view (snd s) q = v) (zk_Do Z fn)"
  unfolding zk_Do_def by (intro keeps_bind keeps_gets keeps_guard shell_frame assms)

lemma read_keeps:
  "keeps (\<lambda>w. view w q = v) (bindE (attempt (za_Get Z h p)) (\<lambda>r.
     case r of Inl e \<Rightarrow> if e = ErrCoord NoNode \<and> \<not> must then ret None else fail e | Inr b \<Rightarrow> ret (Some b)))"
  by (intro keeps_bind keeps_attempt)
    (auto simp: hoare_def ret_def fail_def split: sum.split dest: get_frame)

lemma list_keeps:
  "keeps (\<lambda>w. view w q = v) (bindE (attempt (za_Children Z h p)) (\<lambda>r.
     case r of Inl e \<Rightarrow> if e = ErrCoord NoNode \<and> \<not> must then ret [] else fail e
     | Inr nodes \<Rightarrow> ret (map (\<lambda>node. path_Join [p, node]) nodes)))"
  by (intro keeps_bind keeps_attempt)
    (auto simp: hoare_def ret_def fail_def split: sum.split dest: children_frame)

lemma frame_result: "keeps (\<lambda>s. view (snd s) q = v) m \<Longrightarrow> m s = (r, t) \<Longrightarrow> view (snd s) q = v \<Longrightarrow> view (snd t) q = v"
  by (drule keepsD [where s = s]) simp_all

lemma list_result:
  assumes p: "node_path p" and "zk_List Z p must s = (Inr ps, t)"
  shows "(\<forall>q \<in> set ps. node_path q \<and> child_of p q) \<and>
    (\<forall>c. plain_comp c \<longrightarrow> \<not> hidden c \<longrightarrow> view (snd s) (p @ ''/'' @ c) \<noteq> None \<longrightarrow> p @ ''/'' @ c \<in> set ps)"
proof -
  from assms(2) obtain h w where run: "bindE (attempt (za_Children Z h p)) (\<lambda>r.
     case r of Inl e \<Rightarrow> if e = ErrCoord NoNode \<and> \<not> must then ret [] else fail e
     | Inr nodes \<Rightarrow> ret (map (\<lambda>node. path_Join [p, node]) nodes)) (snd s) = (Inr ps, w)"
    unfolding zk_List_def by (rule zk_Do_InrD)
  obtain r u where call: "za_Children Z h p (snd s) = (r, u)" by fastforce
  show ?thesis
  proof (cases r)
    case (Inl e)
    with run call have "e = ErrCoord NoNode" "ps = []"
      by (auto simp: bindE_def attempt_def ret_def fail_def split: if_splits)
    with children_missing [OF p] call Inl show ?thesis by simp
  next
    case (Inr ns)
    with run call have ps: "ps = map (\<lambda>node. path_Join [p, node]) ns"
      by (auto simp: bindE_def attempt_def ret_def)
    from children_ok [OF p] call Inr have ns: "list_all plain_comp ns"
      "\<forall>c. plain_comp c \<longrightarrow> view (snd s) (p @ ''/'' @ c) \<noteq> None \<longrightarrow> c \<in> set ns" by blast+
    from ns(1) have "ps = map (\<lambda>node. p @ ''/'' @ node) ns"
      unfolding ps using path_Join_child [OF p] by (simp add: list_all_iff)
    moreover have "node_path (p @ ''/'' @ c) \<and> child_of p (p @ ''/'' @ c)" if "c \<in> set ns" for c
      using ns(1) that node_path_child [OF p] child_ofI by (simp add: list_all_iff plain_comp_def)
    ultimately show ?thesis using ns(2) by (auto simp del: append_Cons append_Nil)
  qed
qed

lemma read_result:
  assumes p: "node_path p" and "zk_Read Z p must s = (Inr y, t)"
  shows "y = view (snd s) p"
proof -
  from assms(2) obtain h w where run: "bindE (attempt (za_Get Z h p)) (\<lambda>r.
     case r of Inl e \<Rightarrow> if e = ErrCoord NoNode \<and> \<not> must then ret None else fail e | Inr b \<Rightarrow> ret (Some b)) (snd s) = (Inr y, w)"
    unfolding zk_Read_def by (rule zk_Do_InrD)
  obtain r u where call: "za_Get Z h p (snd s) = (r, u)" by fastforce
  with run get_ok [OF p] get_missing [OF p] show ?thesis
    by (cases r) (auto simp: bindE_def attempt_def ret_def fail_def split: if_splits)
qed

end

sublocale zk_service \<subseteq> zk: coord_client "zk_Client Z" "\<lambda>s. view (snd s)"
proof
  fix p q :: string and d :: data and s t :: "zk_client \<times> 'w" and x :: unit and r :: "error + unit"
  assume p: "node_path p"
  show "view (snd s) p = None \<and> view (snd t) p = Some d" if "cl_Create (zk_Client Z) p d s = (Inr x, t)"
    using that unfolding zk_Client_def zk_Create_def
    by (auto elim!: with_self_InrD bindE_InrD simp: ret_def dest: zk_create_InrD [OF p])
  show "view (snd t) p = Some d" if "cl_Update (zk_Client Z) p d s = (Inr x, t)"
    using that unfolding zk_Client_def zk_Update_def zk_update_def
    by (auto elim!: with_self_InrD bindE_InrD dest: set_ok [OF p])
  show "view (snd t) q = view (snd s) q" if "cl_Create (zk_Client Z) p d s = (r, t)" "q \<noteq> p" "\<not> ancestor q p"
    using that unfolding zk_Client_def zk_Create_def
    by (auto elim!: frame_result [rotated] intro!: with_self_frame keeps_bind zk_create_frame keeps_ret p)
  show "view (snd t) q = view (snd s) q" if "cl_Update (zk_Client Z) p d s = (r, t)" "q \<noteq> p" "\<not> ancestor q p"
    using that unfolding zk_Client_def zk_Update_def
    by (auto elim!: frame_result [rotated] intro!: with_self_frame zk_update_frame p)
  show "view (snd t) p = None" if "cl_Delete (zk_Client Z) p s = (Inr x, t)"
    using that unfolding zk_Client_def zk_Delete_def
    by (auto elim!: zk_Do_InrD dest!: tolerate_InrD dest: del_ok [OF p] del_missing [OF p])
  show "view (snd t) q = view (snd s) q" if "cl_Delete (zk_Client Z) p s = (r, t)" "q \<noteq> p"
    using that unfolding zk_Client_def zk_Delete_def
    by (auto elim!: frame_result [rotated] intro!: do_frame delete_frame p)
next
  fix p :: string and must :: bool and s t :: "zk_client \<times> 'w" and y :: "data option"
  assume "node_path p" and "cl_Read (zk_Client Z) p must s = (Inr y, t)"
  then show "y = view (snd s) p" by (simp add: zk_Client_def read_result)
next
  fix p :: string and must :: bool and s t :: "zk_client \<times> 'w" and r :: "error + data option"
  assume "cl_Read (zk_Client Z) p must s = (r, t)"
  then show "view (snd t) = view (snd s)"
    unfolding zk_Client_def zk_Read_def
    by (intro ext) (auto elim!: frame_result [rotated] intro!: do_frame read_keeps)
next
  fix p :: string and must :: bool and s t :: "zk_client \<times> 'w" and ps :: "string list"
  assume "node_path p" and "cl_List (zk_Client Z) p must s = (Inr ps, t)"
  then show "(\<forall>q \<in> set ps. node_path q \<and> child_of p q) \<and>
      (\<forall>c. plain_comp c \<longrightarrow> \<not> hidden c \<longrightarrow> view (snd s) (p @ ''/'' @ c) \<noteq> None \<longrightarrow> p @ ''/'' @ c \<in> set ps)"
    using list_result by (simp add: zk_Client_def)
next
  fix p :: string and must :: bool and s t :: "zk_client \<times> 'w" and r :: "error + string list"
  assume "cl_List (zk_Client Z) p must s = (r, t)"
  then show "view (snd t) = view (snd s)"
    unfolding zk_Client_def zk_List_def
    by (intro ext) (auto elim!: frame_result [rotated] intro!: do_frame list_keeps)
qed

context zk_service
begin

lemma refines: "coord_client (zk_Client Z) (\<lambda>s. view (snd s))"
  by (rule zk.coord_client_axioms)

end

text \<open>The length of a path is depth enough for \<open>zk_mkdir\<close>: more makes no difference.\<close>

lemma mkdir_depth:
  "path = ''/'' \<or> node_path path \<Longrightarrow> length path \<le> n \<Longrightarrow> zk_mkdir Z c h n path = zk_mkdir Z c h (length path) path"
proof (induction "length path" arbitrary: path n rule: less_induct)
  case less
  show ?case
  proof (cases "path = ''/''")
    case True
    then show ?thesis by (cases n) simp_all
  next
    case False
    with less.prems have p: "node_path path" by simp
    from p obtain k where k: "length path = Suc k" by (cases path) (auto simp: node_path_def)
    with less.prems obtain m where n: "n = Suc m" "k \<le> m" by (cases n) auto
    have "zk_mkdir Z c h m (path_Dir path) = zk_mkdir Z c h k (path_Dir path)"
    proof (cases "path_Dir path = ''/''")
      case True
      then show ?thesis by (cases m; cases k) simp_all
    next
      case False
      with path_Dir_node [OF p] have d: "node_path (path_Dir path)" "length (path_Dir path) < length path" by auto
      with k n have "length (path_Dir path) \<le> m" "length (path_Dir path) \<le> k" by auto
      with less.hyps [OF d(2)] d(1) show ?thesis by metis
    qed
    then show ?thesis unfolding n(1) k by (simp cong: if_cong)
  qed
qed

subsection \<open>A zookeeper in memory\<close>

text \<open>Every node has data; a node is created only under one that exists, and deleted only without children.\<close>

record zk_mem =
  zmNodes :: "(string \<times> data) list"
  zmDials :: nat

definition zm_view :: "zk_mem \<Rightarrow> string \<Rightarrow> data option" where
  "zm_view w p = map_of (zmNodes w) p"

definition zm_names :: "zk_mem \<Rightarrow> string \<Rightarrow> string list" where
  "zm_names w p = filter plain_comp (map (\<lambda>k. drop (length p + 1) k) (filter (child_of p) (map fst (zmNodes w))))"

definition zm_Create :: "string \<Rightarrow> data \<Rightarrow> 32 word \<Rightarrow> (zk_mem, string) io" where
  "zm_Create p d flags w =
     (let k = (if and flags FlagSequence \<noteq> 0 then p @ Itoa (int (length (zmNodes w))) else p) in
      if path_Dir k \<noteq> ''/'' \<and> zm_view w (path_Dir k) = None then (Inl (ErrCoord NoNode), w)
      else if zm_view w k \<noteq> None then (Inl (ErrCoord NodeExists), w)
      else (Inr k, w\<lparr>zmNodes := (k, d) # zmNodes w\<rparr>))"

definition zm_Get :: "string \<Rightarrow> (zk_mem, data) io" where
  "zm_Get p w = (case zm_view w p of None \<Rightarrow> Inl (ErrCoord NoNode) | Some d \<Rightarrow> Inr d, w)"

definition zm_Set :: "string \<Rightarrow> data \<Rightarrow> (zk_mem, unit) io" where
  "zm_Set p d w =
     (if zm_view w p = None then (Inl (ErrCoord NoNode), w)
      else (Inr (), w\<lparr>zmNodes := AList.update p d (zmNodes w)\<rparr>))"

definition zm_Delete :: "string \<Rightarrow> (zk_mem, unit) io" where
  "zm_Delete p w =
     (if zm_view w p = None then (Inl (ErrCoord NoNode), w)
      else if zm_names w p \<noteq> [] then (Inl (ErrCoord NotEmpty), w)
      else (Inr (), w\<lparr>zmNodes := AList.delete p (zmNodes w)\<rparr>))"

definition zm_Children :: "string \<Rightarrow> (zk_mem, string list) io" where
  "zm_Children p w = (if zm_view w p = None \<and> zm_names w p = [] then Inl (ErrCoord NoNode) else Inr (zm_names w p), w)"

definition zm_api :: "zk_mem zk_api" where
  "zm_api =
     \<lparr>za_Connect = \<lambda>addrs t w. (Inr (zmDials w), w\<lparr>zmDials := Suc (zmDials w)\<rparr>),
      za_Close = \<lambda>h w. w, za_AddAuth = \<lambda>h scheme auth w. (Inr (), w),
      za_Exists = \<lambda>h p w. (Inr (zm_view w p \<noteq> None), w),
      za_Create = \<lambda>h p d flags a. zm_Create p d flags,
      za_Get = \<lambda>h. zm_Get, za_GetW = \<lambda>h. zm_Get, za_Set = \<lambda>h. zm_Set, za_Delete = \<lambda>h. zm_Delete,
      za_Children = \<lambda>h. zm_Children, za_ChildrenW = \<lambda>h. zm_Children, za_Now = \<lambda>w. 0\<rparr>"

lemma zm_names_all: "plain_comp c \<Longrightarrow> zm_view w (p @ ''/'' @ c) \<noteq> None \<Longrightarrow> c \<in> set (zm_names w p)"
proof -
  assume c: "plain_comp c" and "zm_view w (p @ ''/'' @ c) \<noteq> None"
  then have "p @ ''/'' @ c \<in> set (map fst (zmNodes w))" unfolding zm_view_def map_of_eq_None_iff by simp
  moreover have "child_of p (p @ ''/'' @ c)" using c by (intro child_ofI) (simp add: plain_comp_def)
  ultimately have "drop (length p + 1) (p @ ''/'' @ c) \<in>
      set (map (\<lambda>k. drop (length p + 1) k) (filter (child_of p) (map fst (zmNodes w))))" by (simp only: set_map set_filter) blast
  with c show ?thesis by (simp add: zm_names_def)
qed

lemma zm_no_names: "zm_names w p = [] \<Longrightarrow> plain_comp c \<Longrightarrow> zm_view w (p @ ''/'' @ c) = None"
  using zm_names_all [of c w p] by (cases "zm_view w (p @ ''/'' @ c)") auto

interpretation zk_mem: zk_service zm_api zm_view
proof
  fix p q k a :: string and d :: data and h w w' x ac and ns :: "string list"
    and r :: "error + unit" and cr :: "error + string" and g :: "error + data" and n :: "error + string list"
  show "zm_view w' p = Some d" if "za_Set zm_api h p d w = (Inr x, w')"
    using that by (auto simp: zm_api_def zm_Set_def zm_view_def map_of_update split: if_splits)
  show "zm_view w' q = zm_view w q" if "za_Set zm_api h p d w = (r, w')" "q \<noteq> p"
    using that by (auto simp: zm_api_def zm_Set_def zm_view_def map_of_update split: if_splits)
  show "zm_view w p = None \<and> zm_view w' p = Some d" if "za_Create zm_api h p d 0 ac w = (Inr q, w')"
    using that by (auto simp: zm_api_def zm_Create_def zm_view_def Let_def split: if_splits)
  show "zm_view w' q = zm_view w q" if "za_Create zm_api h p d 0 ac w = (cr, w')" "q \<noteq> p"
    using that by (auto simp: zm_api_def zm_Create_def zm_view_def Let_def split: if_splits)
  show "zm_view w' p = None" if "za_Delete zm_api h p w = (Inr x, w')"
    using that by (auto simp: zm_api_def zm_Delete_def zm_view_def delete_conv split: if_splits)
  show "zm_view w' p = None" if "za_Delete zm_api h p w = (Inl (ErrCoord NoNode), w')"
    using that by (auto simp: zm_api_def zm_Delete_def zm_view_def split: if_splits)
  show "zm_view w' q = zm_view w q" if "za_Delete zm_api h p w = (r, w')" "q \<noteq> p"
    using that by (auto simp: zm_api_def zm_Delete_def zm_view_def delete_conv split: if_splits)
  show "zm_view w p = Some d" if "za_Get zm_api h p w = (Inr d, w')"
    using that by (auto simp: zm_api_def zm_Get_def split: option.splits)
  show "zm_view w p = None" if "za_Get zm_api h p w = (Inl (ErrCoord NoNode), w')"
    using that by (auto simp: zm_api_def zm_Get_def split: option.splits)
  show "list_all plain_comp ns \<and> (\<forall>c. plain_comp c \<longrightarrow> zm_view w (p @ ''/'' @ c) \<noteq> None \<longrightarrow> c \<in> set ns)"
    if "za_Children zm_api h p w = (Inr ns, w')"
    using that zm_names_all by (auto simp: zm_api_def zm_Children_def zm_names_def list_all_iff split: if_splits)
  show "zm_view w (p @ ''/'' @ a) = None" if "za_Children zm_api h p w = (Inl (ErrCoord NoNode), w')" "plain_comp a"
    using that zm_no_names by (auto simp: zm_api_def zm_Children_def split: if_splits)
qed (auto simp: zm_api_def zm_Get_def zm_Children_def zm_view_def)

end
