(* ===== verification/Subscription.thy ===== *)
theory Subscription
  imports RedisSentinel
begin

section \<open>Waiting for a switch of masters (Subscribe of topom/client/redis/sentinel.go)\<close>

text \<open>
  One goroutine per sentinel subscribes to \<open>+switch-master\<close> and reads messages until one
  announces a switch of the product's own group. \<open>fuel\<close> bounds the messages that are read;
  \<open>None\<close> is a goroutine that is still waiting, whose result never comes in.
  The flag beside the result tells whether \<open>onSubscribed\<close> was called.
\<close>

fun subscribe_wait :: "'w redigo \<Rightarrow> string \<Rightarrow> nat \<Rightarrow> (rclient \<times> 'w, unit option) io" where
  "subscribe_wait R product 0 = ret None"
| "subscribe_wait R product (Suc fuel) =
     bindE (Client_Receive R) (\<lambda>r.
     bindE (liftSum (redigo_Values r)) (\<lambda>values.
     case subscribe_message product values of
       SubFail \<Rightarrow> fail ErrInvalidResponse
     | SubSwitch \<Rightarrow> ret (Some ())
     | SubSkip \<Rightarrow> subscribe_wait R product fuel))"

definition subscribe_start :: "'w redigo \<Rightarrow> (rclient \<times> 'w, unit) io" where
  "subscribe_start R =
     bindE (send_all R [(''SUBSCRIBE'', [''+switch-master''])]) (\<lambda>_.
     bindE (attempt (Client_Flush R)) (\<lambda>_.
     bindE (Client_Receive R) (\<lambda>r.
     bindE (liftSum (redigo_Values r)) (\<lambda>values.
     guardE (subscribe_reply ''+switch-master'' values) ErrInvalidResponse))))"

definition subscribeCommand :: "'w redigo \<Rightarrow> string \<Rightarrow> nat \<Rightarrow> rclient \<times> 'w
    \<Rightarrow> (bool \<times> (error + unit option)) \<times> (rclient \<times> 'w)" where
  "subscribeCommand R product fuel s =
     (case subscribe_start R s of (r, s1) \<Rightarrow>
       (case r of
          Inl e \<Rightarrow> ((False, Inl e), snd (Client_Close R s1))
        | Inr _ \<Rightarrow>
            (case subscribe_wait R product fuel s1 of (r', s2) \<Rightarrow>
              ((True, r'), if r' = Inr None then s2 else snd (Client_Close R s2)))))"

text \<open>
  \<open>Some True\<close>: notified; \<open>Some False\<close>: ended without a switch, by an error or because the
  context ended. The errors are logged.
\<close>

definition subscribeDispatch :: "'w sched \<Rightarrow> 'w redigo \<Rightarrow> string \<Rightarrow> int \<Rightarrow> nat \<Rightarrow> string
    \<Rightarrow> 'w \<Rightarrow> (bool \<times> bool option) \<times> 'w" where
  "subscribeDispatch S R product timeout fuel sentinel w =
     (case NewClientNoAuth R sentinel timeout w of (r, w1) \<Rightarrow>
       (case r of
          Inl e \<Rightarrow> ((False, Some False), w1)
        | Inr c \<Rightarrow>
            (case subscribeCommand R product fuel (c, w1) of ((called, r'), (c', w2)) \<Rightarrow>
             case sc_Ctx S w2 of (ctx, w3) \<Rightarrow>
               (if ctx \<noteq> None then ((called, Some False), snd (rd_Close R (rcConn c') w3))
                else (case r' of
                        Inl _ \<Rightarrow> ((called, Some False), snd (rd_Close R (rcConn c') w3))
                      | Inr None \<Rightarrow> ((called, None), w3)
                      | Inr (Some _) \<Rightarrow> ((called, Some True), snd (rd_Close R (rcConn c') w3)))))))"

fun subscribe_all :: "(string \<Rightarrow> 'w \<Rightarrow> (bool \<times> bool option) \<times> 'w) \<Rightarrow> string list \<Rightarrow> 'w
    \<Rightarrow> (bool \<times> bool option) list \<times> 'w" where
  "subscribe_all f [] w = ([], w)"
| "subscribe_all f (x # xs) w =
     (case f x w of (r, w1) \<Rightarrow> (case subscribe_all f xs w1 of (rs, w2) \<Rightarrow> (r # rs, w2)))"

text \<open>The results that come in, in the order of their arrival, until the context ends.\<close>

definition subscribe_events :: "bool option list \<Rightarrow> nat list \<times> ctx_err \<Rightarrow> bool event list" where
  "subscribe_events rs a =
     List.map_filter (\<lambda>i. map_option Result (rs ! i)) (filter (\<lambda>i. i < length rs) (fst a)) @ [Done (snd a)]"

text \<open>The result of \<open>Subscribe\<close> and whether \<open>onMajoritySubscribed\<close> was called.\<close>

definition Subscribe :: "'w sched \<Rightarrow> 'w redigo \<Rightarrow> string \<Rightarrow> string list \<Rightarrow> int \<Rightarrow> nat \<Rightarrow> 'w \<Rightarrow> (bool \<times> bool) \<times> 'w" where
  "Subscribe S R product sentinels timeout fuel w =
     (case subscribe_all (subscribeDispatch S R product (timeout + 5 * time_Second) fuel) sentinels w of (rs, w1) \<Rightarrow>
      case sc_Arrive S (length sentinels) w1 of (a, w2) \<Rightarrow>
        ((subscribe_loop (length sentinels) (length sentinels) (subscribe_events (map snd rs) a),
          majority (length sentinels) \<le> length (filter fst rs)), w2))"

subsection \<open>What a subscription waits for\<close>

text \<open>
  The messages a run of \<open>subscribe_wait\<close> reads: all but the last are skipped, and the last one
  announces a switch exactly when the result is a success.
\<close>

inductive reads :: "'w redigo \<Rightarrow> rclient \<times> 'w \<Rightarrow> reply list list \<Rightarrow> rclient \<times> 'w \<Rightarrow> bool" for R :: "'w redigo" where
  reads_none: "reads R s [] s"
| reads_one: "Client_Receive R s = (Inr r, t) \<Longrightarrow> redigo_Values r = Inr vals \<Longrightarrow> reads R t ms u \<Longrightarrow>
    reads R s (vals # ms) u"

lemma subscribe_wait_switch:
  "subscribe_wait R product n s = (Inr (Some ()), t) \<Longrightarrow>
   \<exists>ms m. reads R s (ms @ [m]) t \<and> list_all (\<lambda>v. subscribe_message product v = SubSkip) ms \<and>
     subscribe_message product m = SubSwitch"
proof (induction n arbitrary: s)
  case 0
  then show ?case by (simp add: ret_def)
next
  case (Suc n)
  from Suc.prems [unfolded subscribe_wait.simps] obtain r u where recv: "Client_Receive R s = (Inr r, u)"
    and rest: "bindE (liftSum (redigo_Values r)) (\<lambda>vals. case subscribe_message product vals of
       SubFail \<Rightarrow> fail ErrInvalidResponse | SubSwitch \<Rightarrow> ret (Some ())
     | SubSkip \<Rightarrow> subscribe_wait R product n) u = (Inr (Some ()), t)"
    by (rule bindE_InrD)
  from rest obtain vals where v: "redigo_Values r = Inr vals"
    and next': "(case subscribe_message product vals of
       SubFail \<Rightarrow> fail ErrInvalidResponse | SubSwitch \<Rightarrow> ret (Some ())
     | SubSkip \<Rightarrow> subscribe_wait R product n) u = (Inr (Some ()), t)"
    by (auto simp: bindE_def liftSum_def split: sum.splits)
  show ?case
  proof (cases "subscribe_message product vals")
    case SubFail
    with next' show ?thesis by (simp add: fail_def)
  next
    case SubSkip
    with next' have "subscribe_wait R product n u = (Inr (Some ()), t)" by simp
    from Suc.IH [OF this] obtain ms m where "reads R u (ms @ [m]) t"
      and "list_all (\<lambda>v. subscribe_message product v = SubSkip) ms" and "subscribe_message product m = SubSwitch"
      by blast
    with SubSkip reads_one [OF recv v] show ?thesis
      by (intro exI [of _ "vals # ms"] exI [of _ m]) simp
  next
    case SubSwitch
    with next' have "t = u" by (simp add: ret_def)
    with SubSwitch reads_one [OF recv v reads_none] show ?thesis by (intro exI [of _ "[]"] exI [of _ vals]) simp
  qed
qed

text \<open>A switch of the product's own group: the message, its channel, its name and the rest.\<close>

lemma SplitN2_two: "SplitN2 c s = [a, b] \<longleftrightarrow> s = a @ c # b \<and> c \<notin> set a"
proof
  show "SplitN2 c s = [a, b] \<Longrightarrow> s = a @ c # b \<and> c \<notin> set a"
  proof (induction s arbitrary: a)
    case (Cons x xs)
    then show ?case by (cases "x = c") (auto split: list.splits)
  qed simp
qed (simp add: SplitN2_append)

lemma bulk_texts:
  "list_all (\<lambda>v. bulk_or_nil v \<noteq> None) vals \<Longrightarrow>
   map bulk_or_nil vals = map Some (map (\<lambda>v. case bulk_or_nil v of None \<Rightarrow> [] | Some s \<Rightarrow> s) vals)"
  by (induction vals) auto

definition announces :: "string \<Rightarrow> reply list \<Rightarrow> bool" where
  "announces product vals \<longleftrightarrow>
     (\<exists>g rest. g \<noteq> [] \<and> CHR '' '' \<notin> set (NodeName product g) \<and>
        map bulk_or_nil vals = [Some ''message'', Some ''+switch-master'', Some (NodeName product g @ CHR '' '' # rest)])"

lemma own_switch:
  assumes "g \<noteq> []" and "CHR '' '' \<notin> set (NodeName product g)"
    and "bulk_or_nil a = Some ''message''" and "bulk_or_nil b = Some ''+switch-master''"
    and "bulk_or_nil c = Some (NodeName product g @ CHR '' '' # rest)"
  shows "subscribe_message product [a, b, c] = SubSwitch"
proof -
  have "SplitN2 (CHR '' '') (NodeName product g @ CHR '' '' # rest) = [NodeName product g, rest]"
    using assms(2) by (rule SplitN2_append)
  moreover have "isSameProduct product (NodeName product g) = Some g" using assms(1) by (simp add: isSameProduct_iff)
  ultimately show ?thesis using assms(3-5) by (simp add: subscribe_message_def)
qed

lemma announces_switch: "announces product vals \<Longrightarrow> subscribe_message product vals = SubSwitch"
  unfolding announces_def map_eq_Cons_conv map_is_Nil_conv
  by (elim exE conjE, hypsubst) (rule own_switch)

lemma switch_announces:
  assumes "subscribe_message product vals = SubSwitch"
  shows "announces product vals"
proof -
  let ?m = "map (\<lambda>v. case bulk_or_nil v of None \<Rightarrow> [] | Some s \<Rightarrow> s) vals"
  from assms have texts: "map bulk_or_nil vals = map Some ?m" and "length ?m = 3"
    and m: "?m ! 0 = ''message''" "?m ! 1 = ''+switch-master''"
    using bulk_texts by (auto simp: subscribe_message_def Let_def split: if_splits)
  then obtain x y z where xyz: "?m = [x, y, z]"
    by (auto simp: numeral_3_eq_3 length_Suc_conv)
  from assms xyz obtain node rest where "SplitN2 (CHR '' '') z = [node, rest]" and "isSameProduct product node \<noteq> None"
    by (auto simp: subscribe_message_def Let_def split: if_splits list.splits)
  moreover then obtain g where "node = NodeName product g" "g \<noteq> []" using isSameProduct_iff by fastforce
  ultimately show ?thesis using texts m xyz by (auto simp: announces_def SplitN2_two)
qed

lemma subscribe_message_iff: "subscribe_message product vals = SubSwitch \<longleftrightarrow> announces product vals"
  using announces_switch switch_announces by blast

end
