(* ===== verification/Watcher.thy ===== *)
theory Watcher
  imports ServiceSystem SentinelVotes Subscription
begin

section \<open>The watcher of the sentinels (reWatchSentinels of topom/sentinel.go)\<close>

text \<open>
  One round of the goroutine that subscribes, followed by what the goroutine that fetches does
  for the triggers of the round: one when a majority has subscribed, one when a switch was
  announced. The two run one after the other here; \<open>delayUntil\<close> only waits.
\<close>

definition subscribe_round :: "'w env \<Rightarrow> string list \<Rightarrow> nat \<Rightarrow> ('w svc, bool \<times> bool) io" where
  "subscribe_round E servers fuel =
     bindE sentinel_product (\<lambda>(product, _, _).
     onWorld (\<lambda>w. case Subscribe (en_Sched E) (en_Redigo E) product servers (15 * 60 * time_Second) fuel w of
       (r, w') \<Rightarrow> (Inr r, w')))"

definition watch_round :: "'w env \<Rightarrow> string list \<Rightarrow> nat \<Rightarrow> ('w svc, unit) io" where
  "watch_round E servers fuel =
     bindE (is_canceled E) (\<lambda>canceled.
     if canceled then ret ()
     else
       bindE (subscribe_round E servers fuel) (\<lambda>(notified, called).
       bindE (if called then fetchMasters E servers else ret ()) (\<lambda>_.
       if notified then fetchMasters E servers else ret ())))"

lemma vote_distinct: "distinct (map fst (snd s)) \<Longrightarrow> distinct (map fst (snd (vote m s)))"
  by (induction m s rule: vote.induct) (auto simp: distinct_update)

lemma Masters_distinct:
  assumes "Masters S R product sentinels timeout w = (Inr masters, w')"
  shows "distinct (map fst masters)"
proof -
  obtain ctx evs where "masters_loop (length sentinels) (length sentinels) 0 ([], []) ctx evs = Inr masters"
    using assms by (auto simp: Masters_def split: prod.splits)
  then have "masters = snd (vote (concat (List.map_filter id (results (length sentinels) evs))) ([], []))"
    by (auto simp: masters_loop_eq Let_def fold_vote split: if_splits)
  then show ?thesis by (simp add: vote_distinct)
qed

lemma keeps_world: "keeps svc_inv (onWorld m)"
  by (rule keepsI) (rule keeps_inv [OF keeps_onWorld])

lemma switch_keeps: "distinct (map fst masters) \<Longrightarrow> keeps svc_inv (switchMasters E masters)"
  using run_op_inv [of _ "OpSwitchMasters masters" E] by (intro keepsI) simp

lemma is_canceled_keeps: "keeps svc_inv (is_canceled E)"
  unfolding is_canceled_def by (rule keeps_world)

lemma product_keeps: "keeps svc_inv sentinel_product"
  unfolding sentinel_product_def by (rule keeps_gets)

lemma ask_masters:
  "hoare svc_inv (attempt (onWorld (Masters S R product servers t)))
     (\<lambda>r s. svc_inv s \<and> (case r of Inr masters \<Rightarrow> distinct (map fst masters) | Inl _ \<Rightarrow> True)) svc_inv"
proof (rule hoareI)
  fix s r u
  assume I: "svc_inv s" and run: "attempt (onWorld (Masters S R product servers t)) s = (Inr r, u)"
  then have r: "onWorld (Masters S R product servers t) s = (r, u)" by (auto simp: attempt_def split: prod.splits)
  then have "svc_inv u" using keepsD [OF keeps_world I, of "Masters S R product servers t"] by simp
  moreover have "distinct (map fst masters)" if "r = Inr masters" for masters
    using r that by (auto simp: onWorld_def split: prod.splits dest: Masters_distinct)
  ultimately show "svc_inv u \<and> (case r of Inr masters \<Rightarrow> distinct (map fst masters) | Inl _ \<Rightarrow> True)"
    by (auto split: sum.split)
qed (auto simp: attempt_def split: prod.splits)

lemma fetch_rounds_keeps: "keeps svc_inv (fetch_rounds E servers n k)"
proof (induction n arbitrary: k)
  case (Suc n)
  have round: "hoare (\<lambda>s. svc_inv s \<and> (case r of Inr masters \<Rightarrow> distinct (map fst masters) | Inl _ \<Rightarrow> True))
      (case r of Inl _ \<Rightarrow> fetch_rounds E servers n k
       | Inr masters \<Rightarrow>
           bindE (is_canceled E) (\<lambda>canceled'.
           bindE (if canceled' then ret () else bindE (attempt (switchMasters E masters)) (\<lambda>_. ret ())) (\<lambda>_.
           fetch_rounds E servers n (Suc k)))) (\<lambda>_. svc_inv) svc_inv"
    for r :: "error + (string \<times> string) list"
  proof (cases r)
    case (Inl e)
    then show ?thesis using Suc.IH by (auto intro: hoare_weaken)
  next
    case (Inr masters)
    have "keeps svc_inv (bindE (is_canceled E) (\<lambda>canceled'.
        bindE (if canceled' then ret () else bindE (attempt (switchMasters E masters)) (\<lambda>_. ret ())) (\<lambda>_.
        fetch_rounds E servers n (Suc k))))" if "distinct (map fst masters)"
      using that by (intro keeps_bind is_canceled_keeps keeps_if keeps_ret keeps_attempt switch_keeps Suc.IH)
    then show ?thesis unfolding Inr by (cases "distinct (map fst masters)") (auto simp: hoare_def)
  qed
  show ?case
    unfolding fetch_rounds.simps
    by (intro keeps_bind is_canceled_keeps keeps_if keeps_ret product_keeps)
      (auto split: prod.split intro!: hoare_bind [OF ask_masters round])
qed (simp add: keeps_ret)

lemma watch_round_keeps: "keeps svc_inv (watch_round E servers fuel)"
  unfolding watch_round_def subscribe_round_def fetchMasters_def
  by (intro keeps_bind is_canceled_keeps keeps_if keeps_ret)
    (auto split: prod.split intro!: keeps_bind product_keeps keeps_world keeps_if keeps_ret fetch_rounds_keeps)

section \<open>The running program\<close>

text \<open>
  The operations and changes of \<open>step\<close>, with the goroutines of the service between them: rounds of
  the watcher over any list of sentinels, and the collection of the statistics.
\<close>

inductive running :: "'w env \<Rightarrow> 'w svc \<Rightarrow> 'w svc \<Rightarrow> bool" for E :: "'w env" and s0 :: "'w svc" where
  start: "running E s0 s0"
| request: "running E s0 s \<Longrightarrow> step E s t \<Longrightarrow> running E s0 t"
| watching: "running E s0 s \<Longrightarrow> running E s0 (snd (watch_round E servers fuel s))"
| collecting: "running E s0 s \<Longrightarrow> running E s0 (doStats E ds s)"

lemma running_inv: "running E s0 s \<Longrightarrow> svc_inv s0 \<Longrightarrow> svc_inv s"
proof (induction rule: running.induct)
  case (watching s servers fuel)
  then show ?case by (simp add: keepsD [OF watch_round_keeps])
qed (auto intro: step_inv doStats_inv)

lemma reachable_running: "reachable E s0 s \<Longrightarrow> running E s0 s"
  by (induction rule: reachable.induct) (auto intro: running.intros)

end
