(* ===== verification/MultiError.thy ===== *)
theory MultiError
  imports Prelude
begin

section \<open>A list of errors as one error (utils/error/multi\_error.go)\<close>

text \<open>
  A \<open>*MultiError\<close> is an optional record, since every method accepts the nil pointer; the text of
  an error is the parameter \<open>msg\<close>. The pool of string builders is left out: a builder is reset
  before it is used.
\<close>

record multi_error =
  meErrors :: "error list"
  meFormat :: "(error list \<Rightarrow> string) option"

definition new_multi :: multi_error where
  "new_multi = \<lparr>meErrors = [], meFormat = None\<rparr>"

fun defaultErrorToString :: "(error \<Rightarrow> string) \<Rightarrow> error list \<Rightarrow> string" where
  "defaultErrorToString msg [] = []"
| "defaultErrorToString msg [v] = msg v"
| "defaultErrorToString msg (v # vs) = msg v @ ''; '' @ defaultErrorToString msg vs"

definition multi_Error :: "(error \<Rightarrow> string) \<Rightarrow> multi_error option \<Rightarrow> string \<times> multi_error option" where
  "multi_Error msg mo =
     (case mo of
        None \<Rightarrow> ([], None)
      | Some m \<Rightarrow>
          if meErrors m = [] then ([], Some m)
          else (let f = (case meFormat m of None \<Rightarrow> defaultErrorToString msg | Some f \<Rightarrow> f)
                in (f (meErrors m), Some (m\<lparr>meFormat := Some f\<rparr>))))"

definition ErrorOrNil :: "multi_error option \<Rightarrow> multi_error option" where
  "ErrorOrNil mo = (case mo of None \<Rightarrow> None | Some m \<Rightarrow> if meErrors m = [] then None else Some m)"

definition Append :: "error option \<Rightarrow> multi_error option \<Rightarrow> multi_error option" where
  "Append err mo =
     (let m = (case mo of None \<Rightarrow> new_multi | Some m \<Rightarrow> m)
      in Some (case err of None \<Rightarrow> m | Some e \<Rightarrow> m\<lparr>meErrors := meErrors m @ [e]\<rparr>))"

definition SetFormatFunc :: "(error list \<Rightarrow> string) option \<Rightarrow> multi_error option \<Rightarrow> multi_error option" where
  "SetFormatFunc fn mo =
     (let m = (case mo of None \<Rightarrow> new_multi | Some m \<Rightarrow> m) in Some (m\<lparr>meFormat := fn\<rparr>))"

subsection \<open>What is collected\<close>

lemma Append_all:
  "fold Append errs (Some m) = Some (m\<lparr>meErrors := meErrors m @ List.map_filter id errs\<rparr>)"
  by (induction errs arbitrary: m) (auto simp: Append_def List.map_filter_simps split: option.split)

text \<open>The collection is an error exactly when one of the errors appended was not nil.\<close>

lemma map_filter_id_Nil: "List.map_filter id errs = [] \<longleftrightarrow> (\<forall>e \<in> set errs. e = None)"
  by (induction errs) (auto simp: List.map_filter_simps split: option.split)

lemma ErrorOrNil_collected:
  "ErrorOrNil (fold Append errs (Some new_multi)) = None \<longleftrightarrow> (\<forall>e \<in> set errs. e = None)"
  by (simp add: Append_all ErrorOrNil_def new_multi_def map_filter_id_Nil)

text \<open>The text names every error, and asking for it changes nothing that a later call shows.\<close>

lemma multi_Error_again: "multi_Error msg mo = (s, mo') \<Longrightarrow> multi_Error msg mo' = (s, mo')"
  by (auto simp: multi_Error_def Let_def split: option.splits if_splits)

lemma default_text_length:
  "length (defaultErrorToString msg es) = sum_list (map (length \<circ> msg) es) + 2 * (length es - 1)"
  by (induction msg es rule: defaultErrorToString.induct) auto

end
