(* ===== verification/Spec2Isabelle.thy ===== *)
theory Spec2Isabelle
  imports Demo DaoTypes Tracking Backends PoolFacts SentinelVotes DiskWorld Liveness Routes ZookeeperFacts Watcher
    FrontEnd FileWriter MultiError Boot
begin

text \<open>
  \<^bold>\<open>pikamgr, the manager of groups of pika/redis servers.\<close>

  A dashboard (\<open>src/cmd/dashboard\<close>) serves one product. It keeps the product's groups of servers,
  its sentinels and its load balancers (GSLB) in memory and in a coordinator (etcd or zookeeper),
  tells the redis servers whom to follow and the sentinels what to watch, switches masters when the
  sentinels report it or an operator promotes a server, and computes the backends of the balancers.
  A front end (\<open>src/cmd/fe\<close>) finds the dashboards of all products at the coordinator and forwards to them.

  \<^bold>\<open>Theories and the code they model\<close> (paths under \<open>src/\<close>)
  \<^item> \<open>Prelude\<close>: errors as values, the error-state monad \<open>io\<close> (an early return keeps the assignments made
    before it), triples \<open>hoare\<close> and \<open>keeps\<close>, association lists for Go maps. \<open>GoLib\<close>: what the code uses of
    Go's \<open>strings\<close>, \<open>strconv\<close>, \<open>net\<close>, \<open>filepath\<close>, \<open>utf8\<close>.
  \<^item> \<open>Dao\<close>: \<open>topom/dao/*.go\<close>, the stored objects and their JSON form; \<open>DaoTypes\<close>: the Go types of the objects. \<open>Coordinate\<close>: \<open>coordinate/path.go\<close> and
    the contract \<open>coord_client\<close> of the coordinator's interface. \<open>Mappers\<close>: \<open>topom/dao/mapper\<close>, the caches.
    \<open>TemplateFiles\<close>: \<open>template_file_mapper.go\<close>.
  \<^item> \<open>Etcd\<close>: \<open>coordinate/etcd/client.go\<close>; \<open>Zookeeper\<close>, \<open>ZookeeperFacts\<close>: \<open>coordinate/zk/client.go\<close> and
    \<open>coordinator.go\<close>. Both interpret \<open>coord_client\<close> over what the services document (\<open>etcd_service\<close>, \<open>zk_service\<close>).
  \<^item> \<open>RedisClient\<close>: \<open>topom/client/redis/client.go\<close> (client, pool, info cache); \<open>RedisSentinel\<close>, \<open>Subscription\<close>:
    \<open>topom/client/redis/sentinel.go\<close>.
  \<^item> \<open>Config\<close>: \<open>config\<close>. \<open>Service\<close>: the struct \<open>service\<close> and its statistics (\<open>topom/service.go\<close>, \<open>stats.go\<close>) as the
    record \<open>svc\<close>, the interfaces it calls as \<open>env\<close>. \<open>GslbService\<close>: \<open>topom/gslb.go\<close>, \<open>sorter.go\<close>, \<open>client/gslb\<close>.
    \<open>SentinelService\<close>, \<open>Watcher\<close>: \<open>topom/sentinel.go\<close>. \<open>GroupService\<close>: \<open>topom/group.go\<close>. \<open>Lifecycle\<close>: \<open>Start\<close>,
    \<open>Close\<close>, statistics and views. \<open>Http\<close>: the handlers of \<open>handler\<close>; \<open>Routes\<close>: the routes that lead to them.
  \<^item> \<open>Boot\<close>: \<open>cmd/dashboard/main.go\<close> and the start of \<open>cmd/fe/main.go\<close>; \<open>FrontEnd\<close>: the rest of it; \<open>Logging\<close>, \<open>FileWriter\<close>: \<open>utils/log\<close>;
    \<open>MultiError\<close>: \<open>utils/error\<close>.
  \<^item> \<open>MemWorld\<close>, \<open>DiskWorld\<close>, \<open>Demo\<close>: a coordinator, redis servers and a disk in memory on which every operation
    runs; the contracts are interpreted there and the witnesses evaluate there.

  \<^bold>\<open>How state and steps correspond\<close>
  \<^item> A Go map is an association list read by \<open>map_of\<close>; its order is the order of \<open>range\<close>, which no theorem relies on
    (steps \<open>group_order\<close> and \<open>gslb_order\<close> of \<open>reachable\<close>). An object handed out by a mapper's \<open>Info\<close> is the cached object:
    changes to it are changes of the cache, made visible as \<open>assignGroup\<close>, \<open>assignSentinel\<close>, \<open>assignGslb\<close>.
  \<^item> The mutex of the service makes each operation one function on \<open>svc\<close>. Goroutines that an operation waits for
    run one after the other; the order in which their results arrive, the end of their context and timers come
    from the parameter \<open>sched\<close>.
  \<^item> Code outside the repository is a parameter: redigo (\<open>redigo\<close>), etcd's and zookeeper's APIs (\<open>kapi\<close>, \<open>zk_api\<close>),
    the file system (\<open>fsys\<close>, \<open>logfs\<close>), HTTP, the clock. JSON text is a tree (\<open>json\<close>), so the escaping of strings and
    invalid UTF-8 are out of scope.
  \<^item> Integers of Go are \<open>int\<close> with \<open>in_int64\<close> where a theorem needs the range, and \<open>64 word\<close> for flags and file sizes.

  \<^bold>\<open>What is shown\<close>
  \<^item> \<open>ServiceInvariant\<close>, \<open>ServiceSystem\<close>: \<open>svc_inv\<close> is kept by every operation, also by one that fails half way, in every
    interleaving of operations and outside changes (\<open>reachable\<close>), with the goroutines of the service among them
    (\<open>Watcher\<close>: \<open>running\<close>).
  \<^item> \<open>ServiceEffects\<close>, \<open>GroupEffects\<close>, \<open>Promotion\<close>, \<open>SentinelEffects\<close>, \<open>Failover\<close>: what each operation does to the caches on every
    branch; a promotion is a state machine that can be resumed; failover permutes servers. \<open>Liveness\<close>: what cannot fail.
  \<^item> \<open>Durability\<close>: over any \<open>coord_client\<close> an operation that writes a group leaves cache and coordinator equal if it
    succeeds, and differing in that group at most if it fails; \<open>Frames\<close>: talking to redis, sentinels and balancers leaves
    the coordinator alone; \<open>Tracking\<close>: so the two agree over a whole run but for the groups whose last write is open; with
    \<open>Boot\<close> a restarted dashboard continues from there. That both clients refine the contract justifies it.
  \<^item> \<open>DaoTypes\<close>: a decoder accepts the JSON values of its object's type and nothing else.
  \<^item> \<open>SentinelVotes\<close>, \<open>Subscription\<close>: the election of masters and the subscription by majority. \<open>Backends\<close>: what the balancers
    are given. \<open>PoolFacts\<close>: the pool of connections. \<open>Http\<close>, \<open>Routes\<close>: requests that are refused change nothing,
    no path has two handlers, a name out of a path holds no slash.
  \<^item> \<open>FrontEnd\<close>: a route leads where the dashboard said. \<open>FileWriter\<close>: size of the log file, naming of rotated files.

  \<^bold>\<open>Bounds\<close>
  \<^item> \<open>start_loop\<close> runs at most \<open>fuel\<close> rounds and gives \<open>None\<close> when it is still trying; the theorem on \<open>Start\<close> says when
    it returns. No bound is enough for a coordinator that always refuses.
  \<^item> \<open>zk_mkdir\<close> recurses at most \<open>length path\<close> times, which is enough for every rooted path (\<open>mkdir_depth\<close>).
  \<^item> \<open>subscribe_wait\<close> reads at most \<open>fuel\<close> messages, \<open>runRefreshEphemeral\<close> at most \<open>n\<close> refreshes: both are endless in the
    code, and a run that is not over is a value of its own.
  \<^item> The endless loops of \<open>doStats\<close>, of the template monitor, of the log's deletion are functions of the list of what
    their looks at the channel \<open>done\<close> find; the watcher is modelled by its rounds. A theorem about all lists is one
    about every run.

  \<^bold>\<open>Not modelled\<close>
  \<^item> Flags, signals, the HTTP servers, gin's own answers and compression, the static files of the front end and the
    forwarding by \<open>httputil\<close>, parsing TOML: calls into libraries without state of the program.
  \<^item> Concurrency inside an operation beyond the order of results: data races that break the lock discipline, such as the
    slice the watcher shares with \<open>DelSentinel\<close>, are recorded as findings.
  \<^item> The codec of \<open>TemplateFiles\<close>, which nothing calls (its bytes are base64), the version constants, the vendored packages.
\<close>

section \<open>The service as a whole\<close>

text \<open>
  C1. Whatever sequence of operations, rounds of the watcher, collections of statistics, changes of
  the outside world and reorderings of Go maps the service goes through, it stays well-formed: every group cached once under its own name,
  all proxy ports of the product different, no server address in two places, promotion states
  that the state machine knows, no sentinel and no balancer listed twice. The operations may
  fail half way; the caches are well-formed after a failure too.
\<close>

theorem service_invariant:
  assumes "svc_inv s0" and "running E s0 s"
  shows "svc_inv s"
  by (rule running_inv [OF assms(2,1)])

theorem service_invariant_witness:
  "svc_inv (run_op mem_env (OpDelGroupServer ''g1'' ''h:1'')
     (snd (watch_round mem_env [''s:1''] 3 (doStats mem_env [False, True] (run_op mem_env (OpPromoteServer ''g1'' ''h:2'') demo)))))"
  by (rule service_invariant [OF demo_inv request [OF watching [OF collecting [OF request [OF start operation]]] operation]])
    simp_all

text \<open>
  C2. \<open>GroupPromoteServer\<close>: when it returns normally, the promotion was allowed and the group
  has its servers in the order with the chosen one first, no promotion under way; nothing else
  of the group cache has changed. When it returns an error, the group cache is as before or the
  group stands in a later state of the same promotion (\<open>progress\<close>).
\<close>

theorem promote_effect:
  assumes "svc_inv s" and "GroupPromoteServer E k a s = (r, t)"
  shows "svc_inv t \<and>
    (case r of
       Inr _ \<Rightarrow> \<exists>g. gm_at (s_groups s) k = Some g \<and> may_promote g a \<and>
         s_groups t = gm_put k (promoted (promotion_target g a) g) (s_groups s)
     | Inl _ \<Rightarrow> s_groups t = s_groups s \<or>
         (\<exists>g g'. gm_at (s_groups s) k = Some g \<and> progress g a g' \<and> s_groups t = gm_put k g' (s_groups s)))"
  using hoare_result [OF GroupPromoteServer_spec [OF assms(1)] assms(2)] by (auto split: sum.splits)

theorem promote_effect_witness:
  "\<exists>t. GroupPromoteServer mem_env ''g1'' ''h:2'' demo = (Inr (), t) \<and> svc_inv t \<and>
     map_option addrs (gm_at (s_groups t) ''g1'') = Some [''h:2'', ''h:1'']"
proof -
  obtain t where run: "GroupPromoteServer mem_env ''g1'' ''h:2'' demo = (Inr (), t)"
    using demo_promote by (metis prod.collapse)
  from promote_effect [OF demo_inv run] demo_at(1) have "svc_inv t"
    and "s_groups t = gm_put ''g1'' (promoted (promotion_target demo_g1 ''h:2'') demo_g1) (s_groups demo)" by auto
  moreover have "addrs (promoted (promotion_target demo_g1 ''h:2'') demo_g1) = [''h:2'', ''h:1'']" by code_simp
  ultimately show ?thesis using run by simp
qed

text \<open>
  C3. A promotion that failed half way is resumed, not restarted: when the next call for the same
  server succeeds, the group is exactly what the first call would have made of it.
\<close>

theorem promote_resumes:
  assumes "svc_inv s" and "gm_at (s_groups s) k = Some g"
    and "GroupPromoteServer E k a s = (Inl e, t)" and "s_groups t \<noteq> s_groups s"
    and "GroupPromoteServer E' k a t = (Inr x, u)"
  shows "s_groups u = gm_put k (promoted (promotion_target g a) g) (s_groups s)"
proof -
  from hoareD(2) [OF GroupPromoteServer_spec [OF assms(1)] refl assms(3)] assms(2,4) obtain g' where
    t: "svc_inv t" "progress g a g'" "s_groups t = gm_put k g' (s_groups s)" by auto
  from hoareD(1) [OF GroupPromoteServer_spec [OF t(1)] refl assms(5)] t(3)
  have "s_groups u = gm_put k (promoted (promotion_target g' a) g') (s_groups t)" by auto
  moreover from t(2) have "promoted (promotion_target g' a) g' = promoted (promotion_target g a) g"
    by (simp add: progress_def promoted_def same_identity_def ports_def)
  ultimately show ?thesis by (simp add: t(3) gm_put_def)
qed

theorem promote_resumes_witness:
  "\<exists>e t u. GroupPromoteServer flaky_env ''g1'' ''h:2'' demo = (Inl e, t) \<and>
     GroupPromoteServer mem_env ''g1'' ''h:2'' t = (Inr (), u) \<and>
     map_option addrs (gm_at (s_groups u) ''g1'') = Some [''h:2'', ''h:1'']"
proof -
  obtain e t where run: "GroupPromoteServer flaky_env ''g1'' ''h:2'' demo = (Inl e, t)"
    and stalled: "map_option gPromotingState (gm_at (s_groups t) ''g1'') = Some ActionPrepared"
    and ok: "fst (GroupPromoteServer mem_env ''g1'' ''h:2'' t) = Inr ()"
    using demo_resume by (auto split: prod.splits)
  obtain u where run': "GroupPromoteServer mem_env ''g1'' ''h:2'' t = (Inr (), u)" using ok by (metis prod.collapse)
  have "gPromotingState demo_g1 \<noteq> ActionPrepared" by (simp add: demo_g1_def action_defs)
  then have "s_groups t \<noteq> s_groups demo" using stalled demo_at(1) by auto
  from promote_resumes [OF demo_inv demo_at(1) run this run']
  have "gm_at (s_groups u) ''g1'' = Some (promoted (promotion_target demo_g1 ''h:2'') demo_g1)" by simp
  moreover have "addrs (promoted (promotion_target demo_g1 ''h:2'') demo_g1) = [''h:2'', ''h:1'']" by code_simp
  ultimately show ?thesis using run run' by auto
qed

text \<open>
  C4. With a coordinator that accepts every write, a promotion that the state of the group
  allows and a creation that is allowed return normally: no answer of a redis server or of a
  sentinel, and no failure to reach one, makes them fail.
\<close>

theorem operations_live:
  assumes "reliable E"
  shows "(gm_at (s_groups s) k = Some g \<and> may_promote g a \<longrightarrow> fst (GroupPromoteServer E k a s) = Inr ()) \<and>
    (may_create (gmGroups (s_groups s)) n rp wp \<longrightarrow> fst (CreateGroup E n rp wp s) = Inr ())"
  using GroupPromoteServer_sure [OF assms] CreateGroup_sure [OF assms] by blast

theorem operations_live_witness:
  "fst (GroupPromoteServer (mem_env\<lparr>en_Client := mem_client\<lparr>cl_Update := \<lambda>p d w. (Inr (), w)\<rparr>\<rparr>) ''g1'' ''h:2'' demo) = Inr () \<and>
   fst (CreateGroup (mem_env\<lparr>en_Client := mem_client\<lparr>cl_Update := \<lambda>p d w. (Inr (), w)\<rparr>\<rparr>) ''g3'' 10005 10006 demo) = Inr ()"
proof -
  let ?E = "mem_env\<lparr>en_Client := mem_client\<lparr>cl_Update := \<lambda>p d w. (Inr (), w)\<rparr>\<rparr>"
  have "reliable ?E" by (simp add: reliable_def)
  moreover have "may_promote demo_g1 ''h:2''" by code_simp
  moreover have "may_create (gmGroups (s_groups demo)) ''g3'' 10005 10006" by code_simp
  ultimately show ?thesis using operations_live [of ?E demo "''g1''" demo_g1] demo_at(1) by blast
qed

section \<open>What the operations do\<close>

text \<open>
  C5. \<open>CreateGroup\<close>, when it returns normally, has added one empty group under a name of at
  most 32 characters that was free, with two different ports that no group of the product used;
  when it returns an error the group cache is as before.
\<close>

theorem create_effect:
  assumes "svc_inv s" and "CHR ''/'' \<notin> set n" and "CreateGroup E n rp wp s = (r, t)"
  shows "svc_inv t \<and>
    (case r of
       Inr _ \<Rightarrow> may_create (gmGroups (s_groups s)) n rp wp \<and>
         (\<exists>now. s_groups t = gm_put n (fresh_group n rp wp now) (s_groups s))
     | Inl _ \<Rightarrow> s_groups t = s_groups s)"
  using hoare_result [OF CreateGroup_spec [OF assms(1,2)] assms(3)] by (auto split: sum.splits)

theorem create_effect_witness:
  "\<exists>t. CreateGroup mem_env ''g3'' 10005 10006 demo = (Inr (), t) \<and> svc_inv t \<and>
     gm_at (s_groups t) ''g3'' \<noteq> None \<and> gm_at (s_groups t) ''g1'' = Some demo_g1"
proof -
  obtain t where run: "CreateGroup mem_env ''g3'' 10005 10006 demo = (Inr (), t)"
    using demo_create by (metis prod.collapse)
  from create_effect [OF demo_inv _ run] run demo_at(1) show ?thesis by auto
qed

text \<open>
  C6. \<open>RemoveGroup\<close> removes exactly the named group, and only when it has no server left.
\<close>

theorem remove_effect:
  assumes "svc_inv s" and "RemoveGroup E n s = (r, t)"
  shows "svc_inv t \<and>
    (case r of
       Inr _ \<Rightarrow> (\<exists>g. gm_at (s_groups s) n = Some g \<and> gServers g = []) \<and>
         map_of (gmGroups (s_groups t)) = (map_of (gmGroups (s_groups s)))(n := None)
     | Inl _ \<Rightarrow> s_groups t = s_groups s)"
  using hoare_result [OF RemoveGroup_spec [OF assms(1)] assms(2)] by (auto split: sum.splits)

theorem remove_effect_witness:
  "\<exists>t. RemoveGroup mem_env ''g2'' demo = (Inr (), t) \<and> svc_inv t \<and> gm_at (s_groups t) ''g2'' = None \<and>
     gm_at (s_groups t) ''g1'' = Some demo_g1"
proof -
  obtain t where run: "RemoveGroup mem_env ''g2'' demo = (Inr (), t)" using demo_remove by (metis prod.collapse)
  from remove_effect [OF demo_inv run] run demo_at(1) show ?thesis by (auto simp: gm_at_def)
qed

text \<open>
  C7. \<open>AddGroupServer\<close>, when it returns normally, has appended a server that no group of the
  product had to the end of the named group, and changed nothing else of the groups: the master
  of the group stays the same, unless the group was empty.
\<close>

theorem add_server_effect:
  assumes "svc_inv s" and "AddGroupServer E k a s = (Inr x, t)"
  shows "svc_inv t \<and> a \<noteq> [] \<and>
    (\<exists>g. gm_at (s_groups s) k = Some g \<and>
       s_groups t = gm_put k (g\<lparr>gServers := gServers g @ [\<lparr>sAddr = a\<rparr>]\<rparr>) (s_groups s)) \<and>
    a \<notin> set (concat (map (addrs \<circ> snd) (gmGroups (s_groups s))))"
  using hoareD(1) [OF AddGroupServer_spec [OF assms(1)] refl assms(2)] by auto

theorem add_server_effect_witness:
  "\<exists>t. AddGroupServer mem_env ''g1'' ''h:3'' demo = (Inr (), t) \<and>
     map_option addrs (gm_at (s_groups t) ''g1'') = Some [''h:1'', ''h:2'', ''h:3'']"
proof -
  obtain t where run: "AddGroupServer mem_env ''g1'' ''h:3'' demo = (Inr (), t)" using demo_add by (metis prod.collapse)
  from add_server_effect [OF demo_inv run] demo_at(1) run show ?thesis
    by (auto simp: addrs_def demo_g1_def)
qed

text \<open>
  C8. \<open>DelGroupServer\<close>, when it returns normally, has taken the server out of the named group
  and left the order of the others as it was; the master goes only as the last server.
\<close>

theorem del_server_effect:
  assumes "svc_inv s" and "DelGroupServer E k a s = (Inr x, t)"
  shows "svc_inv t \<and>
    (\<exists>g g'. gm_at (s_groups s) k = Some g \<and> a \<in> set (addrs g) \<and> (GetMaster g = a \<longrightarrow> length (gServers g) = 1) \<and>
       s_groups t = gm_put k g' (s_groups s) \<and>
       addrs g' = remove_at (nat (GetServerIndex g a)) (addrs g) \<and> a \<notin> set (addrs g'))"
proof -
  from hoareD(1) [OF DelGroupServer_spec [OF assms(1)] refl assms(2)] obtain g where
    t: "svc_inv t" "s_groups t = gm_put k (without_server (GetServerIndex g a) g) (s_groups s)" and
    g: "gm_at (s_groups s) k = Some g" "a \<in> set (addrs g)" "GetServerIndex g a = 0 \<longrightarrow> length (gServers g) = 1"
    by auto
  from assms(1) groups_invD(3) [OF _ g(1)] have d: "distinct (addrs g)" by (simp add: svc_inv_def)
  have a: "addrs (without_server (GetServerIndex g a) g) = remove_at (nat (GetServerIndex g a)) (addrs g)"
    by (simp add: without_server_def addrs_def map_remove_at Let_def)
  show ?thesis using t g a removed_server [OF g(2) d] master_index [OF g(2)] by (intro conjI exI) auto
qed

theorem del_server_effect_witness:
  "\<exists>t. DelGroupServer mem_env ''g1'' ''h:2'' demo = (Inr (), t) \<and>
     map_option addrs (gm_at (s_groups t) ''g1'') = Some [''h:1'']"
proof -
  obtain t where run: "DelGroupServer mem_env ''g1'' ''h:2'' demo = (Inr (), t)" using demo_del by (metis prod.collapse)
  have "remove_at (nat (GetServerIndex demo_g1 ''h:2'')) (addrs demo_g1) = [''h:1'']" by code_simp
  with del_server_effect [OF demo_inv run] demo_at(1) run show ?thesis by auto
qed

text \<open>
  C9. \<open>ResyncGroup\<close>, when it returns normally, leaves the group marked as synchronised and all
  else of the groups unchanged; when it returns an error, at most the mark has changed.
\<close>

theorem resync_effect:
  assumes "svc_inv s" and "ResyncGroup E k s = (r, t)"
  shows "svc_inv t \<and>
    (case r of
       Inr _ \<Rightarrow> \<exists>g. gm_at (s_groups s) k = Some g \<and> s_groups t = gm_put k (g\<lparr>gOutOfSync := False\<rparr>) (s_groups s)
     | Inl _ \<Rightarrow> s_groups t = s_groups s \<or>
         (\<exists>g b. gm_at (s_groups s) k = Some g \<and> s_groups t = gm_put k (g\<lparr>gOutOfSync := b\<rparr>) (s_groups s)))"
  using hoare_result [OF ResyncGroup_spec [OF assms(1)] assms(2)] by (auto split: sum.splits)

theorem resync_effect_witness:
  "\<exists>t. ResyncGroup mem_env ''g1'' demo = (Inr (), t) \<and> svc_inv t \<and>
     map_option gOutOfSync (gm_at (s_groups t) ''g1'') = Some False"
proof -
  obtain t where run: "ResyncGroup mem_env ''g1'' demo = (Inr (), t)" using demo_resync by (metis prod.collapse)
  from resync_effect [OF demo_inv run] demo_at(1) run show ?thesis by auto
qed



text \<open>
  C11. Failover: after \<open>switchMasters\<close> every group has the servers it had, up to their order, each
  reported address that is a server of its group is now the master of it, and the groups that
  the report does not name are unchanged.
\<close>

theorem failover_effect:
  assumes "svc_inv s" and "distinct (map fst masters)" and "switchMasters E masters s = (Inr x, t)"
  shows "svc_inv t \<and> same_servers (s_groups s) (s_groups t) \<and> reported (s_groups s) masters (s_groups t) \<and>
    (\<forall>k. k \<notin> fst ` set masters \<longrightarrow> gm_at (s_groups t) k = gm_at (s_groups s) k)"
  using hoareD(1) [OF switchMasters_spec [OF assms(1,2)] refl assms(3)] by blast

theorem failover_effect_witness:
  "\<exists>t. switchMasters mem_env [(''g1'', ''h:2''), (''g9'', ''x:1'')] demo = (Inr (), t) \<and>
     map_option GetMaster (gm_at (s_groups t) ''g1'') = Some ''h:2'' \<and> gm_at (s_groups t) ''g2'' = Some demo_g2"
proof -
  let ?ms = "[(''g1'', ''h:2''), (''g9'', ''x:1'')]"
  obtain t where run: "switchMasters mem_env ?ms demo = (Inr (), t)" using demo_switch by (metis prod.collapse)
  have post: "reported (s_groups demo) ?ms (s_groups t)" "gm_at (s_groups t) ''g2'' = gm_at (s_groups demo) ''g2''"
    using failover_effect [OF demo_inv _ run] by simp_all
  have "''h:2'' \<in> set (addrs demo_g1)" by (simp add: addrs_def demo_g1_def)
  then have "map_option GetMaster (gm_at (s_groups t) ''g1'') = Some ''h:2''"
    using post(1) demo_at(1) by (auto simp: reported_def)
  with run post(2) demo_at(2) show ?thesis by simp
qed

section \<open>The coordinator and the cache\<close>

text \<open>
  C12. Durability over a whole run: from a state whose groups the coordinator holds, through any
  operations, failures, failovers and changes elsewhere, the coordinator holds under the name of
  every group what is cached under it, and nothing where nothing is cached, except for the names
  \<open>K\<close> whose last write is open: a failed operation on a group adds its name, one that succeeds
  takes it out again, a failover or the resynchronisation of all groups adds its groups. For any
  coordinator that keeps the contract of the interface and any redis servers and sentinels.
\<close>

theorem groups_durable:
  assumes "dashboard C view E" and "svc_inv s0" and "durable {} view s0" and "tracked view E s0 s K"
    and "CHR ''/'' \<notin> set n" and "n \<notin> K"
  shows "view (s_world s) (GroupPath (gmProduct (s_groups s)) n) = map_option Group_Encode (gm_at (s_groups s) n)"
  using dashboard.tracked_durable [OF assms(1,4,2,3)] assms(5,6) by (simp add: durable_def stored_but_def gm_at_def)

theorem groups_durable_witness:
  "\<exists>t. GroupPromoteServer mem_env ''g1'' ''h:2'' demo = (Inr (), t) \<and>
     world_view (s_world t) (GroupPath (gmProduct (s_groups t)) ''g1'') = map_option Group_Encode (gm_at (s_groups t) ''g1'')"
proof -
  obtain t where run: "GroupPromoteServer mem_env ''g1'' ''h:2'' demo = (Inr (), t)"
    using demo_promote by (metis prod.collapse)
  have "tracked world_view mem_env demo (run_op mem_env (OpPromoteServer ''g1'' ''h:2'') demo)
      (open_after mem_env (OpPromoteServer ''g1'' ''h:2'') demo {})"
    by (intro acts begins) simp_all
  then have "tracked world_view mem_env demo t {}" using run by (simp add: settle_def)
  from groups_durable [OF mem_world.dashboard_axioms demo_inv demo_durable this] run show ?thesis by simp
qed



text \<open>
  C14. The etcd client refines the coordinator's interface: over any service that behaves as the
  documentation of etcd's keys API says, it keeps the contract the mappers rely on.
\<close>

theorem etcd_refines:
  assumes "etcd_service K view"
  shows "coord_client (etcd_Client K) (\<lambda>s. view (snd s))"
  by (rule etcd_service.refines [OF assms])

theorem etcd_refines_witness: "coord_client (etcd_Client mem_kapi) (\<lambda>s. mem_view (snd s))"
  by (rule etcd_refines [OF mem.etcd_service_axioms])

text \<open>
  C15. So does the zookeeper client, over any service that behaves as zookeeper's documentation
  says, whatever the connections do and however often the client dials anew.
\<close>

theorem zk_refines:
  assumes "zk_service Z view"
  shows "coord_client (zk_Client Z) (\<lambda>s. view (snd s))"
  by (rule zk_service.refines [OF assms])

theorem zk_refines_witness: "coord_client (zk_Client zm_api) (\<lambda>s. zm_view (snd s))"
  by (rule zk_refines [OF zk_mem.zk_service_axioms])



text \<open>
  C17. Template files: the mapper that a start loads and the monitor that then runs on it keep the
  cache what the coordinator holds: whatever the coordinator answers to the reads, writes and
  deletes, every template in the cache is stored under its name.
\<close>

theorem templates_mirrored:
  assumes "template_host C view F" and "NewTemplateFileMapper C F marshal scanDir w = (Inr m, w1)"
    and "monitor C F ds (m, w1) = (m', w')"
  shows "templates_ok (tpTfs m') \<and> tf_stored marshal view (tpTfs m') w'"
  by (rule template_host.mapper_mirrors [OF assms])

theorem templates_mirrored_witness:
  "\<exists>m w m' w'. NewTemplateFileMapper mem_client mem_fsys (\<lambda>_. []) ''/tpl/x'' demo_disk = (Inr m, w) \<and>
     monitor mem_client mem_fsys [False, False, False, True] (m, w) = (m', w') \<and> tpTfs m = [] \<and>
     world_view w' (TemplateFilePath ''a.cfg'') = Some (Bytes ''listen'')"
proof -
  let ?ds = "[False, False, False, True]"
  obtain x w where x: "NewTemplateFileMapper mem_client mem_fsys (\<lambda>_. []) ''/tpl/x'' demo_disk = (x, w)" by (rule prod.exhaust)
  with demo_mirror obtain m where "x = Inr m" by (cases x) auto
  note new = x [unfolded this]
  obtain m' w' where run: "monitor mem_client mem_fsys ?ds (m, w) = (m', w')" by (rule prod.exhaust)
  from demo_mirror have m: "tpTfs m = []" and a: "map_of (tpTfs m') ''a.cfg'' = Some (template_of ''listen'')"
    by (simp_all only: new run prod.case sum.case)
  have "tf_stored (\<lambda>_. []) world_view (tpTfs m') w'"
    using templates_mirrored [OF disk_world.template_host_axioms new run] by simp
  from tf_stored_butD [OF this [unfolded tf_stored_def] a]
  have "map_option (text_of (\<lambda>_. [])) (world_view w' (TemplateFilePath ''a.cfg'')) = Some ''listen''"
    by (simp add: template_of_def)
  then obtain d where d: "world_view w' (TemplateFilePath ''a.cfg'') = Some d" "text_of (\<lambda>_. []) d = ''listen''" by auto
  then have "d = Bytes ''listen''" by (cases d) (simp_all add: text_of_def)
  with new run m d(1) show ?thesis by blast
qed

section \<open>Talking to the sentinels\<close>

text \<open>
  C18. The election: the map that \<open>Masters\<close> returns was decided by answers from more than half of
  the sentinels, and gives each group the address of the answer with the highest epoch, the
  first one to come in among equals.
\<close>

theorem masters_elected:
  assumes "Masters S R product sentinels timeout w = (Inr masters, w')"
  shows "\<exists>rs w1 order e w2.
    run_all (mastersDispatch S R product (timeout + 5 * time_Second)) sentinels w = (rs, w1) \<and>
    sc_Arrive S (length sentinels) w1 = ((order, e), w2) \<and>
    length sentinels < 2 * length (voters rs order) \<and>
    (\<forall>g. map_of masters g = map_option mAddr (elected (ballots rs order) g))"
proof -
  obtain rs w1 where "run_all (mastersDispatch S R product (timeout + 5 * time_Second)) sentinels w = (rs, w1)"
    by fastforce
  moreover obtain order e w2 where "sc_Arrive S (length sentinels) w1 = ((order, e), w2)" by (metis prod.exhaust)
  ultimately show ?thesis using Masters_elects [OF _ _ assms] by blast
qed

theorem masters_elected_witness:
  "\<exists>w. Masters mem_sched voting_redigo ''p'' [''s:1''] 0 demo_world = (Inr [(''g1'', ''h:2'')], w) \<and>
     (\<exists>rs order. 1 < 2 * length (voters rs order) \<and> map_option mAddr (elected (ballots rs order) ''g1'') = Some ''h:2'')"
proof -
  obtain w where run: "Masters mem_sched voting_redigo ''p'' [''s:1''] 0 demo_world = (Inr [(''g1'', ''h:2'')], w)"
    using demo_masters by (metis prod.collapse)
  from masters_elected [OF run] obtain rs order where "length [''s:1''] < 2 * length (voters rs order)"
    and g: "\<forall>g. map_of [(''g1'', ''h:2'')] g = map_option mAddr (elected (ballots rs order) g)" by blast
  moreover from g [rule_format, of "''g1''"] have "map_option mAddr (elected (ballots rs order) ''g1'') = Some ''h:2''"
    by simp
  ultimately show ?thesis using run by auto
qed

text \<open>
  C19. The loop of \<open>Masters\<close>, step by step, computes what the plain description says: a canceled
  context wins, then the count of the answers against the majority, then the votes.
\<close>

theorem masters_loop_reference:
  "masters_loop n n 0 ([], []) ctx evs =
     (let answers = List.map_filter id (results n evs);
          reason = (case ending n evs of None \<Rightarrow> ctx | Some c \<Rightarrow> Some c)
      in if reason = Some Canceled then Inl ErrCtxCanceled
         else if length answers < majority n then Inl (ErrSentinel (LostMajority (length answers) n))
         else Inr (snd (vote (concat answers) ([], []))))"
  by (simp add: masters_loop_eq fold_vote Let_def)


text \<open>
  C21. \<open>AddSentinel\<close>, when it returns normally, has put a new sentinel at the end of the list and
  marked the list as out of sync; the groups are unchanged.
\<close>

theorem add_sentinel_effect:
  assumes "svc_inv s" and "AddSentinel E a s = (Inr x, t)"
  shows "svc_inv t \<and> s_groups t = s_groups s \<and> a \<notin> set (snServers (smSentinel (s_sentinel s))) \<and>
    smSentinel (s_sentinel t) =
      \<lparr>snServers = snServers (smSentinel (s_sentinel s)) @ [a], snOutOfSync = True\<rparr>"
  using hoareD(1) [OF AddSentinel_spec [OF assms(1)] refl assms(2)] by blast

theorem add_sentinel_effect_witness:
  "\<exists>t. AddSentinel mem_env ''s:2'' demo = (Inr (), t) \<and> snServers (smSentinel (s_sentinel t)) = [''s:1'', ''s:2'']"
proof -
  obtain t where run: "AddSentinel mem_env ''s:2'' demo = (Inr (), t)" using demo_addsn by (metis prod.collapse)
  from add_sentinel_effect [OF demo_inv run] run show ?thesis by (simp add: demo_def demo_sentinel_def)
qed

text \<open>
  C22. \<open>DelSentinel\<close>, when it returns normally, has taken the sentinel out of the list and nothing
  else, and marked the list as out of sync; the groups are unchanged.
\<close>

theorem del_sentinel_effect:
  assumes "svc_inv s" and "DelSentinel E a force s = (Inr x, t)"
  shows "svc_inv t \<and> s_groups t = s_groups s \<and> snOutOfSync (smSentinel (s_sentinel t)) \<and>
    a \<in> set (snServers (smSentinel (s_sentinel s))) \<and>
    mset (snServers (smSentinel (s_sentinel t))) = mset (snServers (smSentinel (s_sentinel s))) - {#a#}"
  using hoareD(1) [OF DelSentinel_spec [OF assms(1)] refl assms(2)] by blast

theorem del_sentinel_effect_witness:
  "\<exists>t. DelSentinel mem_env ''s:1'' True demo = (Inr (), t) \<and> snServers (smSentinel (s_sentinel t)) = []"
proof -
  obtain t where run: "DelSentinel mem_env ''s:1'' True demo = (Inr (), t)" using demo_delsn by (metis prod.collapse)
  from del_sentinel_effect [OF demo_inv run] run show ?thesis by (simp add: demo_def demo_sentinel_def)
qed



section \<open>Balancers\<close>

text \<open>
  C24. The backends haproxy is given for a group: none when the group has no server or when a
  server that answers follows another master than the first of the group; otherwise the write
  entry holds the first server alone, if it answers, and the read entry the servers that answer,
  the replicas among them only with their link up, each entry with its own port.
\<close>

theorem haproxy_backend:
  "case group_backend stats v of
     None \<Rightarrow> gServers v = [] \<or> strayed stats v
   | Some b \<Rightarrow> gServers v \<noteq> [] \<and> \<not> strayed stats v \<and> bgName b = gName v \<and>
       (\<forall>state. map_of (bgServerGroup b) state = expected_backend stats v state)"
  by (rule group_backend_expected)

text \<open>
  C25. The list haproxy is given: the groups that have backends, newest group first, computed
  without changing anything.
\<close>

theorem haproxy_list:
  assumes "haproxyBackends s = (Inr (bs, ms), t)"
  shows "t = s \<and> ms = [] \<and>
    (\<exists>gs. mset gs = mset (map snd (gmGroups (s_groups s))) \<and>
       sorted_wrt (\<lambda>a b. gCreateTime b \<le> gCreateTime a) gs \<and>
       map bgName bs = map gName (filter (\<lambda>g. gServers g \<noteq> [] \<and> \<not> strayed (s_servers s) g) gs))"
  using haproxy_names [OF assms] mset_sortGroups sorted_sortGroups by blast

theorem haproxy_list_witness:
  "\<exists>bs. fst (haproxyBackends (demo_with [] demo_stats)) = Inr (bs, []) \<and> map bgName bs = [''g1''] \<and>
     snd (haproxyBackends (demo_with [] demo_stats)) = demo_with [] demo_stats"
proof -
  let ?s = "demo_with [] demo_stats"
  obtain bs t where "haproxyBackends ?s = (Inr (bs, []), t)" and names: "map bgName bs = [''g1'']"
    using demo_backends by (cases "haproxyBackends ?s") auto
  with haproxy_list [OF this(1)] show ?thesis by simp
qed



text \<open>
  C27. Adding a server to a balancer that is cached already never writes the balancer by itself:
  the object was changed in place, so \<open>Update\<close> finds it equal to the cached one; what reaches the
  coordinator is what the refresh of the backends that follows writes.
\<close>

theorem add_gslb_writes_by_refresh:
  assumes "gslb_inv (s_gslb s)" and "map_of (bmGslbs (s_gslb s)) n = Some g" and "a \<noteq> []" and "a \<notin> set (glServers g)"
  shows "AddGSLB E n a s = refreshGSLBBackendInfo E
    (s\<lparr>s_gslb := (s_gslb s)\<lparr>bmGslbs := AList.update n (g\<lparr>glServers := glServers g @ [a]\<rparr>) (bmGslbs (s_gslb s))\<rparr>\<rparr>)"
proof -
  from gslb_invD [OF assms(1,2)] have "glName g = n" by simp
  with assms(2-4) show ?thesis
    by (simp add: AddGSLB_def Let_def assignGslb_def updateGslb_same bindE_def gets_def ret_def modifyE_def guardE_def)
qed

theorem add_gslb_writes_by_refresh_witness:
  "AddGSLB mem_env ''haproxy'' ''b:81'' (demo_with [(''haproxy'', demo_haproxy)] []) =
     refreshGSLBBackendInfo mem_env (demo_with [(''haproxy'', demo_haproxy\<lparr>glServers := [''b:80'', ''b:81'']\<rparr>)] [])"
  using add_gslb_writes_by_refresh [of "demo_with [(''haproxy'', demo_haproxy)] []" "''haproxy''" demo_haproxy "''b:81''" mem_env]
  by (simp add: demo_with_def demo_haproxy_def gslb_inv_def gslb_named_def demo_def)

section \<open>Connections\<close>

text \<open>
  C28. \<open>GetClient\<close> keeps the pool well-formed and hands out a client of the address asked for:
  one that was in the pool, is no longer, and is recyclable, or a freshly dialled one.
\<close>

theorem pool_get:
  assumes "pool_inv p" and "GetClient R addr (p, w) = (Inr c, (p', w'))"
  shows "pool_inv p' \<and> rcAddr c = addr \<and>
    ((add_mset c (mset (pooled p')) \<subseteq># mset (pooled p) \<and> isRecyclable R c w') \<or>
     (mset (pooled p') \<subseteq># mset (pooled p) \<and> (\<exists>w1. NewClient R addr (plAuth p) (plTimeout p) w1 = (Inr c, w'))))"
  using GetClient_spec [OF assms] by blast

theorem pool_get_witness:
  "\<exists>p w. GetClient mem_redigo ''h:1'' (demo_pool, demo_world) = (Inr demo_client, (p, w)) \<and> pool_inv p"
proof -
  obtain p w where "GetClient mem_redigo ''h:1'' (demo_pool, demo_world) = (Inr demo_client, (p, w))"
    using demo_get by (metis prod.collapse)
  with pool_get [OF demo_pool_inv this] show ?thesis by blast
qed

text \<open>
  C29. \<open>PutClient\<close> keeps the pool well-formed; a client that is recyclable joins an open pool, any
  other is closed and the pool is as before.
\<close>

theorem pool_put:
  assumes "pool_inv p" and "rcConn c \<notin> rcConn ` set (pooled p)" and "PutClient R c (p, w) = (p', w')"
  shows "pool_inv p' \<and>
    (if isRecyclable R c w \<and> \<not> plClosed p then mset (pooled p') = add_mset c (mset (pooled p)) \<and> w' = w
     else p' = p \<and> w' = close_client R c w)"
  using PutClient_spec [OF assms(1,2), of R w] unfolding assms(3) by (auto split: if_splits)

theorem pool_put_witness:
  "pool_inv (fst (PutClient mem_redigo (demo_client\<lparr>rcConn := 5\<rparr>) (demo_pool, demo_world)))"
  using pool_put [OF demo_pool_inv, of "demo_client\<lparr>rcConn := 5\<rparr>" mem_redigo demo_world
      "fst (PutClient mem_redigo (demo_client\<lparr>rcConn := 5\<rparr>) (demo_pool, demo_world))"
      "snd (PutClient mem_redigo (demo_client\<lparr>rcConn := 5\<rparr>) (demo_pool, demo_world))"]
  by (simp add: demo_pool_def NewPool_def pooled_def demo_client_def)

text \<open>
  C30. The info cache asks a server once: later questions about the address get the same answer,
  empty if the first attempt failed, and make no call; other addresses are untouched.
\<close>

theorem info_cache_once:
  assumes "InfoCache_Get R a (c, w) = (info, (c', w'))"
  shows "InfoCache_Get R a (c', u) = (info, (c', u)) \<and> (b = a \<or> InfoCache_load b c' = InfoCache_load b c)"
  using InfoCache_Get_again [OF assms] by blast

theorem info_cache_once_witness:
  "\<exists>info c w. InfoCache_Get mem_redigo ''h:1'' (\<lparr>icAuth = [], icData = [], icTimeout = 5\<rparr>, demo_world) = (info, (c, w)) \<and>
     InfoCache_Get mem_redigo ''h:1'' (c, w) = (info, (c, w))"
  using info_cache_once [of mem_redigo "''h:1''" "\<lparr>icAuth = [], icData = [], icTimeout = 5\<rparr>" demo_world]
  by (metis prod.exhaust)

section \<open>The HTTP interface, the start, the stored form\<close>

text \<open>
  C31. A request that no route takes or that is answered with \<open>400\<close> has changed nothing and talked
  to nobody.
\<close>

theorem http_bad_request:
  assumes "http E meth path s = (a, t)" and "a = Unrouted \<or> (\<exists>msg. a = Answer (StatusBadRequest msg))"
  shows "t = s"
  by (rule http_refused [OF assms])

theorem http_bad_request_witness:
  "\<exists>msg. http mem_env ''PUT'' ''/api/topom/group/create/xauth/g3/80/10006'' demo = (Answer (StatusBadRequest msg), demo)"
proof -
  have "fst (http mem_env ''PUT'' ''/api/topom/group/create/xauth/g3/80/10006'' demo) =
      Answer (StatusBadRequest ''proxy read port invalid'')" by code_simp
  then obtain t where run: "http mem_env ''PUT'' ''/api/topom/group/create/xauth/g3/80/10006'' demo =
      (Answer (StatusBadRequest ''proxy read port invalid''), t)" by (metis prod.collapse)
  from http_bad_request [OF run] run show ?thesis by blast
qed

text \<open>
  C32. Every request, whatever its method and path, leaves the service well-formed, whatever it is
  answered with.
\<close>

theorem http_invariant:
  assumes "svc_inv s"
  shows "svc_inv (snd (http E meth path s))"
  by (rule http_inv [OF assms])

theorem http_invariant_witness:
  "svc_inv (snd (http mem_env ''PUT'' ''/api/topom/group/del/xauth/g1/h:2'' demo))"
  by (rule http_invariant [OF demo_inv])

text \<open>
  C33. A path below \<open>/api/topom/group/create\<close> reaches the creation of a group with the segments it
  holds, and the ports of a group created that way are two different ones between 10000 and
  59999, none of them a port of another group of the product.
\<close>

theorem http_ports:
  assumes "svc_inv s" and "Split CHR ''/'' path = ['''', ''api'', ''topom'', ''group'', ''create'', xauth, n, rport, wport]"
    and "http E ''PUT'' path s = (Answer (StatusOK b), t)"
  shows "\<exists>g. gm_at (s_groups t) n = Some g \<and> gServers g = [] \<and>
    Atoi rport = Some (gProxyReadPort g) \<and> Atoi wport = Some (gProxyWritePort g) \<and>
    gProxyReadPort g \<in> {10000..59999} \<and> gProxyWritePort g \<in> {10000..59999} \<and>
    gProxyReadPort g \<noteq> gProxyWritePort g \<and>
    (\<forall>(k, h) \<in> set (gmGroups (s_groups s)). set (ports g) \<inter> set (ports h) = {})"
proof -
  from http_create [OF assms(2,3)] have n: "CHR ''/'' \<notin> set n"
    and run: "h_Create E n rport wport s = (Some (StatusOK b), t)" by blast+
  from h_Create_OK [OF assms(1) n run] obtain r w now where
    rw: "Atoi rport = Some r" "Atoi wport = Some w" "validPort r" "validPort w"
      "may_create (gmGroups (s_groups s)) n r w"
    and t: "s_groups t = gm_put n (fresh_group n r w now) (s_groups s)" by blast
  from rw(5) have "\<forall>(k, h) \<in> set (gmGroups (s_groups s)). \<not> ports_conflict r w h" and "r \<noteq> w"
    by (auto simp: may_create_def list_all_iff)
  then show ?thesis using rw(1-4) t
    by (auto simp: validPort_iff fresh_group_def ports_conflict_def ports_def split: if_splits)
qed

theorem http_ports_witness:
  "\<exists>t. http mem_env ''PUT'' ''/api/topom/group/create/xauth/g3/10005/10006'' demo = (Answer (StatusOK NoBody), t) \<and>
     gm_at (s_groups t) ''g3'' \<noteq> None"
proof -
  have split: "Split CHR ''/'' ''/api/topom/group/create/xauth/g3/10005/10006'' =
      ['''', ''api'', ''topom'', ''group'', ''create'', ''xauth'', ''g3'', ''10005'', ''10006'']" by code_simp
  have "fst (http mem_env ''PUT'' ''/api/topom/group/create/xauth/g3/10005/10006'' demo) = Answer (StatusOK NoBody)"
    by code_simp
  then obtain t where run: "http mem_env ''PUT'' ''/api/topom/group/create/xauth/g3/10005/10006'' demo =
      (Answer (StatusOK NoBody), t)" by (metis prod.collapse)
  from http_ports [OF demo_inv split run] run show ?thesis by auto
qed


text \<open>
  C35. \<open>Close\<close> leaves the groups alone and happens once. Afterwards the service is offline if the
  dashboard's node could be deleted; if it could not, the service stays online however often it
  is closed again (\<open>closes\<close>), and the end of \<open>main\<close>, which waits for it to be offline, is not reached.
\<close>

theorem close_effect:
  assumes "\<not> s_closed s" and "service_Close E s = (r, t)"
  shows "s_closed t \<and> s_groups t = s_groups s \<and> closes E (Suc k) s = t \<and>
    IsOnline t = (s_online s \<and> (\<exists>e. r = Inl e)) \<and>
    (r = Inr () \<or> r = Inl (ErrDeleteTopom (ProductName (s_config s))))"
  using Close_effect [OF assms] assms(2) by (simp add: closes_fixed IsOnline_def)

theorem close_effect_witness:
  "\<forall>k. IsOnline (closes deaf_env (Suc k) demo)"
proof -
  obtain t where run: "service_Close deaf_env demo = (Inl (ErrDeleteTopom ''p''), t)" using demo_close by (metis prod.collapse)
  have "\<not> s_closed demo" "s_online demo" by (simp_all add: demo_def)
  with close_effect [OF _ run] show ?thesis by simp
qed








section \<open>The log\<close>



end
